theory Spec2Isabelle
  imports Main "HOL-Library.Word" "HOL-Library.Sublist"
begin

section \<open>The gear library (gear/__init__.py): data model\<close>

text \<open>
  Python byte strings are lists of 8-bit words.  Objects that the code shares by
  reference (connections, jobs, tasks) live in a store indexed by identifiers;
  a Python \<open>dict\<close> is a map, a Python \<open>None\<close>-able attribute is an
  \<open>option\<close>.  A leading underscore of a Python name is dropped
  (\<open>_lostConnection\<close> is \<open>lostConnection\<close>).
\<close>

type_synonym byte = "8 word"
type_synonym bytes = "byte list"

type_synonym conn_id = nat
type_synonym job_id = nat
type_synonym task_id = nat

text \<open>The exception classes of the module, and the built-in ones its code can raise.\<close>

datatype error =
    ConnectionError | InvalidDataError | ConfigurationError
  | NoConnectedServersError | UnknownJobError | InterruptedError
  | TimeoutError | GearmanError | DisconnectError | RetryIOError
  | Exception | IndexError | KeyError | AttributeError | RuntimeError
  | StructError | SocketError

text \<open>Python truthiness of an optional byte string: \<open>None\<close> and \<open>b''\<close> are false.\<close>

definition truthy :: "bytes option \<Rightarrow> bool" where
  "truthy x = (case x of None \<Rightarrow> False | Some b \<Rightarrow> b \<noteq> [])"

subsection \<open>Administrative requests\<close>

datatype admin_class =
    StatusAdminRequest | ShowJobsAdminRequest | ShowUniqueJobsAdminRequest
  | CancelJobAdminRequest | VersionAdminRequest | WorkersAdminRequest

record admin_request =
  cls :: admin_class
  arguments :: "bytes list"
  response :: "bytes option"
  wait_event :: bool

subsection \<open>Tasks and jobs\<close>

datatype task_class = SubmitJobTask job_id | OptionReqTask

record task =
  task_class :: task_class
  wait_event :: bool

text \<open>\<open>BaseJob\<close>; a \<open>WorkerJob\<close> adds no attribute to it.\<close>

record base_job =
  name :: bytes
  arguments :: bytes
  unique :: "bytes option"
  handle :: "bytes option"
  connection :: "conn_id option"

text \<open>\<open>Job\<close>.  The float attribute \<open>fraction_complete\<close> is left out.\<close>

record job = base_job +
  data :: "bytes list"
  exception :: "bytes option"
  warning :: bool
  complete :: bool
  failure :: bool
  numerator :: "bytes option"
  denominator :: "bytes option"
  known :: "bool option"
  running :: "bool option"

record function_record =
  name :: bytes
  timeout :: "bytes option"

subsection \<open>Connections\<close>

text \<open>
  A \<open>threading.Condition\<close> carries no data of its own here; the registry
  \<open>echo_conditions\<close> maps a payload to one.
\<close>

datatype condition = Condition

text \<open>
  What one call of \<open>recv\<close> on the socket does: it returns a segment of
  bytes (the empty segment when the peer has closed the socket) or raises.
\<close>

datatype recv_event = Recv bytes | RecvRaises error

text \<open>
  The attributes of \<open>Connection\<close>, without the TLS file names and the two
  timestamps.  The socket \<open>self.conn\<close> is modelled by three fields:
  \<open>sock_in\<close>, what the successive \<open>recv\<close> calls will do (after the
  last event the socket is closed); \<open>sock_out\<close>, the byte strings handed
  to \<open>send\<close> so far; \<open>sock_fail\<close>, whether \<open>send\<close> raises.
\<close>

record connection =
  host :: bytes
  port :: int
  input_buffer :: bytes
  need_bytes :: bool
  connected :: bool
  related_jobs :: "bytes \<rightharpoonup> job_id"
  pending_tasks :: "task_id list"
  admin_requests :: "admin_request list"
  echo_conditions :: "bytes \<rightharpoonup> condition"
  options :: "bytes set"
  state :: string
  sock_in :: "recv_event list"
  sock_out :: "bytes list"
  sock_fail :: bool

subsection \<open>Clients and workers\<close>

text \<open>
  \<open>BaseClientServer\<close> and \<open>BaseClient\<close>, without the threads, the lock
  objects and the wake pipe.  The last four fields are the object store:
  the connections, jobs and tasks the instance refers to, and the next unused
  task identifier.
\<close>

record base_client =
  client_id :: "bytes option"
  running :: bool
  active_connections :: "conn_id list"
  inactive_connections :: "conn_id list"
  connection_index :: int
  conns :: "conn_id \<Rightarrow> connection"
  jobs :: "job_id \<Rightarrow> job"
  tasks :: "task_id \<Rightarrow> task"
  next_task :: task_id

record client = base_client +
  options :: "bytes set"

record worker = base_client +
  worker_id :: "bytes option"
  worker_functions :: "bytes \<rightharpoonup> function_record"
  waiting_for_jobs :: int
  job_queue :: "base_job option list"

section \<open>Python byte-string operations\<close>

text \<open>
  \<open>data.find(sub)\<close>: the lowest index at which \<open>sub\<close> occurs in
  \<open>data\<close>, or \<open>-1\<close>.  \<open>data.startswith(sub)\<close> is \<open>prefix sub data\<close>.
\<close>

fun find_bytes :: "bytes \<Rightarrow> bytes \<Rightarrow> int" where
  "find_bytes [] sub = (if sub = [] then 0 else -1)"
| "find_bytes (x # xs) sub =
     (if prefix sub (x # xs) then 0
      else let r = find_bytes xs sub in if r = -1 then -1 else r + 1)"

text \<open>
  Slices.  A negative index counts from the end, and every index is clamped
  to the length: \<open>xs[i:]\<close>, \<open>xs[:j]\<close> and \<open>xs[i:j]\<close>.
\<close>

definition slice_index :: "nat \<Rightarrow> int \<Rightarrow> nat" where
  "slice_index n i = (if i < 0 then nat (int n + i) else min n (nat i))"

definition slice_from :: "'a list \<Rightarrow> int \<Rightarrow> 'a list" where
  "slice_from xs i = drop (slice_index (length xs) i) xs"

definition slice_to :: "'a list \<Rightarrow> int \<Rightarrow> 'a list" where
  "slice_to xs j = take (slice_index (length xs) j) xs"

definition slice :: "'a list \<Rightarrow> int \<Rightarrow> int \<Rightarrow> 'a list" where
  "slice xs i j =
     take (slice_index (length xs) j - slice_index (length xs) i)
       (drop (slice_index (length xs) i) xs)"

section \<open>Administrative requests: framing of the response\<close>

text \<open>The byte strings \<open>b'\n.\n'\<close>, \<open>b'\r\n.\r\n'\<close>, \<open>b'.\n'\<close>, \<open>b'.\r\n'\<close>, \<open>b'\n'\<close>.\<close>

definition NL_DOT_NL :: bytes where "NL_DOT_NL = [10, 46, 10]"
definition CRNL_DOT_CRNL :: bytes where "CRNL_DOT_CRNL = [13, 10, 46, 13, 10]"
definition DOT_NL :: bytes where "DOT_NL = [46, 10]"
definition DOT_CRNL :: bytes where "DOT_CRNL = [46, 13, 10]"
definition NL :: bytes where "NL = [10]"

text \<open>
  \<open>AdminRequest.isComplete(data)\<close>, inherited by the status, show jobs,
  show unique jobs and workers requests.  The result is the returned pair
  \<open>(complete, remainder)\<close> and the request with its \<open>response\<close> attribute
  as the call leaves it.
\<close>

definition AdminRequest_isComplete ::
  "admin_request \<Rightarrow> bytes \<Rightarrow> (bool \<times> bytes) \<times> admin_request" where
  "AdminRequest_isComplete self d =
     (let end_index_newline = find_bytes d NL_DOT_NL;
          end_index_return = find_bytes d CRNL_DOT_CRNL;
          x = (if end_index_newline \<noteq> -1 then end_index_newline + 3
               else if end_index_return \<noteq> -1 then end_index_return + 5
               else if prefix DOT_NL d then 2
               else if prefix DOT_CRNL d then 3
               else -1)
      in if x \<noteq> -1
         then ((True, slice_from d x), self\<lparr>response := Some (slice_to d x)\<rparr>)
         else ((False, d), self))"

text \<open>
  \<open>CancelJobAdminRequest.isComplete\<close> and \<open>VersionAdminRequest.isComplete\<close>
  have the same body.
\<close>

definition CancelJobAdminRequest_isComplete ::
  "admin_request \<Rightarrow> bytes \<Rightarrow> (bool \<times> bytes) \<times> admin_request" where
  "CancelJobAdminRequest_isComplete self d =
     (let end_index_newline = find_bytes d NL
      in if end_index_newline \<noteq> -1
         then let x = end_index_newline + 1
              in ((True, slice_from d x), self\<lparr>response := Some (slice_to d x)\<rparr>)
         else ((False, d), self))"

definition VersionAdminRequest_isComplete ::
  "admin_request \<Rightarrow> bytes \<Rightarrow> (bool \<times> bytes) \<times> admin_request" where
  "VersionAdminRequest_isComplete self d =
     (let end_index_newline = find_bytes d NL
      in if end_index_newline \<noteq> -1
         then let x = end_index_newline + 1
              in ((True, slice_from d x), self\<lparr>response := Some (slice_to d x)\<rparr>)
         else ((False, d), self))"

text \<open>Method dispatch on the class of the request.\<close>

definition isComplete ::
  "admin_request \<Rightarrow> bytes \<Rightarrow> (bool \<times> bytes) \<times> admin_request" where
  "isComplete self d =
     (case cls self of
        CancelJobAdminRequest \<Rightarrow> CancelJobAdminRequest_isComplete self d
      | VersionAdminRequest \<Rightarrow> VersionAdminRequest_isComplete self d
      | _ \<Rightarrow> AdminRequest_isComplete self d)"

text \<open>
  A byte string \<open>s\<close> occurs in \<open>d\<close> first at offset \<open>i\<close>.
\<close>

definition first_at :: "bytes \<Rightarrow> bytes \<Rightarrow> nat \<Rightarrow> bool" where
  "first_at s d i \<longleftrightarrow>
     i + length s \<le> length d \<and> take (length s) (drop i d) = s \<and>
     list_all (\<lambda>j. take (length s) (drop j d) \<noteq> s) [0..<i]"

section \<open>Constructors\<close>

text \<open>\<open>Connection.__init__\<close> followed by \<open>_init\<close>; no socket is open yet.\<close>

definition Connection_init :: "bytes \<Rightarrow> int \<Rightarrow> connection" where
  "Connection_init h p =
     \<lparr> host = h, port = p, input_buffer = [], need_bytes = False,
       connected = False, related_jobs = Map.empty, pending_tasks = [],
       admin_requests = [], echo_conditions = Map.empty,
       connection.options = {}, state = ''INIT'',
       sock_in = [], sock_out = [], sock_fail = False \<rparr>"

definition Job_init :: "bytes \<Rightarrow> bytes \<Rightarrow> bytes option \<Rightarrow> job" where
  "Job_init n a u =
     \<lparr> base_job.name = n, base_job.arguments = a, unique = u, handle = None,
       connection = None, data = [], exception = None, warning = False,
       complete = False, failure = False, numerator = None,
       denominator = None, known = None, running = None \<rparr>"

definition WorkerJob_init ::
  "bytes \<Rightarrow> bytes \<Rightarrow> bytes \<Rightarrow> bytes option \<Rightarrow> base_job" where
  "WorkerJob_init h n a u =
     \<lparr> base_job.name = n, base_job.arguments = a, unique = u,
       handle = Some h, connection = None \<rparr>"

text \<open>
  \<open>BaseClientServer.__init__\<close>: the identifier is kept only when it is
  truthy; both connection lists start empty and the cursor at \<open>-1\<close>.
  The store starts with no object in use.
\<close>

definition BaseClientServer_init :: "bytes option \<Rightarrow> base_client" where
  "BaseClientServer_init cid =
     \<lparr> client_id = (if truthy cid then cid else None),
       running = True, active_connections = [], inactive_connections = [],
       connection_index = -1,
       conns = (\<lambda>_. Connection_init [] 0),
       jobs = (\<lambda>_. Job_init [] [] None),
       tasks = (\<lambda>_. \<lparr> task_class = OptionReqTask, task.wait_event = False \<rparr>),
       next_task = 0 \<rparr>"

text \<open>
  \<open>Worker.__init__(client_id=None, worker_id=None)\<close>:
  \<^verbatim>\<open>
    if not client_id or worker_id:
        raise Exception("A client_id must be provided")
    if worker_id:
        client_id = worker_id
    super(Worker, self).__init__(client_id)
    self.worker_id = client_id
    self.functions = {}
    self.waiting_for_jobs = 0
    self.job_queue = queue.Queue()
  \<close>
  Python parses the guard as \<open>(not client_id) or worker_id\<close>.
\<close>

definition Worker_init :: "bytes option \<Rightarrow> bytes option \<Rightarrow> error + worker" where
  "Worker_init cid wid =
     (if \<not> truthy cid \<or> truthy wid then Inl Exception
      else
        let cid' = (if truthy wid then wid else cid)
        in Inr (base_client.extend (BaseClientServer_init cid')
                  \<lparr> worker_id = cid', worker_functions = Map.empty,
                    waiting_for_jobs = 0, job_queue = [] \<rparr>))"

section \<open>The connection pool\<close>

text \<open>
  \<open>xs[i]\<close> on a Python list: a negative index counts from the end, and an
  index out of range raises \<open>IndexError\<close> (here \<open>None\<close>).
\<close>

definition getitem :: "'a list \<Rightarrow> int \<Rightarrow> 'a option" where
  "getitem xs i =
     (if 0 \<le> i \<and> i < int (length xs) then Some (xs ! nat i)
      else if i < 0 \<and> - int (length xs) \<le> i then Some (xs ! nat (int (length xs) + i))
      else None)"

text \<open>
  \<open>BaseClient.getConnection\<close>:
  \<^verbatim>\<open>
    if not self.active_connections:
        raise NoConnectedServersError("No connected Gearman servers")
    self.connection_index += 1
    if self.connection_index >= len(self.active_connections):
        self.connection_index = 0
    conn = self.active_connections[self.connection_index]
    return conn
  \<close>
\<close>

definition getConnection ::
  "'a base_client_scheme \<Rightarrow> (error + conn_id) \<times> 'a base_client_scheme" where
  "getConnection self =
     (if active_connections self = [] then (Inl NoConnectedServersError, self)
      else
        let self1 = self\<lparr>connection_index := connection_index self + 1\<rparr>;
            self2 = (if connection_index self1 \<ge> int (length (active_connections self1))
                     then self1\<lparr>connection_index := 0\<rparr> else self1)
        in case getitem (active_connections self2) (connection_index self2) of
             None \<Rightarrow> (Inl IndexError, self2)
           | Some conn \<Rightarrow> (Inr conn, self2))"

text \<open>\<open>k\<close> consecutive calls of \<open>getConnection\<close>, with their results in order.\<close>

fun getConnections ::
  "nat \<Rightarrow> 'a base_client_scheme \<Rightarrow> (error + conn_id) list \<times> 'a base_client_scheme" where
  "getConnections 0 self = ([], self)"
| "getConnections (Suc k) self =
     (case getConnection self of
        (r, self1) \<Rightarrow>
          (case getConnections k self1 of (rs, self2) \<Rightarrow> (r # rs, self2)))"

text \<open>
  The cursor after a call, in the words of the specification: one further,
  or \<open>0\<close> when that reaches or passes the length \<open>n\<close> of the active list.
\<close>

definition next_index :: "nat \<Rightarrow> int \<Rightarrow> int" where
  "next_index n p = (if p + 1 \<ge> int n then 0 else p + 1)"

text \<open>
  With cursor \<open>p\<close>, the number of calls that return another position
  before position \<open>i\<close> is returned.
\<close>

definition calls_until :: "nat \<Rightarrow> nat \<Rightarrow> int \<Rightarrow> int" where
  "calls_until n i p =
     (if p + 1 \<ge> int n then int i
      else if p < int i then int i - p - 1 else int i + int n - p - 1)"

section \<open>Packets and the wire codec\<close>

text \<open>
  \<open>Packet\<close>: magic code, type, payload, and the connection it was received
  on (\<open>None\<close> for a packet built to be sent).
\<close>

record packet =
  code :: bytes
  ptype :: int
  data :: bytes
  connection :: "conn_id option"

text \<open>
  \<open>Packet.__init__\<close>: the first byte of the code must be NUL.  The two
  \<open>isinstance\<close> checks hold by typing.
\<close>

definition Packet :: "bytes \<Rightarrow> int \<Rightarrow> bytes \<Rightarrow> conn_id option \<Rightarrow> error + packet" where
  "Packet c t d conn =
     (if slice c 0 1 \<noteq> [0] then Inl InvalidDataError
      else Inr \<lparr> code = c, ptype = t, packet.data = d, packet.connection = conn \<rparr>)"

text \<open>\<open>Packet.__eq__\<close> compares code, type and payload, not the connection.\<close>

definition packet_eq :: "packet \<Rightarrow> packet \<Rightarrow> bool" where
  "packet_eq p q \<longleftrightarrow>
     code p = code q \<and> ptype p = ptype q \<and> packet.data p = packet.data q"

text \<open>
  The formats of \<open>struct.pack('!4sii', ...)\<close>.  \<open>4s\<close> cuts the byte string
  to four bytes or pads it with NUL bytes; \<open>i\<close> is a big-endian two's
  complement 32-bit integer, and packing a number outside its range raises
  \<open>struct.error\<close>.
\<close>

definition pack_4s :: "bytes \<Rightarrow> bytes" where
  "pack_4s s = take 4 (s @ replicate 4 0)"

definition pack_i :: "int \<Rightarrow> error + bytes" where
  "pack_i x =
     (if - (2 ^ 31) \<le> x \<and> x < 2 ^ 31
      then let u = x mod 2 ^ 32
           in Inr [word_of_int (u div 2 ^ 24), word_of_int (u div 2 ^ 16),
                   word_of_int (u div 2 ^ 8), word_of_int u]
      else Inl StructError)"

text \<open>\<open>struct.unpack\<close> of one \<open>i\<close> field, given its four bytes.\<close>

definition unpack_i :: "bytes \<Rightarrow> int" where
  "unpack_i b =
     (let u = uint (b ! 0) * 2 ^ 24 + uint (b ! 1) * 2 ^ 16 + uint (b ! 2) * 2 ^ 8 + uint (b ! 3)
      in if u \<ge> 2 ^ 31 then u - 2 ^ 32 else u)"

text \<open>
  \<open>Packet.toBinary\<close>:
  \<^verbatim>\<open>
    b = struct.pack('!4sii', self.code, self.ptype, len(self.data))
    b = bytearray(b)
    b += self.data
    return b
  \<close>
\<close>

definition toBinary :: "packet \<Rightarrow> error + bytes" where
  "toBinary self =
     (case pack_i (ptype self) of
        Inl e \<Rightarrow> Inl e
      | Inr t \<Rightarrow>
          (case pack_i (int (length (packet.data self))) of
             Inl e \<Rightarrow> Inl e
           | Inr l \<Rightarrow> Inr (pack_4s (code self) @ t @ l @ packet.data self)))"

section \<open>Reading from a connection\<close>

text \<open>
  \<open>Connection._readRawBytes\<close>: one \<open>recv\<close> (the TLS retry loop only
  repeats the call).  A closed socket returns the empty byte string.
\<close>

definition readRawBytes :: "connection \<Rightarrow> (error + bytes) \<times> connection" where
  "readRawBytes self =
     (case sock_in self of
        [] \<Rightarrow> (Inr [], self)
      | Recv segment # rest \<Rightarrow> (Inr segment, self\<lparr>sock_in := rest\<rparr>)
      | RecvRaises e # rest \<Rightarrow> (Inl e, self\<lparr>sock_in := rest\<rparr>))"

text \<open>\<open>_getAdminRequest\<close> is \<open>self.admin_requests.pop(0)\<close>, \<open>_putAdminRequest\<close> is \<open>insert(0, req)\<close>.\<close>

definition getAdminRequest :: "connection \<Rightarrow> error + (admin_request \<times> connection)" where
  "getAdminRequest self =
     (case admin_requests self of
        [] \<Rightarrow> Inl IndexError
      | r # rs \<Rightarrow> Inr (r, self\<lparr>admin_requests := rs\<rparr>))"

definition putAdminRequest :: "connection \<Rightarrow> admin_request \<Rightarrow> connection" where
  "putAdminRequest self req = self\<lparr>admin_requests := req # admin_requests self\<rparr>"

text \<open>
  The local variables of \<open>Connection.readPacket\<close>; the local \<open>x\<close> is the
  field \<open>l_x\<close>.
\<close>

record locals =
  l_datalen :: int
  l_code :: "bytes option"
  l_ptype :: "int option"
  l_admin :: "bool option"
  l_admin_request :: "admin_request option"
  l_need_bytes :: bool
  l_raw_bytes :: bytes

text \<open>How \<open>readPacket\<close> ends: with one of its three return values, or by raising.\<close>

datatype read_result =
    ReturnNone | ReturnPacket packet | ReturnAdmin admin_request | Raise error

text \<open>
  The body of the \<open>while True\<close> loop of \<open>readPacket\<close>, in its three parts.
  Each gives \<open>Inl\<close> when the method leaves the loop (by \<open>return\<close> or by
  an exception) and \<open>Inr\<close> when it goes on.

  First part:
  \<^verbatim>\<open>
    try:
        if not raw_bytes or need_bytes:
            segment = self._readRawBytes(4096)
            if not segment:
                return None
            raw_bytes += segment
            need_bytes = False
    except RetryIOError:
        if admin_request:
            self._putAdminRequest(admin_request)
        raise
  \<close>
\<close>

definition read_more ::
  "locals \<Rightarrow> connection \<Rightarrow> (read_result \<times> locals \<times> connection) + (locals \<times> connection)" where
  "read_more L self =
     (if l_raw_bytes L = [] \<or> l_need_bytes L
      then (case readRawBytes self of
              (Inl e, self1) \<Rightarrow>
                Inl (Raise e, L,
                     if e = RetryIOError
                     then (case l_admin_request L of
                             Some req \<Rightarrow> putAdminRequest self1 req
                           | None \<Rightarrow> self1)
                     else self1)
            | (Inr segment, self1) \<Rightarrow>
                if segment = [] then Inl (ReturnNone, L, self1)
                else Inr (L\<lparr>l_raw_bytes := l_raw_bytes L @ segment,
                            l_need_bytes := False\<rparr>, self1))
      else Inr (L, self))"

text \<open>
  Second part:
  \<^verbatim>\<open>
    if admin is None:
        if raw_bytes[0:1] == b'\x00':
            admin = False
        else:
            admin = True
            admin_request = self._getAdminRequest()
  \<close>
\<close>

definition choose_framing ::
  "locals \<Rightarrow> connection \<Rightarrow> (read_result \<times> locals \<times> connection) + (locals \<times> connection)" where
  "choose_framing L self =
     (if l_admin L = None
      then if slice (l_raw_bytes L) 0 1 = [0]
           then Inr (L\<lparr>l_admin := Some False\<rparr>, self)
           else (case getAdminRequest self of
                   Inl e \<Rightarrow> Inl (Raise e, L\<lparr>l_admin := Some True\<rparr>, self)
                 | Inr (req, self1) \<Rightarrow>
                     Inr (L\<lparr>l_admin := Some True, l_admin_request := Some req\<rparr>, self1))
      else Inr (L, self))"

text \<open>
  Third part:
  \<^verbatim>\<open>
    if admin:
        complete, remainder = admin_request.isComplete(raw_bytes)
        raw_bytes = remainder
        if complete:
            return admin_request
    else:
        length = len(raw_bytes)
        if code is None and length >= 12:
            code, ptype, datalen = struct.unpack('!4sii', raw_bytes[:12])
        if length >= datalen + 12:
            end = 12 + datalen
            p = Packet(code, ptype, raw_bytes[12:end], connection=self)
            raw_bytes = raw_bytes[end:]
            return p
    # If we don't return a packet above then we need more data
    need_bytes = True
  \<close>
  \<open>admin\<close> is true only after \<open>admin_request\<close> was set, and the packet is
  built only after the header was unpacked; the two \<open>None\<close> cases raise as
  Python would.
\<close>

definition frame ::
  "conn_id \<Rightarrow> locals \<Rightarrow> connection \<Rightarrow>
     (read_result \<times> locals \<times> connection) + (locals \<times> connection)" where
  "frame self_id L self =
     (if l_admin L = Some True
      then (case l_admin_request L of
              None \<Rightarrow> Inl (Raise AttributeError, L, self)
            | Some req \<Rightarrow>
                (case isComplete req (l_raw_bytes L) of
                   ((completed, remainder), req1) \<Rightarrow>
                     let L1 = L\<lparr>l_raw_bytes := remainder, l_admin_request := Some req1\<rparr>
                     in if completed then Inl (ReturnAdmin req1, L1, self)
                        else Inr (L1\<lparr>l_need_bytes := True\<rparr>, self)))
      else
        let len = int (length (l_raw_bytes L));
            L1 = (if l_code L = None \<and> len \<ge> 12
                  then L\<lparr>l_code := Some (slice (l_raw_bytes L) 0 4),
                         l_ptype := Some (unpack_i (slice (l_raw_bytes L) 4 8)),
                         l_datalen := unpack_i (slice (l_raw_bytes L) 8 12)\<rparr>
                  else L)
        in if len \<ge> l_datalen L1 + 12
           then let end_index = 12 + l_datalen L1
                in (case (l_code L1, l_ptype L1) of
                      (Some c, Some t) \<Rightarrow>
                        (case Packet c t (slice (l_raw_bytes L1) 12 end_index) (Some self_id) of
                           Inl e \<Rightarrow> Inl (Raise e, L1, self)
                         | Inr p \<Rightarrow>
                             Inl (ReturnPacket p,
                                  L1\<lparr>l_raw_bytes := slice_from (l_raw_bytes L1) end_index\<rparr>, self))
                    | _ \<Rightarrow> Inl (Raise AttributeError, L1, self))
           else Inr (L1\<lparr>l_need_bytes := True\<rparr>, self))"

definition read_iteration ::
  "conn_id \<Rightarrow> locals \<Rightarrow> connection \<Rightarrow>
     (read_result \<times> locals \<times> connection) + (locals \<times> connection)" where
  "read_iteration self_id L self =
     (case read_more L self of
        Inl out \<Rightarrow> Inl out
      | Inr (L1, self1) \<Rightarrow>
          (case choose_framing L1 self1 of
             Inl out \<Rightarrow> Inl out
           | Inr (L2, self2) \<Rightarrow> frame self_id L2 self2))"

text \<open>
  An iteration that goes on has either consumed a socket event or found
  buffered bytes without \<open>need_bytes\<close>; it always sets \<open>need_bytes\<close>.
\<close>

definition read_measure :: "locals \<times> connection \<Rightarrow> nat" where
  "read_measure = (\<lambda>(L, self).
     2 * length (sock_in self) + (if l_raw_bytes L = [] \<or> l_need_bytes L then 0 else 1))"

lemma read_iteration_decreases:
  assumes "read_iteration self_id L self = Inr (L', self')"
  shows "read_measure (L', self') < read_measure (L, self)"
proof -
  obtain L1 self1 where a: "read_more L self = Inr (L1, self1)"
    using assms by (auto simp: read_iteration_def split: sum.splits)
  obtain L2 self2 where b: "choose_framing L1 self1 = Inr (L2, self2)"
    using assms a by (auto simp: read_iteration_def split: sum.splits)
  have c: "frame self_id L2 self2 = Inr (L', self')"
    using assms a b by (simp add: read_iteration_def)
  have a': "(l_raw_bytes L = [] \<or> l_need_bytes L) \<and> length (sock_in self1) < length (sock_in self)
            \<or> \<not> (l_raw_bytes L = [] \<or> l_need_bytes L) \<and> sock_in self1 = sock_in self"
    using a
    by (auto simp: read_more_def readRawBytes_def
             split: if_splits list.splits recv_event.splits prod.splits sum.splits)
  have b': "sock_in self2 = sock_in self1"
    using b by (auto simp: choose_framing_def getAdminRequest_def
                     split: if_splits list.splits sum.splits)
  have c': "sock_in self' = sock_in self2 \<and> l_need_bytes L'"
    using c by (auto simp: frame_def Let_def
                     split: if_splits option.splits prod.splits sum.splits)
  show ?thesis using a' b' c' by (auto simp: read_measure_def)
qed

text \<open>
  The loop, with the \<open>finally\<close> clause applied on the way out:
  \<^verbatim>\<open>
    finally:
        self.input_buffer = raw_bytes
        self.need_bytes = need_bytes
  \<close>
\<close>

function readPacket_loop ::
  "conn_id \<Rightarrow> locals \<Rightarrow> connection \<Rightarrow> read_result \<times> connection" where
  "readPacket_loop self_id L self =
     (case read_iteration self_id L self of
        Inl (r, L1, self1) \<Rightarrow>
          (r, self1\<lparr>input_buffer := l_raw_bytes L1, need_bytes := l_need_bytes L1\<rparr>)
      | Inr (L1, self1) \<Rightarrow> readPacket_loop self_id L1 self1)"
  by pat_completeness auto
termination
  by (relation "measure (\<lambda>(self_id, L, self). read_measure (L, self))")
     (auto dest: read_iteration_decreases)

declare readPacket_loop.simps [simp del]

text \<open>\<open>Connection.readPacket\<close>; \<open>self_id\<close> identifies the connection object.\<close>

definition readPacket :: "conn_id \<Rightarrow> connection \<Rightarrow> read_result \<times> connection" where
  "readPacket self_id self =
     readPacket_loop self_id
       \<lparr> l_datalen = 0, l_code = None, l_ptype = None, l_admin = None,
         l_admin_request = None, l_need_bytes = need_bytes self,
         l_raw_bytes = input_buffer self \<rparr> self"


text \<open>
  Between two iterations of the loop of \<open>readPacket\<close> that frame the
  packet \<open>p\<close>: the header is either still unread or unpacked from the
  encoding of \<open>p\<close>.
\<close>

definition header_state :: "packet \<Rightarrow> locals \<Rightarrow> bool" where
  "header_state p L \<longleftrightarrow>
     l_code L = None \<and> l_datalen L = 0 \<or>
     l_code L = Some (code p) \<and> l_ptype L = Some (ptype p) \<and>
     l_datalen L = int (length (packet.data p))"

definition loop_state :: "packet \<Rightarrow> bytes \<Rightarrow> locals \<Rightarrow> bool" where
  "loop_state p b L \<longleftrightarrow>
     l_admin L = None \<and> l_code L = None \<and> l_datalen L = 0 \<and> \<not> l_need_bytes L \<or>
     l_admin L = Some False \<and> l_need_bytes L \<and> header_state p L \<and>
     length (l_raw_bytes L) < length b"

section \<open>Constants of the protocol\<close>

text \<open>
  Modelled from the spec: the module \<open>gear.constants\<close> is not among the
  sources.  The specification gives the two magic codes, \<open>\x00REQ\<close> for
  requests and \<open>\x00RES\<close> for responses.
\<close>

definition REQ :: bytes where "REQ = [0, 82, 69, 81]"
definition RES :: bytes where "RES = [0, 82, 69, 83]"

text \<open>
  The numeric codes of the packet types are not given anywhere; the functions
  that build packets take them as a parameter.
\<close>

record constants =
  PRE_SLEEP :: int
  GRAB_JOB_UNIQ :: int
  SUBMIT_JOB :: int
  SUBMIT_JOB_BG :: int
  SUBMIT_JOB_HIGH :: int
  SUBMIT_JOB_HIGH_BG :: int
  SUBMIT_JOB_LOW :: int
  SUBMIT_JOB_LOW_BG :: int
  ECHO_REQ :: int
  OPTION_REQ :: int

definition PRECEDENCE_NORMAL :: int where "PRECEDENCE_NORMAL = 0"
definition PRECEDENCE_LOW :: int where "PRECEDENCE_LOW = 1"
definition PRECEDENCE_HIGH :: int where "PRECEDENCE_HIGH = 2"

section \<open>Arguments of a packet\<close>

text \<open>\<open>data.split(sep)\<close> for a one-byte separator, and \<open>sep.join(parts)\<close>.\<close>

fun split :: "byte \<Rightarrow> bytes \<Rightarrow> bytes list" where
  "split sep [] = [[]]"
| "split sep (x # xs) =
     (if x = sep then [] # split sep xs
      else (case split sep xs of [] \<Rightarrow> [[x]] | part # parts \<Rightarrow> (x # part) # parts))"

fun join :: "bytes \<Rightarrow> bytes list \<Rightarrow> bytes" where
  "join sep [] = []"
| "join sep [part] = part"
| "join sep (part # parts) = part @ sep @ join sep parts"

text \<open>
  \<open>Packet.getArgument(index, last=False)\<close>:
  \<^verbatim>\<open>
    parts = self.data.split(b'\x00')
    if not last:
        return parts[index]
    return b'\x00'.join(parts[index:])
  \<close>
\<close>

definition getArgument :: "packet \<Rightarrow> int \<Rightarrow> bool \<Rightarrow> error + bytes" where
  "getArgument self index is_last =
     (let parts = split 0 (packet.data self)
      in if \<not> is_last
         then (case getitem parts index of None \<Rightarrow> Inl IndexError | Some a \<Rightarrow> Inr a)
         else Inr (join [0] (slice_from parts index)))"

section \<open>Sending on a connection\<close>

text \<open>
  \<open>Connection.sendRaw\<close>: \<open>self.conn.send(data)\<close> (the TLS retry loop only
  repeats the call).  Without a socket, \<open>self.conn\<close> is \<open>None\<close> and the
  attribute access raises.
\<close>

definition sendRaw :: "connection \<Rightarrow> bytes \<Rightarrow> (error + unit) \<times> connection" where
  "sendRaw self d =
     (if \<not> connected self then (Inl AttributeError, self)
      else if sock_fail self then (Inl SocketError, self)
      else (Inr (), self\<lparr>sock_out := sock_out self @ [d]\<rparr>))"

text \<open>\<open>Connection.sendPacket\<close> is \<open>self.sendRaw(packet.toBinary())\<close>.\<close>

definition Connection_sendPacket :: "connection \<Rightarrow> packet \<Rightarrow> (error + unit) \<times> connection" where
  "Connection_sendPacket self p =
     (case toBinary p of
        Inl e \<Rightarrow> (Inl e, self)
      | Inr b \<Rightarrow> sendRaw self b)"

subsection \<open>Echo\<close>

text \<open>\<open>Connection.sendEchoReq\<close>.\<close>

definition sendEchoReq :: "constants \<Rightarrow> connection \<Rightarrow> bytes \<Rightarrow> (error + unit) \<times> connection" where
  "sendEchoReq K self d =
     (case Packet REQ (ECHO_REQ K) d None of
        Inl e \<Rightarrow> (Inl e, self)
      | Inr p \<Rightarrow> Connection_sendPacket self p)"

text \<open>
  \<open>Connection.handleEchoRes\<close>:
  \<^verbatim>\<open>
    condition = self.echo_conditions.get(data)
    if condition:
        del self.echo_conditions[data]
    if not condition:
        return False
    condition.notifyAll()
    return True
  \<close>
  The method never acquires the condition it notifies, and
  \<open>threading.Condition.notifyAll\<close> raises \<open>RuntimeError\<close> when the calling
  thread does not hold the condition's lock: no waiter is woken, and the
  \<open>return True\<close> is not reached.
\<close>

definition handleEchoRes :: "connection \<Rightarrow> bytes \<Rightarrow> (error + bool) \<times> connection" where
  "handleEchoRes self d =
     (case echo_conditions self d of
        None \<Rightarrow> (Inr False, self)
      | Some condition \<Rightarrow>
          (Inl RuntimeError, self\<lparr>echo_conditions := (echo_conditions self)(d := None)\<rparr>))"

text \<open>
  What the poll thread does to the connection while \<open>echo\<close> waits: it
  handles the ECHO_RES packets that arrive, given by their payloads.  An
  exception in a handler is logged by the poll loop.
\<close>

fun poll_echo :: "connection \<Rightarrow> bytes list \<Rightarrow> connection" where
  "poll_echo self [] = self"
| "poll_echo self (d # ds) = poll_echo (snd (handleEchoRes self d)) ds"

text \<open>
  \<open>Connection.echo(data=None, timeout=30)\<close>:
  \<^verbatim>\<open>
    if data is None:
        data = uuid_module.uuid4().hex.encode('utf8')
    if data in self.echo_conditions:
        raise InvalidDataError(...)
    condition = threading.Condition()
    self.echo_conditions[data] = condition
    self.sendEchoReq(data)
    condition.acquire()
    condition.wait(timeout)
    condition.release()
    if data in self.echo_conditions:
        return data
    raise TimeoutError()
  \<close>
  \<open>uuid4\<close> is the random payload used when \<open>data\<close> is \<open>None\<close>;
  \<open>replies\<close> are the payloads of the ECHO_RES packets that the poll thread
  handles before \<open>condition.wait\<close> returns (none: the timeout elapses with
  no reply).
\<close>

definition echo ::
  "constants \<Rightarrow> connection \<Rightarrow> bytes option \<Rightarrow> bytes \<Rightarrow> bytes list \<Rightarrow>
     (error + bytes) \<times> connection" where
  "echo K self data0 uuid4 replies =
     (let d = (case data0 of None \<Rightarrow> uuid4 | Some x \<Rightarrow> x)
      in if d \<in> dom (echo_conditions self) then (Inl InvalidDataError, self)
         else
           let self1 = self\<lparr>echo_conditions := (echo_conditions self)(d \<mapsto> Condition)\<rparr>
           in case sendEchoReq K self1 d of
                (Inl e, self2) \<Rightarrow> (Inl e, self2)
              | (Inr _, self2) \<Rightarrow>
                  let self3 = poll_echo self2 replies
                  in if d \<in> dom (echo_conditions self3) then (Inr d, self3)
                     else (Inl TimeoutError, self3))"

subsection \<open>Administrative requests\<close>

definition command :: "admin_class \<Rightarrow> bytes" where
  "command c =
     (case c of
        StatusAdminRequest \<Rightarrow> [115, 116, 97, 116, 117, 115]
      | ShowJobsAdminRequest \<Rightarrow> [115, 104, 111, 119, 32, 106, 111, 98, 115]
      | ShowUniqueJobsAdminRequest \<Rightarrow>
          [115, 104, 111, 119, 32, 117, 110, 105, 113, 117, 101, 32, 106, 111, 98, 115]
      | CancelJobAdminRequest \<Rightarrow> [99, 97, 110, 99, 101, 108, 32, 106, 111, 98]
      | VersionAdminRequest \<Rightarrow> [118, 101, 114, 115, 105, 111, 110]
      | WorkersAdminRequest \<Rightarrow> [119, 111, 114, 107, 101, 114, 115])"

text \<open>\<open>AdminRequest.getCommand\<close>.\<close>

definition getCommand :: "admin_request \<Rightarrow> bytes" where
  "getCommand self =
     (let cmd = command (cls self);
          cmd1 = (if admin_request.arguments self \<noteq> []
                  then cmd @ [32] @ join [32] (admin_request.arguments self) else cmd)
      in cmd1 @ [10])"

text \<open>
  \<open>Connection.sendAdminRequest(request, timeout=90)\<close>:
  \<^verbatim>\<open>
    self.admin_requests.append(request)
    self.sendRaw(request.getCommand())
    complete = request.waitForResponse(timeout)
    if not complete:
        raise TimeoutError()
  \<close>
  \<open>completed\<close> is what \<open>waitForResponse\<close> returns: whether the poll thread
  signalled the request before the timeout.
\<close>

definition sendAdminRequest ::
  "connection \<Rightarrow> admin_request \<Rightarrow> bool \<Rightarrow> (error + unit) \<times> connection" where
  "sendAdminRequest self request completed =
     (let self1 = self\<lparr>admin_requests := admin_requests self @ [request]\<rparr>
      in case sendRaw self1 (getCommand request) of
           (Inl e, self2) \<Rightarrow> (Inl e, self2)
         | (Inr _, self2) \<Rightarrow>
             if \<not> completed then (Inl TimeoutError, self2) else (Inr (), self2))"

section \<open>The pool: losing a connection, sending through the client\<close>

text \<open>A method of \<open>Connection\<close> called on a connection object of the pool.\<close>

definition on_connection ::
  "conn_id \<Rightarrow> (connection \<Rightarrow> 'r \<times> connection) \<Rightarrow> 'a base_client_scheme \<Rightarrow>
     'r \<times> 'a base_client_scheme" where
  "on_connection conn method self =
     (case method (conns self conn) of
        (r, c) \<Rightarrow> (r, self\<lparr>conns := (conns self)(conn := c)\<rparr>))"

text \<open>
  \<open>BaseClientServer._lostConnection\<close>:
  \<^verbatim>\<open>
    jobs = conn.related_jobs.values()
    if conn in self.active_connections:
        self.active_connections.remove(conn)
    if conn not in self.inactive_connections:
        self.inactive_connections.append(conn)
    for job in jobs:
        self.handleDisconnect(job)
  \<close>
  \<open>Client.handleDisconnect\<close> returns the job untouched, and no handler of a
  \<open>Worker\<close> ever puts a job into \<open>related_jobs\<close>, so the final loop
  changes nothing.
\<close>

definition lostConnection :: "'a base_client_scheme \<Rightarrow> conn_id \<Rightarrow> 'a base_client_scheme" where
  "lostConnection self conn =
     (let self1 = (if conn \<in> set (active_connections self)
                   then self\<lparr>active_connections := remove1 conn (active_connections self)\<rparr>
                   else self)
      in if conn \<notin> set (inactive_connections self1)
         then self1\<lparr>inactive_connections := inactive_connections self1 @ [conn]\<rparr>
         else self1)"

text \<open>
  \<open>BaseClient.sendPacket(packet, connection)\<close>:
  \<^verbatim>\<open>
    try:
        connection.sendPacket(packet)
        return
    except Exception:
        self._lostConnection(connection)
        raise
  \<close>
\<close>

definition sendPacket ::
  "'a base_client_scheme \<Rightarrow> packet \<Rightarrow> conn_id \<Rightarrow> (error + unit) \<times> 'a base_client_scheme" where
  "sendPacket self p conn =
     (case on_connection conn (\<lambda>c. Connection_sendPacket c p) self of
        (Inl e, self1) \<Rightarrow> (Inl e, lostConnection self1 conn)
      | (Inr u, self1) \<Rightarrow> (Inr u, self1))"

text \<open>
  \<open>BaseClient.broadcast\<close>: over a snapshot of the active list, with every
  exception of \<open>sendPacket\<close> swallowed.
\<close>

fun broadcast_loop ::
  "'a base_client_scheme \<Rightarrow> packet \<Rightarrow> conn_id list \<Rightarrow> 'a base_client_scheme" where
  "broadcast_loop self p [] = self"
| "broadcast_loop self p (conn # connections) =
     broadcast_loop (snd (sendPacket self p conn)) p connections"

definition broadcast :: "'a base_client_scheme \<Rightarrow> packet \<Rightarrow> 'a base_client_scheme" where
  "broadcast self p = broadcast_loop self p (active_connections self)"

text \<open>
  The type codes of the Gearman protocol, for the concrete examples below.
\<close>

definition gearman_constants :: constants where
  "gearman_constants =
     \<lparr> PRE_SLEEP = 4, GRAB_JOB_UNIQ = 30, SUBMIT_JOB = 7, SUBMIT_JOB_BG = 18,
       SUBMIT_JOB_HIGH = 21, SUBMIT_JOB_HIGH_BG = 32, SUBMIT_JOB_LOW = 33,
       SUBMIT_JOB_LOW_BG = 34, ECHO_REQ = 16, OPTION_REQ = 26 \<rparr>"

section \<open>The client: handlers of the responses\<close>

text \<open>
  \<open>Packet.getJob\<close>:
  \<^verbatim>\<open>
    handle = self.getArgument(0)
    job = self.connection.related_jobs.get(handle)
    if not job:
        raise UnknownJobError()
    return job
  \<close>
  A packet without a connection has \<open>self.connection = None\<close>, whose
  attribute access raises.
\<close>

definition getJob :: "'a base_client_scheme \<Rightarrow> packet \<Rightarrow> error + job_id" where
  "getJob self p =
     (case getArgument p 0 False of
        Inl e \<Rightarrow> Inl e
      | Inr h \<Rightarrow>
          (case packet.connection p of
             None \<Rightarrow> Inl AttributeError
           | Some conn \<Rightarrow>
               (case related_jobs (conns self conn) h of
                  None \<Rightarrow> Inl UnknownJobError
                | Some j \<Rightarrow> Inr j)))"

text \<open>An assignment to attributes of the job object \<open>j\<close>.\<close>

definition update_job ::
  "'a base_client_scheme \<Rightarrow> job_id \<Rightarrow> (job \<Rightarrow> job) \<Rightarrow> 'a base_client_scheme" where
  "update_job self j f = self\<lparr>jobs := (jobs self)(j := f (jobs self j))\<rparr>"

text \<open>
  \<open>del packet.connection.related_jobs[job.handle]\<close>, followed by
  \<open>return job\<close>.  Deleting a key that is not in the dictionary (and
  \<open>None\<close> never is) raises \<open>KeyError\<close>.
\<close>

definition del_related_job ::
  "'a base_client_scheme \<Rightarrow> packet \<Rightarrow> job_id \<Rightarrow> (error + job_id) \<times> 'a base_client_scheme" where
  "del_related_job self p j =
     (case packet.connection p of
        None \<Rightarrow> (Inl AttributeError, self)
      | Some conn \<Rightarrow>
          (case handle (jobs self j) of
             None \<Rightarrow> (Inl KeyError, self)
           | Some h \<Rightarrow>
               if h \<in> dom (related_jobs (conns self conn))
               then (Inr j,
                     self\<lparr>conns := (conns self)(conn := (conns self conn)
                        \<lparr>related_jobs := (related_jobs (conns self conn))(h := None)\<rparr>)\<rparr>)
               else (Inl KeyError, self)))"

text \<open>
  \<open>Client.handleWorkComplete\<close>:
  \<^verbatim>\<open>
    job = packet.getJob()
    data = packet.getArgument(1, True)
    if data:
        job.data.append(data)
    job.complete = True
    job.failure = False
    del packet.connection.related_jobs[job.handle]
    return job
  \<close>
\<close>

definition handleWorkComplete ::
  "'a base_client_scheme \<Rightarrow> packet \<Rightarrow> (error + job_id) \<times> 'a base_client_scheme" where
  "handleWorkComplete self p =
     (case getJob self p of
        Inl e \<Rightarrow> (Inl e, self)
      | Inr j \<Rightarrow>
          (case getArgument p 1 True of
             Inl e \<Rightarrow> (Inl e, self)
           | Inr d \<Rightarrow>
               let self1 = (if d \<noteq> []
                            then update_job self j (\<lambda>job. job\<lparr>job.data := job.data job @ [d]\<rparr>)
                            else self);
                   self2 = update_job self1 j (\<lambda>job. job\<lparr>complete := True\<rparr>);
                   self3 = update_job self2 j (\<lambda>job. job\<lparr>failure := False\<rparr>)
               in del_related_job self3 p j))"

text \<open>
  \<open>Client.handleWorkFail\<close>:
  \<^verbatim>\<open>
    job = packet.getJob()
    job.complete = True
    job.failure = True
    del packet.connection.related_jobs[job.handle]
    return job
  \<close>
\<close>

definition handleWorkFail ::
  "'a base_client_scheme \<Rightarrow> packet \<Rightarrow> (error + job_id) \<times> 'a base_client_scheme" where
  "handleWorkFail self p =
     (case getJob self p of
        Inl e \<Rightarrow> (Inl e, self)
      | Inr j \<Rightarrow>
          let self1 = update_job self j (\<lambda>job. job\<lparr>complete := True\<rparr>);
              self2 = update_job self1 j (\<lambda>job. job\<lparr>failure := True\<rparr>)
          in del_related_job self2 p j)"

text \<open>
  \<open>Client.handleWorkException\<close>:
  \<^verbatim>\<open>
    job = packet.getJob()
    job.exception = packet.getArgument(1, True)
    job.complete = True
    job.failure = True
    del packet.connection.related_jobs[job.handle]
    return job
  \<close>
\<close>

definition handleWorkException ::
  "'a base_client_scheme \<Rightarrow> packet \<Rightarrow> (error + job_id) \<times> 'a base_client_scheme" where
  "handleWorkException self p =
     (case getJob self p of
        Inl e \<Rightarrow> (Inl e, self)
      | Inr j \<Rightarrow>
          (case getArgument p 1 True of
             Inl e \<Rightarrow> (Inl e, self)
           | Inr d \<Rightarrow>
               let self1 = update_job self j (\<lambda>job. job\<lparr>exception := Some d\<rparr>);
                   self2 = update_job self1 j (\<lambda>job. job\<lparr>complete := True\<rparr>);
                   self3 = update_job self2 j (\<lambda>job. job\<lparr>failure := True\<rparr>)
               in del_related_job self3 p j))"

text \<open>
  \<open>Client.handleWorkData\<close>:
  \<^verbatim>\<open>
    job = packet.getJob()
    data = packet.getArgument(1, True)
    if data:
        job.data.append(data)
    return job
  \<close>
\<close>

definition handleWorkData ::
  "'a base_client_scheme \<Rightarrow> packet \<Rightarrow> (error + job_id) \<times> 'a base_client_scheme" where
  "handleWorkData self p =
     (case getJob self p of
        Inl e \<Rightarrow> (Inl e, self)
      | Inr j \<Rightarrow>
          (case getArgument p 1 True of
             Inl e \<Rightarrow> (Inl e, self)
           | Inr d \<Rightarrow>
               let self1 = (if d \<noteq> []
                            then update_job self j (\<lambda>job. job\<lparr>job.data := job.data job @ [d]\<rparr>)
                            else self)
               in (Inr j, self1)))"

text \<open>
  \<open>Client.handleWorkWarning\<close>:
  \<^verbatim>\<open>
    job = packet.getJob()
    data = packet.getArgument(1, True)
    if data:
        job.data.append(data)
    job.warning = True
    return job
  \<close>
\<close>

definition handleWorkWarning ::
  "'a base_client_scheme \<Rightarrow> packet \<Rightarrow> (error + job_id) \<times> 'a base_client_scheme" where
  "handleWorkWarning self p =
     (case getJob self p of
        Inl e \<Rightarrow> (Inl e, self)
      | Inr j \<Rightarrow>
          (case getArgument p 1 True of
             Inl e \<Rightarrow> (Inl e, self)
           | Inr d \<Rightarrow>
               let self1 = (if d \<noteq> []
                            then update_job self j (\<lambda>job. job\<lparr>job.data := job.data job @ [d]\<rparr>)
                            else self);
                   self2 = update_job self1 j (\<lambda>job. job\<lparr>warning := True\<rparr>)
               in (Inr j, self2)))"

text \<open>
  \<open>packet.connection.pending_tasks.pop(0)\<close>: the head of the list, removed
  from it; \<open>IndexError\<close> on the empty list.
\<close>

definition pop_pending_task ::
  "'a base_client_scheme \<Rightarrow> packet \<Rightarrow> error + (conn_id \<times> task_id \<times> 'a base_client_scheme)" where
  "pop_pending_task self p =
     (case packet.connection p of
        None \<Rightarrow> Inl AttributeError
      | Some conn \<Rightarrow>
          (case pending_tasks (conns self conn) of
             [] \<Rightarrow> Inl IndexError
           | t # ts \<Rightarrow>
               Inr (conn, t,
                    self\<lparr>conns := (conns self)(conn := (conns self conn)
                       \<lparr>pending_tasks := ts\<rparr>)\<rparr>)))"

text \<open>\<open>Task.setComplete\<close> on the task object \<open>t\<close>.\<close>

definition setComplete :: "'a base_client_scheme \<Rightarrow> task_id \<Rightarrow> 'a base_client_scheme" where
  "setComplete self t =
     self\<lparr>tasks := (tasks self)(t := (tasks self t)\<lparr>task.wait_event := True\<rparr>)\<rparr>"

text \<open>
  \<open>Client.handleJobCreated\<close>:
  \<^verbatim>\<open>
    task = packet.connection.pending_tasks.pop(0)
    if not isinstance(task, SubmitJobTask):
        self._lostConnection(packet.connection)
        raise GearmanError(msg)
    job = task.job
    job.handle = packet.data
    packet.connection.related_jobs[job.handle] = job
    task.setComplete()
    return job
  \<close>
\<close>

definition handleJobCreated ::
  "'a base_client_scheme \<Rightarrow> packet \<Rightarrow> (error + job_id) \<times> 'a base_client_scheme" where
  "handleJobCreated self p =
     (case pop_pending_task self p of
        Inl e \<Rightarrow> (Inl e, self)
      | Inr (conn, t, self1) \<Rightarrow>
          (case task_class (tasks self1 t) of
             OptionReqTask \<Rightarrow> (Inl GearmanError, lostConnection self1 conn)
           | SubmitJobTask j \<Rightarrow>
               let self2 = update_job self1 j (\<lambda>job. job\<lparr>handle := Some (packet.data p)\<rparr>);
                   self3 = self2\<lparr>conns := (conns self2)(conn := (conns self2 conn)
                             \<lparr>related_jobs :=
                                (related_jobs (conns self2 conn))(packet.data p \<mapsto> j)\<rparr>)\<rparr>
               in (Inr j, setComplete self3 t)))"

text \<open>
  \<open>Client.handleOptionRes\<close>, with \<open>Connection.handleOptionRes\<close>
  (\<open>self.options.add(option)\<close>) inlined:
  \<^verbatim>\<open>
    task = packet.connection.pending_tasks.pop(0)
    if not isinstance(task, OptionReqTask):
        self._lostConnection(packet.connection)
        raise GearmanError(msg)
    packet.connection.handleOptionRes(packet.getArgument(0))
    task.setComplete()
  \<close>
\<close>

definition handleOptionRes ::
  "'a base_client_scheme \<Rightarrow> packet \<Rightarrow> (error + unit) \<times> 'a base_client_scheme" where
  "handleOptionRes self p =
     (case pop_pending_task self p of
        Inl e \<Rightarrow> (Inl e, self)
      | Inr (conn, t, self1) \<Rightarrow>
          (case task_class (tasks self1 t) of
             SubmitJobTask j \<Rightarrow> (Inl GearmanError, lostConnection self1 conn)
           | OptionReqTask \<Rightarrow>
               (case getArgument p 0 False of
                  Inl e \<Rightarrow> (Inl e, self1)
                | Inr option \<Rightarrow>
                    let self2 = self1\<lparr>conns := (conns self1)(conn := (conns self1 conn)
                                  \<lparr>connection.options :=
                                     insert option (connection.options (conns self1 conn))\<rparr>)\<rparr>
                    in (Inr (), setComplete self2 t))))"

text \<open>
  \<open>BaseClient.handleError\<close>:
  \<^verbatim>\<open>
    self.log.error("Received ERROR packet: %s: %s" %
                   (packet.getArgument(0), packet.getArgument(1)))
    try:
        task = packet.connection.pending_tasks.pop(0)
        task.setComplete()
    except Exception:
        self._lostConnection(packet.connection)
  \<close>
  The two arguments are evaluated for the log line, outside the \<open>try\<close>.
\<close>

definition handleError ::
  "'a base_client_scheme \<Rightarrow> packet \<Rightarrow> (error + unit) \<times> 'a base_client_scheme" where
  "handleError self p =
     (case getArgument p 0 False of
        Inl e \<Rightarrow> (Inl e, self)
      | Inr a0 \<Rightarrow>
          (case getArgument p 1 False of
             Inl e \<Rightarrow> (Inl e, self)
           | Inr a1 \<Rightarrow>
               (case packet.connection p of
                  None \<Rightarrow> (Inl AttributeError, self)
                | Some conn \<Rightarrow>
                    (case pop_pending_task self p of
                       Inl e \<Rightarrow> (Inr (), lostConnection self conn)
                     | Inr (conn1, t, self1) \<Rightarrow> (Inr (), setComplete self1 t)))))"

text \<open>
  \<open>BaseClient.handleEchoRes\<close> is
  \<open>packet.connection.handleEchoRes(packet.getArgument(0, True))\<close>.
\<close>

definition Client_handleEchoRes ::
  "'a base_client_scheme \<Rightarrow> packet \<Rightarrow> (error + bool) \<times> 'a base_client_scheme" where
  "Client_handleEchoRes self p =
     (case getArgument p 0 True of
        Inl e \<Rightarrow> (Inl e, self)
      | Inr d \<Rightarrow>
          (case packet.connection p of
             None \<Rightarrow> (Inl AttributeError, self)
           | Some conn \<Rightarrow> on_connection conn (\<lambda>c. handleEchoRes c d) self))"

subsection \<open>The poll thread during a wait\<close>

text \<open>
  While a caller waits on a task, the poll thread dispatches the packets that
  arrive and notices dead sockets.  One event is one call of a handler on a
  received packet, or one call of \<open>_lostConnection\<close>; an exception of a
  handler is logged by the poll loop and the state it leaves stands.  The
  handlers of WORK_STATUS and STATUS_RES (which compute a float) and the
  reconnect thread are not part of the model.
\<close>

datatype client_event =
    JobCreated packet | WorkComplete packet | WorkFail packet
  | WorkException packet | WorkData packet | WorkWarning packet
  | OptionRes packet | ErrorPacket packet | EchoRes packet
  | LostConnection conn_id

definition client_event :: "'a base_client_scheme \<Rightarrow> client_event \<Rightarrow> 'a base_client_scheme" where
  "client_event self ev =
     (case ev of
        JobCreated p \<Rightarrow> snd (handleJobCreated self p)
      | WorkComplete p \<Rightarrow> snd (handleWorkComplete self p)
      | WorkFail p \<Rightarrow> snd (handleWorkFail self p)
      | WorkException p \<Rightarrow> snd (handleWorkException self p)
      | WorkData p \<Rightarrow> snd (handleWorkData self p)
      | WorkWarning p \<Rightarrow> snd (handleWorkWarning self p)
      | OptionRes p \<Rightarrow> snd (handleOptionRes self p)
      | ErrorPacket p \<Rightarrow> snd (handleError self p)
      | EchoRes p \<Rightarrow> snd (Client_handleEchoRes self p)
      | LostConnection conn \<Rightarrow> lostConnection self conn)"

definition poll :: "'a base_client_scheme \<Rightarrow> client_event list \<Rightarrow> 'a base_client_scheme" where
  "poll self evs = foldl client_event self evs"

text \<open>
  \<open>task.wait(timeout)\<close>: the poll thread handles the events \<open>evs\<close>, then
  the call returns whether the task has been signalled.
\<close>

definition task_wait ::
  "'a base_client_scheme \<Rightarrow> task_id \<Rightarrow> client_event list \<Rightarrow> bool \<times> 'a base_client_scheme" where
  "task_wait self t evs =
     (let self1 = poll self evs in (task.wait_event (tasks self1 t), self1))"

text \<open>A new task object, with its event clear.\<close>

definition new_task ::
  "'a base_client_scheme \<Rightarrow> task_class \<Rightarrow> task_id \<times> 'a base_client_scheme" where
  "new_task self k =
     (next_task self,
      self\<lparr>tasks := (tasks self)(next_task self :=
                        \<lparr>task_class = k, task.wait_event = False\<rparr>),
           next_task := Suc (next_task self)\<rparr>)"

text \<open>\<open>conn.pending_tasks.append(task)\<close>.\<close>

definition append_pending_task ::
  "'a base_client_scheme \<Rightarrow> conn_id \<Rightarrow> task_id \<Rightarrow> 'a base_client_scheme" where
  "append_pending_task self conn t =
     self\<lparr>conns := (conns self)(conn := (conns self conn)
            \<lparr>pending_tasks := pending_tasks (conns self conn) @ [t]\<rparr>)\<rparr>"



text \<open>
  A client for the concrete examples: one active connection \<open>0\<close> with a
  socket, and the job \<open>0\<close> (\<open>reverse\<close> of \<open>hello\<close>) in flight on it under
  the handle \<open>H:1\<close>.
\<close>

definition example_client :: base_client where
  "example_client =
     (BaseClientServer_init (Some [99]))
       \<lparr> active_connections := [0],
         conns := (\<lambda>_. Connection_init [] 0)
           (0 := (Connection_init [49, 50, 55, 46, 48, 46, 48, 46, 49] 4730)
                   \<lparr>connected := True, related_jobs := [[72, 58, 49] \<mapsto> 0]\<rparr>),
         jobs := (\<lambda>_. Job_init [] [] None)
           (0 := (Job_init [114, 101, 118, 101, 114, 115, 101] [104, 101, 108, 108, 111] None)
                   \<lparr>handle := Some [72, 58, 49]\<rparr>) \<rparr>"

section \<open>The client: options and job submission\<close>

text \<open>
  \<open>Client._setOptionConnection\<close>:
  \<^verbatim>\<open>
    packet = Packet(constants.REQ, constants.OPTION_REQ, name)
    task = OptionReqTask()
    try:
        conn.pending_tasks.append(task)
        self.sendPacket(packet, conn)
    except Exception:
        task = None
    return task
  \<close>
\<close>

definition setOptionConnection ::
  "constants \<Rightarrow> 'a base_client_scheme \<Rightarrow> bytes \<Rightarrow> conn_id \<Rightarrow>
     (error + task_id option) \<times> 'a base_client_scheme" where
  "setOptionConnection K self opt conn =
     (case Packet REQ (OPTION_REQ K) opt None of
        Inl e \<Rightarrow> (Inl e, self)
      | Inr p \<Rightarrow>
          (case new_task self OptionReqTask of
             (t, self1) \<Rightarrow>
               (case sendPacket (append_pending_task self1 conn t) p conn of
                  (Inl e, self2) \<Rightarrow> (Inr None, self2)
                | (Inr u, self2) \<Rightarrow> (Inr (Some t), self2))))"

text \<open>
  The first loop of \<open>Client.setOption\<close>, over the snapshot of the active
  list; \<open>sent\<close> is the dictionary \<open>tasks\<close> in insertion order:
  \<^verbatim>\<open>
    for connection in connections:
        task = self._setOptionConnection(name, connection)
        if task:
            tasks[task] = connection
  \<close>
\<close>

fun setOption_send ::
  "constants \<Rightarrow> 'a base_client_scheme \<Rightarrow> bytes \<Rightarrow> conn_id list \<Rightarrow> (task_id \<times> conn_id) list \<Rightarrow>
     (error + (task_id \<times> conn_id) list) \<times> 'a base_client_scheme" where
  "setOption_send K self opt [] sent = (Inr sent, self)"
| "setOption_send K self opt (conn # connections) sent =
     (case setOptionConnection K self opt conn of
        (Inl e, self1) \<Rightarrow> (Inl e, self1)
      | (Inr None, self1) \<Rightarrow> setOption_send K self1 opt connections sent
      | (Inr (Some t), self1) \<Rightarrow> setOption_send K self1 opt connections (sent @ [(t, conn)]))"

text \<open>
  The body of the second loop, for one task; \<open>evs\<close> is what the poll thread
  does during the wait:
  \<^verbatim>\<open>
    complete = task.wait(timeout)
    conn = tasks[task]
    if not complete:
        self._lostConnection(conn)
        continue
    if name not in conn.options:
        success = False
  \<close>
\<close>

definition setOption_wait ::
  "'a base_client_scheme \<Rightarrow> bytes \<Rightarrow> task_id \<times> conn_id \<Rightarrow> client_event list \<Rightarrow> bool \<Rightarrow>
     bool \<times> 'a base_client_scheme" where
  "setOption_wait self opt tc evs success =
     (case tc of
        (t, conn) \<Rightarrow>
          (case task_wait self t evs of
             (completed, self1) \<Rightarrow>
               if \<not> completed then (success, lostConnection self1 conn)
               else if opt \<notin> connection.options (conns self1 conn) then (False, self1)
               else (success, self1)))"

text \<open>
  The second loop.  \<open>envs\<close> gives the poll thread's events wait by wait;
  when it is used up, nothing more arrives.
\<close>

fun setOption_waits ::
  "'a base_client_scheme \<Rightarrow> bytes \<Rightarrow> (task_id \<times> conn_id) list \<Rightarrow> client_event list list \<Rightarrow>
     bool \<Rightarrow> bool \<times> 'a base_client_scheme" where
  "setOption_waits self opt [] envs success = (success, self)"
| "setOption_waits self opt (tc # rest) envs success =
     (case setOption_wait self opt tc (case envs of [] \<Rightarrow> [] | evs # _ \<Rightarrow> evs) success of
        (success1, self1) \<Rightarrow> setOption_waits self1 opt rest (tl envs) success1)"

text \<open>\<open>Client.setOption(opt, timeout=30)\<close>.\<close>

definition setOption ::
  "constants \<Rightarrow> 'a client_scheme \<Rightarrow> bytes \<Rightarrow> client_event list list \<Rightarrow>
     (error + bool) \<times> 'a client_scheme" where
  "setOption K self opt envs =
     (let self1 = self\<lparr>client.options := insert opt (client.options self)\<rparr>
      in case setOption_send K self1 opt (active_connections self1) [] of
           (Inl e, self2) \<Rightarrow> (Inl e, self2)
         | (Inr sent, self2) \<Rightarrow>
             (case setOption_waits self2 opt sent envs True of
                (success, self3) \<Rightarrow> (Inr success, self3)))"

text \<open>
  The first part of \<open>Client.submitJob\<close>, which builds the packet:
  \<^verbatim>\<open>
    if job.unique is None:
        unique = b''
    else:
        unique = job.unique
    data = b'\x00'.join((job.name, unique, job.arguments))
    if background:
        if precedence == PRECEDENCE_NORMAL:
            cmd = constants.SUBMIT_JOB_BG
        elif precedence == PRECEDENCE_LOW:
            cmd = constants.SUBMIT_JOB_LOW_BG
        elif precedence == PRECEDENCE_HIGH:
            cmd = constants.SUBMIT_JOB_HIGH_BG
        else:
            raise ConfigurationError("Invalid precedence value")
    else:
        if precedence == PRECEDENCE_NORMAL:
            cmd = constants.SUBMIT_JOB
        elif precedence == PRECEDENCE_LOW:
            cmd = constants.SUBMIT_JOB_LOW
        elif precedence == PRECEDENCE_HIGH:
            cmd = constants.SUBMIT_JOB_HIGH
        else:
            raise ConfigurationError("Invalid precedence value")
    packet = Packet(constants.REQ, cmd, data)
  \<close>
\<close>

definition submitJob_packet :: "constants \<Rightarrow> job \<Rightarrow> bool \<Rightarrow> int \<Rightarrow> error + packet" where
  "submitJob_packet K job background precedence =
     (let uniq = (case unique job of None \<Rightarrow> [] | Some u \<Rightarrow> u);
          d = join [0] [base_job.name job, uniq, base_job.arguments job]
      in case (if background
               then if precedence = PRECEDENCE_NORMAL then Inr (SUBMIT_JOB_BG K)
                    else if precedence = PRECEDENCE_LOW then Inr (SUBMIT_JOB_LOW_BG K)
                    else if precedence = PRECEDENCE_HIGH then Inr (SUBMIT_JOB_HIGH_BG K)
                    else Inl ConfigurationError
               else if precedence = PRECEDENCE_NORMAL then Inr (SUBMIT_JOB K)
                    else if precedence = PRECEDENCE_LOW then Inr (SUBMIT_JOB_LOW K)
                    else if precedence = PRECEDENCE_HIGH then Inr (SUBMIT_JOB_HIGH K)
                    else Inl ConfigurationError) of
           Inl e \<Rightarrow> Inl e
         | Inr cmd \<Rightarrow> Packet REQ cmd d None)"

text \<open>
  One turn of the loop of \<open>submitJob\<close>:
  \<^verbatim>\<open>
    if attempted_connections == set(self.active_connections):
        break
    conn = self.getConnection()
    task = SubmitJobTask(job)
    conn.pending_tasks.append(task)
    attempted_connections.add(conn)
    try:
        self.sendPacket(packet, conn)
    except Exception:
        continue
    complete = task.wait(timeout)
    if not complete:
        self._lostConnection(conn)
        continue
    if not job.handle:
        continue
    job.connection = conn
    return
  \<close>
  \<open>Inl\<close> is the end of the method: the \<open>return\<close>, an exception of
  \<open>getConnection\<close>, or the \<open>break\<close>, after which the method raises
  \<open>GearmanError\<close>.  \<open>Inr\<close> is a \<open>continue\<close>.  \<open>envs\<close> gives the poll
  thread's events wait by wait; a turn that waits uses up its head.
\<close>

definition submitJob_attempt ::
  "'a base_client_scheme \<Rightarrow> packet \<Rightarrow> job_id \<Rightarrow> conn_id set \<Rightarrow> client_event list list \<Rightarrow>
     ((error + unit) \<times> 'a base_client_scheme) +
     ('a base_client_scheme \<times> conn_id set \<times> client_event list list)" where
  "submitJob_attempt self p j attempted envs =
     (if attempted = set (active_connections self) then Inl (Inl GearmanError, self)
      else
        (case getConnection self of
           (Inl e, self1) \<Rightarrow> Inl (Inl e, self1)
         | (Inr conn, self1) \<Rightarrow>
             (case new_task self1 (SubmitJobTask j) of
                (t, self2) \<Rightarrow>
                  (case sendPacket (append_pending_task self2 conn t) p conn of
                     (Inl e, self3) \<Rightarrow> Inr (self3, insert conn attempted, envs)
                   | (Inr u, self3) \<Rightarrow>
                       (case task_wait self3 t (case envs of [] \<Rightarrow> [] | evs # _ \<Rightarrow> evs) of
                          (completed, self4) \<Rightarrow>
                            if \<not> completed
                            then Inr (lostConnection self4 conn, insert conn attempted, tl envs)
                            else if \<not> truthy (handle (jobs self4 j))
                            then Inr (self4, insert conn attempted, tl envs)
                            else Inl (Inr (),
                                   update_job self4 j
                                     (\<lambda>job. job\<lparr>base_job.connection := Some conn\<rparr>)))))))"

text \<open>
  A turn that goes on has either waited, and used up the head of \<open>envs\<close>,
  or has lost the connection it tried: when the send raises, or when the wait
  finds \<open>envs\<close> used up and so times out.
\<close>

lemma remove1_shorter: "x \<in> set xs \<Longrightarrow> length (remove1 x xs) < length xs"
  by (induction xs) auto

lemma getConnection_active:
  assumes "getConnection self = (Inr conn, self1)"
  shows "conn \<in> set (active_connections self)" and "active_connections self1 = active_connections self"
  using assms
  by (auto simp: getConnection_def Let_def getitem_def split: if_splits option.splits)

lemma lostConnection_active:
  "active_connections (lostConnection self conn) = remove1 conn (active_connections self)"
  by (simp add: lostConnection_def Let_def remove1_idem)

lemma lostConnection_fields [simp]:
  "conns (lostConnection self conn) = conns self"
  "jobs (lostConnection self conn) = jobs self"
  "tasks (lostConnection self conn) = tasks self"
  "next_task (lostConnection self conn) = next_task self"
  by (simp_all add: lostConnection_def Let_def)

lemma sendPacket_active:
  "sendPacket self p conn = (Inl e, self1) \<Longrightarrow>
     active_connections self1 = remove1 conn (active_connections self)"
  "sendPacket self p conn = (Inr u, self1) \<Longrightarrow>
     active_connections self1 = active_connections self \<and> tasks self1 = tasks self"
  by (auto simp: sendPacket_def on_connection_def lostConnection_active
           split: prod.splits sum.splits)

lemma submitJob_attempt_decreases:
  assumes "submitJob_attempt self p j attempted envs = Inr (self1, attempted1, envs1)"
  shows "length envs1 < length envs \<or>
         envs1 = envs \<and> length (active_connections self1) < length (active_connections self)"
proof -
  from assms obtain conn s1 where g: "getConnection self = (Inr conn, s1)"
    by (auto simp: submitJob_attempt_def split: if_splits prod.splits sum.splits)
  note ga = getConnection_active [OF g]
  define t where "t = next_task s1"
  define s2 where "s2 = snd (new_task s1 (SubmitJobTask j))"
  have nt: "new_task s1 (SubmitJobTask j) = (t, s2)" by (simp add: new_task_def t_def s2_def)
  define s3 where "s3 = append_pending_task s2 conn t"
  have a3: "active_connections s3 = active_connections self" "\<not> task.wait_event (tasks s3 t)"
    using ga(2) by (simp_all add: s3_def s2_def append_pending_task_def new_task_def t_def)
  show ?thesis
  proof (cases "sendPacket s3 p conn")
    case (Pair r s4)
    show ?thesis
    proof (cases r)
      case (Inl e)
      then have "active_connections s4 = remove1 conn (active_connections self)"
        using sendPacket_active(1) [of s3 p conn e s4] Pair a3 by simp
      moreover have "self1 = s4" "envs1 = envs"
        using assms g nt Pair Inl by (auto simp: submitJob_attempt_def s3_def split: if_splits)
      ultimately show ?thesis using ga(1) by (simp add: remove1_shorter)
    next
      case (Inr u)
      then have s4: "active_connections s4 = active_connections self" "tasks s4 = tasks s3"
        using sendPacket_active(2) [of s3 p conn u s4] Pair a3 by simp_all
      show ?thesis
      proof (cases envs)
        case Nil
        have "task_wait s4 t [] = (False, s4)"
          using s4 a3 by (simp add: task_wait_def poll_def)
        then have "self1 = lostConnection s4 conn" "envs1 = envs"
          using assms g nt Pair Inr Nil
          by (auto simp: submitJob_attempt_def s3_def split: if_splits)
        then show ?thesis using s4 ga(1) by (simp add: lostConnection_active remove1_shorter)
      next
        case (Cons evs rest)
        then have "envs1 = rest"
          using assms g nt Pair Inr
          by (auto simp: submitJob_attempt_def s3_def split: if_splits prod.splits)
        then show ?thesis using Cons by simp
      qed
    qed
  qed
qed

text \<open>
  The loop of \<open>submitJob\<close>, and the method.  The job is the object \<open>j\<close> of
  the store.
\<close>

function submitJob_loop ::
  "'a base_client_scheme \<Rightarrow> packet \<Rightarrow> job_id \<Rightarrow> conn_id set \<Rightarrow> client_event list list \<Rightarrow>
     (error + unit) \<times> 'a base_client_scheme" where
  "submitJob_loop self p j attempted envs =
     (case submitJob_attempt self p j attempted envs of
        Inl r \<Rightarrow> r
      | Inr (self1, attempted1, envs1) \<Rightarrow> submitJob_loop self1 p j attempted1 envs1)"
  by pat_completeness auto
termination
  by (relation "measures [\<lambda>(self, p, j, attempted, envs). length envs,
                          \<lambda>(self, p, j, attempted, envs). length (active_connections self)]")
     (auto dest: submitJob_attempt_decreases)

declare submitJob_loop.simps [simp del]

definition submitJob ::
  "constants \<Rightarrow> 'a base_client_scheme \<Rightarrow> job_id \<Rightarrow> bool \<Rightarrow> int \<Rightarrow> client_event list list \<Rightarrow>
     (error + unit) \<times> 'a base_client_scheme" where
  "submitJob K self j background precedence envs =
     (case submitJob_packet K (jobs self j) background precedence of
        Inl e \<Rightarrow> (Inl e, self)
      | Inr p \<Rightarrow> submitJob_loop self p j {} envs)"

section \<open>The worker: sleep and grab\<close>

text \<open>\<open>Connection.changeState\<close> on the connection \<open>conn\<close> of the pool.\<close>

definition changeState :: "'a base_client_scheme \<Rightarrow> conn_id \<Rightarrow> string \<Rightarrow> 'a base_client_scheme" where
  "changeState self conn s =
     self\<lparr>conns := (conns self)(conn := (conns self conn)\<lparr>state := s\<rparr>)\<rparr>"

text \<open>
  \<open>Worker._sendPreSleep\<close> and \<open>Worker._sendGrabJobUniq\<close>:
  \<^verbatim>\<open>
    def _sendPreSleep(self, connection):
        p = Packet(constants.REQ, constants.PRE_SLEEP, b'')
        self.sendPacket(p, connection)

    def _sendGrabJobUniq(self, connection=None):
        p = Packet(constants.REQ, constants.GRAB_JOB_UNIQ, b'')
        if connection:
            self.sendPacket(p, connection)
        else:
            self.broadcast(p)
  \<close>
\<close>

definition sendPreSleep ::
  "constants \<Rightarrow> 'a base_client_scheme \<Rightarrow> conn_id \<Rightarrow> (error + unit) \<times> 'a base_client_scheme" where
  "sendPreSleep K self conn =
     (case Packet REQ (PRE_SLEEP K) [] None of
        Inl e \<Rightarrow> (Inl e, self)
      | Inr p \<Rightarrow> sendPacket self p conn)"

definition sendGrabJobUniq ::
  "constants \<Rightarrow> 'a base_client_scheme \<Rightarrow> conn_id option \<Rightarrow>
     (error + unit) \<times> 'a base_client_scheme" where
  "sendGrabJobUniq K self conn_arg =
     (case Packet REQ (GRAB_JOB_UNIQ K) [] None of
        Inl e \<Rightarrow> (Inl e, self)
      | Inr p \<Rightarrow>
          (case conn_arg of
             Some conn \<Rightarrow> sendPacket self p conn
           | None \<Rightarrow> (Inr (), broadcast self p)))"

text \<open>
  \<open>Worker._updateStateMachines\<close>, a loop over a snapshot of the active list:
  \<^verbatim>\<open>
    connections = self.active_connections[:]
    for connection in connections:
        if (connection.state == "IDLE" and self.waiting_for_jobs > 0):
            self._sendGrabJobUniq(connection)
            connection.changeState("GRAB_WAIT")
        if (connection.state != "IDLE" and self.waiting_for_jobs < 1):
            connection.changeState("IDLE")
  \<close>
  An exception of the send leaves the loop and the method.
\<close>

fun updateStateMachines_loop ::
  "constants \<Rightarrow> 'a worker_scheme \<Rightarrow> conn_id list \<Rightarrow> (error + unit) \<times> 'a worker_scheme" where
  "updateStateMachines_loop K self [] = (Inr (), self)"
| "updateStateMachines_loop K self (conn # connections) =
     (case (if state (conns self conn) = ''IDLE'' \<and> waiting_for_jobs self > 0
            then (case sendGrabJobUniq K self (Some conn) of
                    (Inl e, self1) \<Rightarrow> Inl (e, self1)
                  | (Inr u, self1) \<Rightarrow> Inr (changeState self1 conn ''GRAB_WAIT''))
            else Inr self) of
        Inl (e, self1) \<Rightarrow> (Inl e, self1)
      | Inr self1 \<Rightarrow>
          updateStateMachines_loop K
            (if state (conns self1 conn) \<noteq> ''IDLE'' \<and> waiting_for_jobs self1 < 1
             then changeState self1 conn ''IDLE'' else self1)
            connections)"

definition updateStateMachines ::
  "constants \<Rightarrow> 'a worker_scheme \<Rightarrow> (error + unit) \<times> 'a worker_scheme" where
  "updateStateMachines K self = updateStateMachines_loop K self (active_connections self)"

text \<open>
  \<open>Worker.handleNoop\<close>:
  \<^verbatim>\<open>
    if packet.connection.state == "SLEEP":
        self._sendGrabJobUniq(packet.connection)
        packet.connection.changeState("GRAB_WAIT")
    else:
        self.log.debug("Received unexpecetd NOOP packet on %s" % packet.connection)
  \<close>
\<close>

definition handleNoop ::
  "constants \<Rightarrow> 'a worker_scheme \<Rightarrow> packet \<Rightarrow> (error + unit) \<times> 'a worker_scheme" where
  "handleNoop K self p =
     (case packet.connection p of
        None \<Rightarrow> (Inl AttributeError, self)
      | Some conn \<Rightarrow>
          if state (conns self conn) = ''SLEEP''
          then (case sendGrabJobUniq K self (Some conn) of
                  (Inl e, self1) \<Rightarrow> (Inl e, self1)
                | (Inr u, self1) \<Rightarrow> (Inr (), changeState self1 conn ''GRAB_WAIT''))
          else (Inr (), self))"

text \<open>
  \<open>Worker.handleNoJob\<close>:
  \<^verbatim>\<open>
    if packet.connection.state == "GRAB_WAIT":
        self._sendPreSleep(packet.connection)
        packet.connection.changeState("SLEEP")
    else:
        self.log.debug("Received unexpected NO_JOB packet on %s" % packet.connection)
  \<close>
\<close>

definition handleNoJob ::
  "constants \<Rightarrow> 'a worker_scheme \<Rightarrow> packet \<Rightarrow> (error + unit) \<times> 'a worker_scheme" where
  "handleNoJob K self p =
     (case packet.connection p of
        None \<Rightarrow> (Inl AttributeError, self)
      | Some conn \<Rightarrow>
          if state (conns self conn) = ''GRAB_WAIT''
          then (case sendPreSleep K self conn of
                  (Inl e, self1) \<Rightarrow> (Inl e, self1)
                | (Inr u, self1) \<Rightarrow> (Inr (), changeState self1 conn ''SLEEP''))
          else (Inr (), self))"

text \<open>
  \<open>Worker._handleJobAssignment\<close>:
  \<^verbatim>\<open>
    job = WorkerJob(handle, name, arguments, unique)
    job.connection = packet.connection
    packet.connection.changeState("IDLE")
    self.waiting_for_jobs -= 1
    self.job_queue.put(job)
    self._updateStateMachines()
  \<close>
\<close>

definition handleJobAssignment ::
  "constants \<Rightarrow> 'a worker_scheme \<Rightarrow> packet \<Rightarrow> bytes \<Rightarrow> bytes \<Rightarrow> bytes \<Rightarrow> bytes option \<Rightarrow>
     (error + unit) \<times> 'a worker_scheme" where
  "handleJobAssignment K self p h n a u =
     (let job = (WorkerJob_init h n a u)\<lparr>base_job.connection := packet.connection p\<rparr>
      in case packet.connection p of
           None \<Rightarrow> (Inl AttributeError, self)
         | Some conn \<Rightarrow>
             let self1 = changeState self conn ''IDLE'';
                 self2 = self1\<lparr>waiting_for_jobs := waiting_for_jobs self1 - 1\<rparr>;
                 self3 = self2\<lparr>job_queue := job_queue self2 @ [Some job]\<rparr>
             in updateStateMachines K self3)"

text \<open>
  \<open>Worker.handleJobAssign\<close>:
  \<^verbatim>\<open>
    handle = packet.getArgument(0)
    name = packet.getArgument(1)
    arguments = packet.getArgument(2, True)
    return self._handleJobAssignment(packet, handle, name, arguments, None)
  \<close>
\<close>

definition handleJobAssign ::
  "constants \<Rightarrow> 'a worker_scheme \<Rightarrow> packet \<Rightarrow> (error + unit) \<times> 'a worker_scheme" where
  "handleJobAssign K self p =
     (case getArgument p 0 False of
        Inl e \<Rightarrow> (Inl e, self)
      | Inr h \<Rightarrow>
          (case getArgument p 1 False of
             Inl e \<Rightarrow> (Inl e, self)
           | Inr n \<Rightarrow>
               (case getArgument p 2 True of
                  Inl e \<Rightarrow> (Inl e, self)
                | Inr a \<Rightarrow> handleJobAssignment K self p h n a None)))"

text \<open>
  \<open>Worker.handleJobAssignUnique\<close>:
  \<^verbatim>\<open>
    handle = packet.getArgument(0)
    name = packet.getArgument(1)
    unique = packet.getArgument(2)
    if unique == b'':
        unique = None
    arguments = packet.getArgument(3, True)
    return self._handleJobAssignment(packet, handle, name, arguments, unique)
  \<close>
\<close>

definition handleJobAssignUnique ::
  "constants \<Rightarrow> 'a worker_scheme \<Rightarrow> packet \<Rightarrow> (error + unit) \<times> 'a worker_scheme" where
  "handleJobAssignUnique K self p =
     (case getArgument p 0 False of
        Inl e \<Rightarrow> (Inl e, self)
      | Inr h \<Rightarrow>
          (case getArgument p 1 False of
             Inl e \<Rightarrow> (Inl e, self)
           | Inr n \<Rightarrow>
               (case getArgument p 2 False of
                  Inl e \<Rightarrow> (Inl e, self)
                | Inr u \<Rightarrow>
                    (case getArgument p 3 True of
                       Inl e \<Rightarrow> (Inl e, self)
                     | Inr a \<Rightarrow>
                         handleJobAssignment K self p h n a
                           (if u = [] then None else Some u)))))"

text \<open>
  The worker after \<open>_handleJobAssignment\<close> has recorded the job and before
  it re-runs the update: the connection idle, one waiter fewer, the job at
  the end of the queue.
\<close>

definition assigned :: "'a worker_scheme \<Rightarrow> conn_id \<Rightarrow> base_job \<Rightarrow> 'a worker_scheme" where
  "assigned self conn job =
     self\<lparr>conns := (conns self)(conn := (conns self conn)\<lparr>state := ''IDLE''\<rparr>),
          waiting_for_jobs := waiting_for_jobs self - 1,
          job_queue := job_queue self @ [Some job]\<rparr>"

text \<open>
  A worker for the concrete examples: one active connection \<open>0\<close> with a
  socket, in state \<open>GRAB_WAIT\<close>, and one thread waiting in \<open>getJob\<close>.
\<close>

definition example_worker :: worker where
  "example_worker =
     (base_client.extend (BaseClientServer_init (Some [119]))
        \<lparr> worker_id = Some [119], worker_functions = Map.empty,
          waiting_for_jobs = 1, job_queue = [] \<rparr>)
       \<lparr> active_connections := [0],
         conns := (\<lambda>_. Connection_init [] 0)
           (0 := (Connection_init [49, 50, 55, 46, 48, 46, 48, 46, 49] 4730)
                   \<lparr>connected := True, state := ''GRAB_WAIT''\<rparr>) \<rparr>"

text \<open>What has been handed to \<open>send\<close> on each connection of the pool.\<close>

definition outs :: "'a base_client_scheme \<Rightarrow> conn_id \<Rightarrow> bytes list" where
  "outs self conn = sock_out (conns self conn)"

text \<open>
  Between the states \<open>self\<close> and \<open>self'\<close>, nothing but encodings of the
  packet \<open>p\<close> has been sent, on any connection.
\<close>

definition sent_only :: "packet \<Rightarrow> 'a base_client_scheme \<Rightarrow> 'a base_client_scheme \<Rightarrow> bool" where
  "sent_only p self self' \<longleftrightarrow>
     (\<forall>conn. prefix (outs self conn) (outs self' conn) \<and>
        list_all (\<lambda>m. toBinary p = Inr m) (drop (length (outs self conn)) (outs self' conn)))"

text \<open>
  A client connected to one server, before any request: the pool of
  \<open>example_client\<close> with the \<open>options\<close> set of \<open>Client.__init__\<close>.
\<close>

definition example_option_client :: client where
  "example_option_client = base_client.extend example_client \<lparr> client.options = {} \<rparr>"

section \<open>Constructing a worker\<close>

lemma Worker_init_ok_iff:
  "(\<exists>w. Worker_init cid wid = Inr w) \<longleftrightarrow> truthy cid \<and> \<not> truthy wid"
  by (auto simp: Worker_init_def Let_def)

text \<open>
  C9.  Constructing a worker with \<open>worker_id\<close> as an alias of
  \<open>client_id\<close> does not succeed in the code: every call that passes a truthy
  \<open>worker_id\<close> raises, whatever \<open>client_id\<close> is, because the guard
  \<open>not client_id or worker_id\<close> is then true.  The assignment
  \<open>client_id = worker_id\<close> below the guard can therefore never run.
\<close>

theorem Worker_init_worker_id_raises:
  "truthy wid \<Longrightarrow> Worker_init cid wid = Inl Exception"
  by (simp add: Worker_init_def)

text \<open>The failing call \<open>Worker(worker_id=b'w1')\<close>.\<close>

theorem Worker_init_worker_id_raises_witness:
  "truthy (Some [119, 49]) \<and> Worker_init None (Some [119, 49]) = Inl Exception"
proof -
  have t: "truthy (Some [119, 49])" by (simp add: truthy_def)
  show ?thesis using t Worker_init_worker_id_raises [OF t, of None] by simp
qed

section \<open>Framing of administrative responses\<close>

lemma find_bytes_ge: "find_bytes d s \<ge> -1"
  by (induction d) (auto simp: Let_def)

lemma find_bytes_neg: "find_bytes d s = -1 \<longleftrightarrow> \<not> sublist s d"
proof (induction d)
  case Nil then show ?case by auto
next
  case (Cons x xs)
  have g: "find_bytes xs s \<ge> -1" by (rule find_bytes_ge)
  show ?case using Cons g
    by (auto simp: Let_def sublist_Cons_right)
qed

lemma prefix_take_eq: "prefix s d \<longleftrightarrow> take (length s) d = s"
proof
  assume "prefix s d" then show "take (length s) d = s" by (auto simp: prefix_def)
next
  assume "take (length s) d = s"
  then show "prefix s d" by (metis take_is_prefix)
qed

lemma first_at_alt:
  "first_at s d i \<longleftrightarrow>
     i + length s \<le> length d \<and> take (length s) (drop i d) = s \<and>
     (\<forall>j<i. take (length s) (drop j d) \<noteq> s)"
  by (auto simp: first_at_def list_all_iff)

lemma first_at_0: "first_at s d 0 \<longleftrightarrow> prefix s d"
  by (auto simp: first_at_alt prefix_take_eq prefix_length_le)

lemma first_at_Suc:
  "first_at s (x # xs) (Suc k) \<longleftrightarrow> \<not> prefix s (x # xs) \<and> first_at s xs k"
proof -
  have eq: "(\<forall>j < Suc k. take (length s) (drop j (x # xs)) \<noteq> s) \<longleftrightarrow>
        take (length s) (x # xs) \<noteq> s \<and> (\<forall>j < k. take (length s) (drop j xs) \<noteq> s)"
    (is "?L \<longleftrightarrow> ?R")
  proof
    assume l: ?L
    have a: "take (length s) (drop 0 (x # xs)) \<noteq> s" using l by blast
    have b: "\<forall>j < k. take (length s) (drop (Suc j) (x # xs)) \<noteq> s" using l by auto
    show ?R using a b by simp
  next
    assume r: ?R
    show ?L
    proof (intro allI impI)
      fix j assume "j < Suc k"
      then show "take (length s) (drop j (x # xs)) \<noteq> s" using r by (cases j) auto
    qed
  qed
  show ?thesis
    unfolding first_at_alt prefix_take_eq eq by auto
qed

lemma find_bytes_first: "find_bytes d s = int i \<longleftrightarrow> first_at s d i"
proof (induction d arbitrary: i)
  case Nil
  then show ?case by (auto simp: first_at_def)
next
  case (Cons x xs)
  have g: "find_bytes xs s \<ge> -1" by (rule find_bytes_ge)
  show ?case
  proof (cases i)
    case 0
    then show ?thesis using g by (auto simp: first_at_0 Let_def)
  next
    case (Suc k)
    then show ?thesis using g Cons.IH [of k] by (auto simp: first_at_Suc Let_def)
  qed
qed

lemma first_at_exists: "sublist s d \<Longrightarrow> \<exists>i. first_at s d i"
proof -
  assume "sublist s d"
  then have "find_bytes d s \<noteq> -1" by (simp add: find_bytes_neg)
  moreover have "find_bytes d s \<ge> -1" by (rule find_bytes_ge)
  ultimately have "find_bytes d s = int (nat (find_bytes d s))" by simp
  then show ?thesis using find_bytes_first by blast
qed

lemma first_at_sublist: "first_at s d i \<Longrightarrow> sublist s d"
  using find_bytes_first [of d s i] find_bytes_neg [of d s] by auto


lemma slice_to_nat: "slice_to d (int k) = take k d"
  by (simp add: slice_to_def slice_index_def min_def)

lemma slice_from_nat: "slice_from d (int k) = drop k d"
  by (simp add: slice_from_def slice_index_def min_def)

lemma slice_to_nonneg: "0 \<le> x \<Longrightarrow> slice_to d x = take (nat x) d"
  using slice_to_nat [of d "nat x"] by simp

lemma slice_from_nonneg: "0 \<le> x \<Longrightarrow> slice_from d x = drop (nat x) d"
  using slice_from_nat [of d "nat x"] by simp

lemma AdminRequest_isComplete_newline:
  assumes "first_at NL_DOT_NL d i"
  shows "AdminRequest_isComplete r d =
           ((True, drop (i + 3) d), r\<lparr>response := Some (take (i + 3) d)\<rparr>)"
proof -
  have f: "find_bytes d NL_DOT_NL = int i" using assms by (simp add: find_bytes_first)
  have e: "nat (int i + 3) = i + 3" by simp
  show ?thesis
    unfolding AdminRequest_isComplete_def Let_def f
    by (simp add: slice_to_nonneg slice_from_nonneg e)
qed

lemma AdminRequest_isComplete_return:
  assumes "\<not> sublist NL_DOT_NL d" and "first_at CRNL_DOT_CRNL d i"
  shows "AdminRequest_isComplete r d =
           ((True, drop (i + 5) d), r\<lparr>response := Some (take (i + 5) d)\<rparr>)"
proof -
  have n: "find_bytes d NL_DOT_NL = -1" using assms(1) by (simp add: find_bytes_neg)
  have f: "find_bytes d CRNL_DOT_CRNL = int i" using assms(2) by (simp add: find_bytes_first)
  have e: "nat (int i + 5) = i + 5" by simp
  show ?thesis
    unfolding AdminRequest_isComplete_def Let_def n f
    by (simp add: slice_to_nonneg slice_from_nonneg e)
qed

lemma AdminRequest_isComplete_dot:
  assumes "\<not> sublist NL_DOT_NL d" and "\<not> sublist CRNL_DOT_CRNL d"
  shows "prefix DOT_NL d \<longrightarrow> AdminRequest_isComplete r d =
           ((True, drop 2 d), r\<lparr>response := Some (take 2 d)\<rparr>)"
    and "prefix DOT_CRNL d \<longrightarrow> AdminRequest_isComplete r d =
           ((True, drop 3 d), r\<lparr>response := Some (take 3 d)\<rparr>)"
    and "\<not> prefix DOT_NL d \<and> \<not> prefix DOT_CRNL d \<longrightarrow>
           AdminRequest_isComplete r d = ((False, d), r)"
proof -
  have n: "find_bytes d NL_DOT_NL = -1" using assms(1) by (simp add: find_bytes_neg)
  have f: "find_bytes d CRNL_DOT_CRNL = -1" using assms(2) by (simp add: find_bytes_neg)
  have e: "(2::int) = int 2" "(3::int) = int 3" by simp_all
  have x: "\<not> (prefix DOT_NL d \<and> prefix DOT_CRNL d)"
    by (auto simp: DOT_NL_def DOT_CRNL_def prefix_def)
  show "prefix DOT_NL d \<longrightarrow> AdminRequest_isComplete r d =
           ((True, drop 2 d), r\<lparr>response := Some (take 2 d)\<rparr>)"
    unfolding AdminRequest_isComplete_def Let_def n f
    using slice_to_nat [of d 2] slice_from_nat [of d 2] by simp
  show "prefix DOT_CRNL d \<longrightarrow> AdminRequest_isComplete r d =
           ((True, drop 3 d), r\<lparr>response := Some (take 3 d)\<rparr>)"
    unfolding AdminRequest_isComplete_def Let_def n f
    using slice_to_nat [of d 3] slice_from_nat [of d 3] x by auto
  show "\<not> prefix DOT_NL d \<and> \<not> prefix DOT_CRNL d \<longrightarrow>
           AdminRequest_isComplete r d = ((False, d), r)"
    unfolding AdminRequest_isComplete_def Let_def n f by simp
qed

lemma AdminRequest_isComplete_iff:
  "fst (fst (AdminRequest_isComplete r d)) \<longleftrightarrow>
     sublist NL_DOT_NL d \<or> sublist CRNL_DOT_CRNL d \<or> prefix DOT_NL d \<or> prefix DOT_CRNL d"
proof -
  have a: "find_bytes d NL_DOT_NL \<ge> -1" "find_bytes d CRNL_DOT_CRNL \<ge> -1"
    by (rule find_bytes_ge)+
  show ?thesis
    using a find_bytes_neg [of d NL_DOT_NL] find_bytes_neg [of d CRNL_DOT_CRNL]
    by (auto simp: AdminRequest_isComplete_def Let_def)
qed

lemma first_line_isComplete:
  "first_at NL d i \<Longrightarrow> CancelJobAdminRequest_isComplete r d =
           ((True, drop (i + 1) d), r\<lparr>response := Some (take (i + 1) d)\<rparr>)"
  "\<not> sublist NL d \<Longrightarrow> CancelJobAdminRequest_isComplete r d = ((False, d), r)"
  "fst (fst (CancelJobAdminRequest_isComplete r d)) \<longleftrightarrow> sublist NL d"
  "VersionAdminRequest_isComplete r d = CancelJobAdminRequest_isComplete r d"
proof -
  show "first_at NL d i \<Longrightarrow> CancelJobAdminRequest_isComplete r d =
           ((True, drop (i + 1) d), r\<lparr>response := Some (take (i + 1) d)\<rparr>)"
    unfolding CancelJobAdminRequest_isComplete_def Let_def
    by (simp add: find_bytes_first [symmetric] slice_to_nonneg slice_from_nonneg nat_add_distrib)
  show "\<not> sublist NL d \<Longrightarrow> CancelJobAdminRequest_isComplete r d = ((False, d), r)"
    by (simp add: CancelJobAdminRequest_isComplete_def find_bytes_neg)
  show "fst (fst (CancelJobAdminRequest_isComplete r d)) \<longleftrightarrow> sublist NL d"
    by (simp add: CancelJobAdminRequest_isComplete_def Let_def find_bytes_neg)
  show "VersionAdminRequest_isComplete r d = CancelJobAdminRequest_isComplete r d"
    by (simp add: CancelJobAdminRequest_isComplete_def VersionAdminRequest_isComplete_def)
qed

lemma sublist_NL: "sublist NL d \<longleftrightarrow> 10 \<in> set d"
  by (auto simp: NL_def sublist_def in_set_conv_decomp)


text \<open>
  C8.  For a status, show jobs, show unique jobs or workers request the
  response is complete exactly when the buffered data contains \<open>\n.\n\<close> or
  \<open>\r\n.\r\n\<close>, or starts with \<open>.\n\<close> or \<open>.\r\n\<close>; the response then ends
  3 bytes past the start of the first \<open>\n.\n\<close>, else 5 bytes past the start
  of the first \<open>\r\n.\r\n\<close>, else after the leading 2 or 3 bytes.  For a
  cancel job or version request it is complete exactly when the data contains
  \<open>\n\<close>, and ends with the first one.  In every case the response is the
  prefix of the data through the terminator, the rest of the data is returned,
  and incomplete data is returned whole with the request unchanged.
\<close>

theorem isComplete_terminators:
  "(cls r \<noteq> CancelJobAdminRequest \<and> cls r \<noteq> VersionAdminRequest \<longrightarrow>
      (fst (fst (isComplete r d)) \<longleftrightarrow>
         sublist NL_DOT_NL d \<or> sublist CRNL_DOT_CRNL d \<or>
         prefix DOT_NL d \<or> prefix DOT_CRNL d) \<and>
      (\<forall>i. first_at NL_DOT_NL d i \<longrightarrow>
         isComplete r d =
           ((True, drop (i + 3) d), r\<lparr>response := Some (take (i + 3) d)\<rparr>)) \<and>
      (\<forall>i. \<not> sublist NL_DOT_NL d \<and> first_at CRNL_DOT_CRNL d i \<longrightarrow>
         isComplete r d =
           ((True, drop (i + 5) d), r\<lparr>response := Some (take (i + 5) d)\<rparr>)) \<and>
      (\<not> sublist NL_DOT_NL d \<and> \<not> sublist CRNL_DOT_CRNL d \<and> prefix DOT_NL d \<longrightarrow>
         isComplete r d = ((True, drop 2 d), r\<lparr>response := Some (take 2 d)\<rparr>)) \<and>
      (\<not> sublist NL_DOT_NL d \<and> \<not> sublist CRNL_DOT_CRNL d \<and> prefix DOT_CRNL d \<longrightarrow>
         isComplete r d = ((True, drop 3 d), r\<lparr>response := Some (take 3 d)\<rparr>)) \<and>
      (\<not> fst (fst (isComplete r d)) \<longrightarrow> isComplete r d = ((False, d), r)))
   \<and>
   (cls r = CancelJobAdminRequest \<or> cls r = VersionAdminRequest \<longrightarrow>
      (fst (fst (isComplete r d)) \<longleftrightarrow> 10 \<in> set d) \<and>
      (\<forall>i. first_at NL d i \<longrightarrow>
         isComplete r d =
           ((True, drop (i + 1) d), r\<lparr>response := Some (take (i + 1) d)\<rparr>)) \<and>
      (10 \<notin> set d \<longrightarrow> isComplete r d = ((False, d), r)))"
proof (intro conjI impI allI)
  assume c: "cls r \<noteq> CancelJobAdminRequest \<and> cls r \<noteq> VersionAdminRequest"
  then have eq: "isComplete r d = AdminRequest_isComplete r d"
    by (cases "cls r") (simp_all add: isComplete_def)
  show "fst (fst (isComplete r d)) \<longleftrightarrow>
         sublist NL_DOT_NL d \<or> sublist CRNL_DOT_CRNL d \<or>
         prefix DOT_NL d \<or> prefix DOT_CRNL d"
    unfolding eq by (rule AdminRequest_isComplete_iff)
  show "isComplete r d =
           ((True, drop (i + 3) d), r\<lparr>response := Some (take (i + 3) d)\<rparr>)"
    if "first_at NL_DOT_NL d i" for i
    unfolding eq using that by (rule AdminRequest_isComplete_newline)
  show "isComplete r d =
           ((True, drop (i + 5) d), r\<lparr>response := Some (take (i + 5) d)\<rparr>)"
    if "\<not> sublist NL_DOT_NL d \<and> first_at CRNL_DOT_CRNL d i" for i
    unfolding eq using that by (simp add: AdminRequest_isComplete_return)
  show "isComplete r d = ((True, drop 2 d), r\<lparr>response := Some (take 2 d)\<rparr>)"
    if "\<not> sublist NL_DOT_NL d \<and> \<not> sublist CRNL_DOT_CRNL d \<and> prefix DOT_NL d"
    unfolding eq using that AdminRequest_isComplete_dot(1) [of d r] by simp
  show "isComplete r d = ((True, drop 3 d), r\<lparr>response := Some (take 3 d)\<rparr>)"
    if "\<not> sublist NL_DOT_NL d \<and> \<not> sublist CRNL_DOT_CRNL d \<and> prefix DOT_CRNL d"
    unfolding eq using that AdminRequest_isComplete_dot(2) [of d r] by simp
  show "isComplete r d = ((False, d), r)" if "\<not> fst (fst (isComplete r d))"
    using that unfolding eq
    using AdminRequest_isComplete_iff [of r d] AdminRequest_isComplete_dot(3) [of d r]
    by simp
next
  assume c: "cls r = CancelJobAdminRequest \<or> cls r = VersionAdminRequest"
  then have eq: "isComplete r d = CancelJobAdminRequest_isComplete r d"
    by (auto simp: isComplete_def first_line_isComplete(4))
  show "fst (fst (isComplete r d)) \<longleftrightarrow> 10 \<in> set d"
    unfolding eq by (simp add: first_line_isComplete(3) sublist_NL)
  show "isComplete r d =
           ((True, drop (i + 1) d), r\<lparr>response := Some (take (i + 1) d)\<rparr>)"
    if "first_at NL d i" for i
    unfolding eq using that by (rule first_line_isComplete(1))
  show "isComplete r d = ((False, d), r)" if "10 \<notin> set d"
    unfolding eq using that by (simp add: first_line_isComplete(2) sublist_NL)
qed

text \<open>
  A status response \<open>a\n.\nb\<close> and a cancel job response \<open>OK\nb\<close>: each
  leaves \<open>b\<close> in the buffer.
\<close>

theorem isComplete_terminators_witness:
  "first_at NL_DOT_NL [97, 10, 46, 10, 98] 1 \<and>
   isComplete \<lparr>cls = StatusAdminRequest, admin_request.arguments = [],
               response = None, admin_request.wait_event = False\<rparr>
     [97, 10, 46, 10, 98] =
     ((True, [98]),
      \<lparr>cls = StatusAdminRequest, admin_request.arguments = [],
       response = Some [97, 10, 46, 10], admin_request.wait_event = False\<rparr>) \<and>
   first_at NL [79, 75, 10, 98] 2 \<and>
   isComplete \<lparr>cls = CancelJobAdminRequest, admin_request.arguments = [[72]],
               response = None, admin_request.wait_event = False\<rparr>
     [79, 75, 10, 98] =
     ((True, [98]),
      \<lparr>cls = CancelJobAdminRequest, admin_request.arguments = [[72]],
       response = Some [79, 75, 10], admin_request.wait_event = False\<rparr>)"
proof -
  have a: "first_at NL_DOT_NL [97, 10, 46, 10, 98] 1"
    by (simp add: first_at_def NL_DOT_NL_def)
  have b: "first_at NL [79, 75, 10, 98] 2"
    by (simp add: first_at_def NL_def upt_rec)
  show ?thesis
    using a b
      isComplete_terminators [of "\<lparr>cls = StatusAdminRequest, admin_request.arguments = [],
               response = None, admin_request.wait_event = False\<rparr>" "[97, 10, 46, 10, 98]"]
      isComplete_terminators [of "\<lparr>cls = CancelJobAdminRequest, admin_request.arguments = [[72]],
               response = None, admin_request.wait_event = False\<rparr>" "[79, 75, 10, 98]"]
    by (simp add: numeral_2_eq_2 numeral_3_eq_3)
qed

section \<open>Round-robin selection of a connection\<close>

lemma getConnection_empty:
  "fst (getConnection s) = Inl NoConnectedServersError \<longleftrightarrow> active_connections s = []"
  by (auto simp: getConnection_def Let_def split: option.splits)

lemma getConnection_step:
  assumes "active_connections s \<noteq> []" and "-1 \<le> connection_index s"
  shows "getConnection s =
     (Inr (active_connections s ! nat (next_index (length (active_connections s)) (connection_index s))),
      s\<lparr>connection_index := next_index (length (active_connections s)) (connection_index s)\<rparr>)"
  using assms
  by (auto simp: getConnection_def Let_def getitem_def next_index_def split: option.splits)

lemma calls_until_range:
  "i < n \<Longrightarrow> -1 \<le> p \<Longrightarrow> 0 \<le> calls_until n i p \<and> calls_until n i p < int n"
  by (auto simp: calls_until_def)

lemma calls_until_next:
  assumes "i < n" and "-1 \<le> p"
  shows "(next_index n p = int i \<longleftrightarrow> calls_until n i p = 0)"
    and "calls_until n i (next_index n p) =
           (if calls_until n i p = 0 then int n - 1 else calls_until n i p - 1)"
    and "0 \<le> next_index n p" and "next_index n p < int n"
  using assms by (auto simp: calls_until_def next_index_def)

lemma round_robin_count:
  fixes f k n :: nat
  assumes "n * f + e0 = k + ek" and "e0 < n" and "ek < n"
  shows "f = k div n \<or> f = (k + n - 1) div n"
proof -
  have n0: "0 < n" using assms(2) by simp
  have "n * f \<le> k + n - 1" using assms by linarith
  then have "(n * f) div n \<le> (k + n - 1) div n" by (rule div_le_mono)
  then have up: "f \<le> (k + n - 1) div n" using n0 by simp
  have "k < (f + 1) * n" using assms by (simp add: algebra_simps) 
  then have "k div n < f + 1" using n0 by (simp add: div_less_iff_less_mult)
  then have lo: "k div n \<le> f" by simp
  have "(k + n - 1) div n \<le> (k + n) div n" by (rule div_le_mono) simp
  moreover have "(k + n) div n = k div n + 1" using n0 div_add_self2 [of n k] by simp
  ultimately have "(k + n - 1) div n \<le> k div n + 1" by linarith
  then show ?thesis using up lo by linarith
qed

lemma getConnections_run:
  assumes "i < length (active_connections s)" and "-1 \<le> connection_index s"
    and "distinct (active_connections s)"
  shows "active_connections (snd (getConnections k s)) = active_connections s \<and>
         -1 \<le> connection_index (snd (getConnections k s)) \<and>
         int k + calls_until (length (active_connections s)) i
                   (connection_index (snd (getConnections k s))) =
         int (length (active_connections s)) *
           int (count_list (fst (getConnections k s)) (Inr (active_connections s ! i))) +
         calls_until (length (active_connections s)) i (connection_index s)"
  using assms
proof (induction k arbitrary: s)
  case 0
  then show ?case by simp
next
  case (Suc k)
  let ?n = "length (active_connections s)"
  let ?p = "next_index ?n (connection_index s)"
  let ?s1 = "s\<lparr>connection_index := ?p\<rparr>"
  have ne: "active_connections s \<noteq> []" using Suc.prems(1) by auto
  have st: "getConnection s = (Inr (active_connections s ! nat ?p), ?s1)"
    using ne Suc.prems(2) by (rule getConnection_step)
  note cu = calls_until_next [OF Suc.prems(1) Suc.prems(2)]
  have ih: "active_connections (snd (getConnections k ?s1)) = active_connections s \<and>
         -1 \<le> connection_index (snd (getConnections k ?s1)) \<and>
         int k + calls_until ?n i (connection_index (snd (getConnections k ?s1))) =
         int ?n * int (count_list (fst (getConnections k ?s1)) (Inr (active_connections s ! i))) +
         calls_until ?n i ?p"
    using Suc.IH [of ?s1] Suc.prems cu(3) by simp
  have hit: "active_connections s ! nat ?p = active_connections s ! i \<longleftrightarrow> ?p = int i"
    using Suc.prems(1,3) cu(3,4) by (auto simp: nth_eq_iff_index_eq)
  show ?case
  proof (cases "calls_until ?n i (connection_index s) = 0")
    case True
    then have "?p = int i" using cu(1) by simp
    then show ?thesis using ih True cu(2) hit st
      by (simp add: split_beta algebra_simps)
  next
    case False
    then have "?p \<noteq> int i" using cu(1) by simp
    then show ?thesis using ih False cu(2) hit st
      by (simp add: split_beta algebra_simps)
  qed
qed


text \<open>
  C4.  \<open>getConnection\<close> fails with \<open>NoConnectedServersError\<close> exactly
  when the active list is empty.  Otherwise (the cursor is never below its
  initial value \<open>-1\<close>) it advances the cursor by one, resets it to \<open>0\<close>
  when it reaches or passes the length of the active list, and returns the
  active connection at the new cursor.  Hence \<open>k\<close> consecutive calls on
  \<open>n\<close> distinct active connections leave the list as it is and return each
  connection \<open>\<lfloor>k/n\<rfloor>\<close> or \<open>\<lceil>k/n\<rceil>\<close> times.
\<close>

theorem getConnection_round_robin:
  "(fst (getConnection s) = Inl NoConnectedServersError \<longleftrightarrow> active_connections s = []) \<and>
   (active_connections s \<noteq> [] \<and> -1 \<le> connection_index s \<longrightarrow>
      getConnection s =
        (Inr (active_connections s !
               nat (next_index (length (active_connections s)) (connection_index s))),
         s\<lparr>connection_index :=
              next_index (length (active_connections s)) (connection_index s)\<rparr>)) \<and>
   (-1 \<le> connection_index s \<and> distinct (active_connections s) \<and>
    c \<in> set (active_connections s) \<longrightarrow>
      active_connections (snd (getConnections k s)) = active_connections s \<and>
      (count_list (fst (getConnections k s)) (Inr c) = k div length (active_connections s) \<or>
       count_list (fst (getConnections k s)) (Inr c) =
         (k + length (active_connections s) - 1) div length (active_connections s)))"
proof (intro conjI impI)
  show "fst (getConnection s) = Inl NoConnectedServersError \<longleftrightarrow> active_connections s = []"
    by (rule getConnection_empty)
next
  assume "active_connections s \<noteq> [] \<and> -1 \<le> connection_index s"
  then show "getConnection s =
        (Inr (active_connections s !
               nat (next_index (length (active_connections s)) (connection_index s))),
         s\<lparr>connection_index :=
              next_index (length (active_connections s)) (connection_index s)\<rparr>)"
    by (simp add: getConnection_step)
next
  assume a: "-1 \<le> connection_index s \<and> distinct (active_connections s) \<and>
    c \<in> set (active_connections s)"
  then obtain i where i: "i < length (active_connections s)" "active_connections s ! i = c"
    by (auto simp: in_set_conv_nth)
  note run = getConnections_run [of i s k, OF i(1)]
  show "active_connections (snd (getConnections k s)) = active_connections s"
    using run a by simp
  let ?n = "length (active_connections s)"
  let ?f = "count_list (fst (getConnections k s)) (Inr c)"
  let ?e0 = "calls_until ?n i (connection_index s)"
  let ?ek = "calls_until ?n i (connection_index (snd (getConnections k s)))"
  have eq: "int k + ?ek = int ?n * int ?f + ?e0" and fin: "-1 \<le> connection_index (snd (getConnections k s))"
    using run a i(2) by simp_all
  have r0: "0 \<le> ?e0 \<and> ?e0 < int ?n" using calls_until_range [OF i(1)] a by simp
  have rk: "0 \<le> ?ek \<and> ?ek < int ?n" using calls_until_range [OF i(1) fin] by simp
  have "?n * ?f + nat ?e0 = k + nat ?ek"
  proof -
    have "int (?n * ?f + nat ?e0) = int (k + nat ?ek)" using eq r0 rk by simp
    then show ?thesis by (simp only: int_int_eq)
  qed
  moreover have "nat ?e0 < ?n" using r0 by linarith
  moreover have "nat ?ek < ?n" using rk by linarith
  ultimately show "?f = k div ?n \<or> ?f = (k + ?n - 1) div ?n"
    by (rule round_robin_count)
qed

text \<open>Seven calls on a fresh client with the three active connections 4, 5, 6.\<close>

theorem getConnection_round_robin_witness:
  "-1 \<le> connection_index ((BaseClientServer_init None)\<lparr>active_connections := [4, 5, 6]\<rparr>) \<and>
   fst (getConnection ((BaseClientServer_init None)\<lparr>active_connections := [4, 5, 6]\<rparr>)) = Inr 4 \<and>
   connection_index
     (snd (getConnection ((BaseClientServer_init None)\<lparr>active_connections := [4, 5, 6]\<rparr>))) = 0 \<and>
   fst (getConnections 7 ((BaseClientServer_init None)\<lparr>active_connections := [4, 5, 6]\<rparr>)) =
     [Inr 4, Inr 5, Inr 6, Inr 4, Inr 5, Inr 6, Inr 4] \<and>
   count_list
     (fst (getConnections 7 ((BaseClientServer_init None)\<lparr>active_connections := [4, 5, 6]\<rparr>)))
     (Inr 5) = 7 div 3"
proof -
  let ?s = "(BaseClientServer_init None)\<lparr>active_connections := [4, 5, 6]\<rparr>"
  have h: "-1 \<le> connection_index ?s" "distinct (active_connections ?s)"
    "5 \<in> set (active_connections ?s)" "active_connections ?s \<noteq> []"
    by (simp_all add: BaseClientServer_init_def)
  have n: "next_index (length (active_connections ?s)) (connection_index ?s) = 0"
    by (simp add: BaseClientServer_init_def next_index_def)
  have run: "fst (getConnections 7 ?s) = [Inr 4, Inr 5, Inr 6, Inr 4, Inr 5, Inr 6, Inr 4]"
    by (simp add: eval_nat_numeral getConnection_def getitem_def BaseClientServer_init_def Let_def)
  show ?thesis
    using h n run getConnection_round_robin [of ?s 5 7]
    by simp
qed

section \<open>The wire codec: encoding and reading back\<close>

lemma d2: fixes u :: int shows "u div 2 ^ 16 = u div 256 div 256"
  by (simp add: zdiv_zmult2_eq [symmetric])
lemma d3: fixes u :: int shows "u div 2 ^ 24 = u div 256 div 256 div 256" 
  by (simp add: zdiv_zmult2_eq [symmetric])

lemma be32: 
  fixes u :: int
  assumes "0 \<le> u" "u < 2 ^ 32"
  shows "(u div 2 ^ 24) mod 256 * 2 ^ 24 + (u div 2 ^ 16) mod 256 * 2 ^ 16 + (u div 2 ^ 8) mod 256 * 2 ^ 8 + u mod 256 = u"
proof -
  define q1 where "q1 = u div 256"
  define q2 where "q2 = q1 div 256"
  define q3 where "q3 = q2 div 256"
  define a0 where "a0 = u mod 256"
  define a1 where "a1 = q1 mod 256"
  define a2 where "a2 = q2 mod 256"
  have e1: "u = q1 * 256 + a0" by (simp add: q1_def a0_def)
  have e2: "q1 = q2 * 256 + a1" by (simp add: q2_def a1_def)
  have e3: "q2 = q3 * 256 + a2" by (simp add: q3_def a2_def)
  have dd2: "u div 2 ^ 16 = q2" unfolding q2_def q1_def by (rule d2)
  have dd3: "u div 2 ^ 24 = q3" unfolding q3_def q2_def q1_def by (rule d3)
  have dd1: "u div 2 ^ 8 = q1" unfolding q1_def by simp
  have "u div 2 ^ 24 < 256" using assms by simp
  then have "q3 < 256" unfolding dd3 .
  moreover have "0 \<le> u div 2 ^ 24" using assms by simp
  then have "0 \<le> q3" unfolding dd3 .
  ultimately have m3: "q3 mod 256 = q3" by simp
  have "q3 * 16777216 + a2 * 65536 + a1 * 256 + a0 = u"
    using e1 e2 e3 by linarith
  then have "q3 * 2 ^ 24 + a2 * 2 ^ 16 + a1 * 2 ^ 8 + a0 = u" by simp
  then show ?thesis unfolding dd1 dd2 dd3 m3 a0_def a1_def a2_def .
qed

lemma signed32:
  fixes x :: int
  assumes "- (2 ^ 31) \<le> x" "x < 2 ^ 31"
  shows "(if x mod 2 ^ 32 \<ge> 2 ^ 31 then x mod 2 ^ 32 - 2 ^ 32 else x mod 2 ^ 32) = x"
proof (cases "0 \<le> x")
  case True
  then have "x mod 2 ^ 32 = x" using assms by simp
  then show ?thesis using assms by simp
next
  case False
  have p: "0 \<le> x + 2 ^ 32" "x + 2 ^ 32 < 2 ^ 32" using assms False by simp_all
  have "(x + 2 ^ 32) mod 2 ^ 32 = x + 2 ^ 32" using p by (rule mod_pos_pos_trivial)
  moreover have "(x + 2 ^ 32) mod 2 ^ 32 = x mod 2 ^ 32" by (rule mod_add_self2)
  ultimately have "x mod 2 ^ 32 = x + 2 ^ 32" by simp
  then show ?thesis using False assms by simp
qed

lemma uint_byte_mod: "uint (word_of_int v :: 8 word) = v mod 256"
  by (simp add: uint_word_of_int take_bit_eq_mod)

lemma unpack_i_pack_i:
  assumes "pack_i x = Inr b"
  shows "unpack_i b = x" and "length b = 4"
proof -
  have r: "- (2 ^ 31) \<le> x" "x < 2 ^ 31" using assms by (auto simp: pack_i_def split: if_splits)
  define u where "u = x mod 2 ^ 32"
  have u: "0 \<le> u" "u < 2 ^ 32" by (simp_all add: u_def)
  have b: "b = [word_of_int (u div 2 ^ 24), word_of_int (u div 2 ^ 16),
                   word_of_int (u div 2 ^ 8), word_of_int u]"
    using assms r by (simp add: pack_i_def u_def Let_def)
  show "length b = 4" by (simp add: b)
  have s: "uint (b ! 0) * 2 ^ 24 + uint (b ! 1) * 2 ^ 16 + uint (b ! 2) * 2 ^ 8 + uint (b ! 3) = u"
    unfolding b using be32 [OF u] by (simp only: nth_Cons_0 nth_Cons_Suc One_nat_def numeral_2_eq_2 numeral_3_eq_3 uint_byte_mod)
  have "(if u \<ge> 2 ^ 31 then u - 2 ^ 32 else u) = x"
    unfolding u_def using r by (rule signed32)
  then show "unpack_i b = x" unfolding unpack_i_def Let_def s .
qed


lemma slice_nat:
  "slice xs (int i) (int j) = take (min (length xs) j - min (length xs) i) (drop (min (length xs) i) xs)"
  by (simp add: slice_def slice_index_def)

lemma slice_from_int: "slice_from xs (int i) = drop i xs"
  by (simp add: slice_from_def slice_index_def min_def)

lemma append_eq_longer:
  assumes "raw @ X = b @ Y" and "length b \<le> length raw"
  shows "raw = b @ drop (length b) raw" and "drop (length b) raw @ X = Y"
proof -
  have "take (length b) (raw @ X) = b" using assms(1) by simp
  then have t: "take (length b) raw = b" using assms(2) by simp
  show r: "raw = b @ drop (length b) raw"
    using append_take_drop_id [of "length b" raw] t by simp
  have "b @ drop (length b) raw @ X = b @ Y" using assms(1) r by (metis append.assoc)
  then show "drop (length b) raw @ X = Y" by simp
qed

lemma toBinary_layout:
  assumes "toBinary p = Inr b" and "length (code p) = 4"
  shows "\<exists>t l. b = code p @ t @ l @ packet.data p \<and> length t = 4 \<and> length l = 4 \<and>
               unpack_i t = ptype p \<and> unpack_i l = int (length (packet.data p))"
proof -
  obtain t where t: "pack_i (ptype p) = Inr t"
    using assms(1) by (auto simp: toBinary_def split: sum.splits)
  obtain l where l: "pack_i (int (length (packet.data p))) = Inr l"
    using assms(1) t by (auto simp: toBinary_def split: sum.splits)
  have "b = pack_4s (code p) @ t @ l @ packet.data p"
    using assms(1) t l by (simp add: toBinary_def)
  moreover have "pack_4s (code p) = code p" using assms(2) by (simp add: pack_4s_def)
  ultimately show ?thesis
    using unpack_i_pack_i [OF t] unpack_i_pack_i [OF l] by auto
qed

lemma frame_header:
  assumes "length c4 = 4" "length t = 4" "length l = 4"
  shows "slice (c4 @ t @ l @ tail) 0 4 = c4"
    and "slice (c4 @ t @ l @ tail) 4 8 = t"
    and "slice (c4 @ t @ l @ tail) 8 12 = l"
  using assms slice_nat [of "c4 @ t @ l @ tail" 0 4] slice_nat [of "c4 @ t @ l @ tail" 4 8]
    slice_nat [of "c4 @ t @ l @ tail" 8 12]
  by simp_all




lemma frame_packet:
  assumes enc: "toBinary p = Inr b" and c4: "length (code p) = 4"
    and nul: "slice (code p) 0 1 = [0]"
    and stream: "l_raw_bytes L @ X = b @ Y"
    and adm: "l_admin L = Some False" and hs: "header_state p L"
  shows "length b \<le> length (l_raw_bytes L) \<longrightarrow>
           (\<exists>L'. frame cid L self = Inl (ReturnPacket (p\<lparr>packet.connection := Some cid\<rparr>), L', self) \<and>
                 l_raw_bytes L' = drop (length b) (l_raw_bytes L) \<and>
                 l_need_bytes L' = l_need_bytes L)"
    and "length (l_raw_bytes L) < length b \<longrightarrow>
           (\<exists>L'. frame cid L self = Inr (L', self) \<and> l_admin L' = Some False \<and>
                 l_need_bytes L' \<and> l_raw_bytes L' = l_raw_bytes L \<and> header_state p L')"
proof -
  obtain t l where lay: "b = code p @ t @ l @ packet.data p" "length t = 4" "length l = 4"
      "unpack_i t = ptype p" "unpack_i l = int (length (packet.data p))"
    using toBinary_layout [OF enc c4] by blast
  define raw where "raw = l_raw_bytes L"
  have lb: "length b = 12 + length (packet.data p)" using lay c4 by simp
  define L1 where "L1 = (if l_code L = None \<and> int (length raw) \<ge> 12
                  then L\<lparr>l_code := Some (slice raw 0 4),
                         l_ptype := Some (unpack_i (slice raw 4 8)),
                         l_datalen := unpack_i (slice raw 8 12)\<rparr>
                  else L)"
  have fr: "frame cid L self =
      (if int (length raw) \<ge> l_datalen L1 + 12
           then let end_index = 12 + l_datalen L1
                in (case (l_code L1, l_ptype L1) of
                      (Some c, Some t) \<Rightarrow>
                        (case Packet c t (slice (l_raw_bytes L1) 12 end_index) (Some cid) of
                           Inl e \<Rightarrow> Inl (Raise e, L1, self)
                         | Inr p \<Rightarrow>
                             Inl (ReturnPacket p,
                                  L1\<lparr>l_raw_bytes := slice_from (l_raw_bytes L1) end_index\<rparr>, self))
                    | _ \<Rightarrow> Inl (Raise AttributeError, L1, self))
           else Inr (L1\<lparr>l_need_bytes := True\<rparr>, self))"
    unfolding frame_def L1_def raw_def using adm by (simp add: Let_def)
  have L1_raw: "l_raw_bytes L1 = raw" "l_need_bytes L1 = l_need_bytes L" "l_admin L1 = Some False"
    unfolding L1_def raw_def using adm by simp_all
  have hdr: "length raw \<ge> 12 \<Longrightarrow> header_state p L1 \<and> l_code L1 = Some (code p) \<and>
                l_ptype L1 = Some (ptype p) \<and> l_datalen L1 = int (length (packet.data p))"
  proof -
    assume ge: "length raw \<ge> 12"
    have "take 12 (raw @ X) = take 12 (b @ Y)" using stream raw_def by simp
    then have "take 12 raw = code p @ t @ l" using ge lay c4 by simp
    then have "raw = code p @ t @ l @ drop 12 raw"
      using append_take_drop_id [of 12 raw] by simp
    then obtain tail where r: "raw = code p @ t @ l @ tail" by blast
    have h: "slice raw 0 4 = code p" "slice raw 4 8 = t" "slice raw 8 12 = l"
      unfolding r using frame_header [OF c4 lay(2) lay(3)] by simp_all
    show ?thesis
      using hs ge unfolding L1_def h header_state_def lay(4) lay(5) by auto
  qed
  have nohdr: "length raw < 12 \<Longrightarrow> L1 = L" unfolding L1_def by simp
  show "length b \<le> length (l_raw_bytes L) \<longrightarrow>
           (\<exists>L'. frame cid L self = Inl (ReturnPacket (p\<lparr>packet.connection := Some cid\<rparr>), L', self) \<and>
                 l_raw_bytes L' = drop (length b) (l_raw_bytes L) \<and>
                 l_need_bytes L' = l_need_bytes L)"
  proof
    assume le: "length b \<le> length (l_raw_bytes L)"
    then have ge: "length raw \<ge> 12" using lb raw_def by simp
    note k = hdr [OF ge]
    have rb: "raw = b @ drop (length b) raw"
      using append_eq_longer(1) [OF stream le] raw_def by simp
    have ge2: "int (length raw) \<ge> l_datalen L1 + 12" using k le lb raw_def by simp
    have e: "12 + l_datalen L1 = int (length b)" using k lb by simp
    have sl: "slice raw 12 (int (length b)) = packet.data p"
    proof -
      have "slice raw (int 12) (int (length b)) = take (length b - 12) (drop 12 raw)"
        unfolding slice_nat using le raw_def lb by (simp add: min_def)
      also have "\<dots> = packet.data p"
        by (subst rb) (simp add: lay c4 lb)
      finally show ?thesis by simp
    qed
    have pk: "Packet (code p) (ptype p) (packet.data p) (Some cid) =
                Inr (p\<lparr>packet.connection := Some cid\<rparr>)"
      using nul by (simp add: Packet_def)
    have ib: "12 + int (length (packet.data p)) = int (length b)" using lb by simp
    have sl': "slice (l_raw_bytes L) 12 (12 + int (length (packet.data p))) = packet.data p"
      unfolding ib using sl raw_def by simp
    have sf': "slice_from (l_raw_bytes L) (12 + int (length (packet.data p))) =
                 drop (length b) (l_raw_bytes L)"
      unfolding ib by (rule slice_from_int)
    show "\<exists>L'. frame cid L self = Inl (ReturnPacket (p\<lparr>packet.connection := Some cid\<rparr>), L', self) \<and>
                 l_raw_bytes L' = drop (length b) (l_raw_bytes L) \<and>
                 l_need_bytes L' = l_need_bytes L"
      unfolding fr using ge2 k L1_raw
      by (simp add: Let_def sl' sf' pk raw_def)
  qed
  show "length (l_raw_bytes L) < length b \<longrightarrow>
           (\<exists>L'. frame cid L self = Inr (L', self) \<and> l_admin L' = Some False \<and>
                 l_need_bytes L' \<and> l_raw_bytes L' = l_raw_bytes L \<and> header_state p L')"
  proof
    assume lt: "length (l_raw_bytes L) < length b"
    have hs1: "header_state p L1"
    proof (cases "length raw \<ge> 12")
      case True then show ?thesis using hdr by simp
    next
      case False then show ?thesis using nohdr hs by simp
    qed
    have dl: "\<not> int (length raw) \<ge> l_datalen L1 + 12"
    proof (cases "length raw \<ge> 12")
      case True then show ?thesis using hdr lt lb raw_def by simp
    next
      case False
      then have "L1 = L" using nohdr by simp
      then show ?thesis using False hs lt lb raw_def by (auto simp: header_state_def)
    qed
    show "\<exists>L'. frame cid L self = Inr (L', self) \<and> l_admin L' = Some False \<and>
                 l_need_bytes L' \<and> l_raw_bytes L' = l_raw_bytes L \<and> header_state p L'"
      unfolding fr using dl hs1 L1_raw by (simp add: header_state_def raw_def)
  qed
qed


lemma read_iteration_packet:
  assumes enc: "toBinary p = Inr b" and c4: "length (code p) = 4"
    and nul: "slice (code p) 0 1 = [0]"
    and stream: "l_raw_bytes L @ concat segs = b @ rest"
    and ne: "[] \<notin> set segs" and sock: "sock_in self = map Recv segs"
    and ls: "loop_state p b L"
  shows "\<exists>L' segs'. [] \<notin> set segs' \<and>
           (read_iteration cid L self =
              Inl (ReturnPacket (p\<lparr>packet.connection := Some cid\<rparr>), L',
                   self\<lparr>sock_in := map Recv segs'\<rparr>) \<and>
            \<not> l_need_bytes L' \<and> l_raw_bytes L' @ concat segs' = rest
            \<or>
            read_iteration cid L self = Inr (L', self\<lparr>sock_in := map Recv segs'\<rparr>) \<and>
            loop_state p b L' \<and> l_raw_bytes L' @ concat segs' = b @ rest)"
proof -
  obtain t l where lay: "b = code p @ t @ l @ packet.data p" "length t = 4" "length l = 4"
    using toBinary_layout [OF enc c4] by blast
  have lb: "length b \<ge> 12" using lay c4 by simp
  \<comment> \<open>first part: more bytes are read when needed\<close>
  have "\<exists>L1 segs1. read_more L self = Inr (L1, self\<lparr>sock_in := map Recv segs1\<rparr>) \<and>
          [] \<notin> set segs1 \<and> l_raw_bytes L1 @ concat segs1 = b @ rest \<and>
          l_raw_bytes L1 \<noteq> [] \<and> \<not> l_need_bytes L1 \<and>
          l_admin L1 = l_admin L \<and> l_code L1 = l_code L \<and> l_ptype L1 = l_ptype L \<and>
          l_datalen L1 = l_datalen L"
  proof (cases "l_raw_bytes L = [] \<or> l_need_bytes L")
    case True
    have short: "length (l_raw_bytes L) < length b"
      using True ls lb by (auto simp: loop_state_def)
    have "concat segs \<noteq> []"
    proof
      assume e: "concat segs = []"
      have "l_raw_bytes L = b @ rest" using stream unfolding e by simp
      then show False using short by simp
    qed
    then obtain sg segs1 where sg: "segs = sg # segs1" by (cases segs) auto
    have sgne: "sg \<noteq> []" using ne sg by auto
    have rr: "readRawBytes self = (Inr sg, self\<lparr>sock_in := map Recv segs1\<rparr>)"
      using sock sg by (simp add: readRawBytes_def)
    show ?thesis
      apply (rule exI [of _ "L\<lparr>l_raw_bytes := l_raw_bytes L @ sg, l_need_bytes := False\<rparr>"])
      apply (rule exI [of _ segs1])
      using True rr sgne ne sg stream by (simp add: read_more_def)
  next
    case False
    have "self\<lparr>sock_in := map Recv segs\<rparr> = self" using sock by simp
    then show ?thesis
      apply (intro exI [of _ L] exI [of _ segs])
      using False ne stream by (simp add: read_more_def)
  qed
  then obtain L1 segs1 where
    rm: "read_more L self = Inr (L1, self\<lparr>sock_in := map Recv segs1\<rparr>)"
    and ne1: "[] \<notin> set segs1" and stream1: "l_raw_bytes L1 @ concat segs1 = b @ rest"
    and raw1: "l_raw_bytes L1 \<noteq> []" and need1: "\<not> l_need_bytes L1"
    and same1: "l_admin L1 = l_admin L" "l_code L1 = l_code L" "l_ptype L1 = l_ptype L"
       "l_datalen L1 = l_datalen L"
    by blast
  let ?self1 = "self\<lparr>sock_in := map Recv segs1\<rparr>"
  \<comment> \<open>second part: the first byte is NUL, so a packet is framed\<close>
  have "take 1 (l_raw_bytes L1 @ concat segs1) = take 1 (b @ rest)" using stream1 by simp
  then have "take 1 (l_raw_bytes L1) = take 1 b" using raw1 lb
    by (cases "l_raw_bytes L1"; cases b) auto
  moreover have "take 1 b = take 1 (code p)" using lay c4 by (cases "code p") auto
  moreover have "slice (code p) 0 1 = take 1 (code p)"
    using slice_nat [of "code p" 0 1] c4 by simp
  moreover have "slice (l_raw_bytes L1) 0 1 = take 1 (l_raw_bytes L1)"
    using slice_nat [of "l_raw_bytes L1" 0 1] raw1 by (cases "l_raw_bytes L1") auto
  ultimately have first: "slice (l_raw_bytes L1) 0 1 = [0]" using nul by simp
  define L2 where "L2 = (if l_admin L1 = None then L1\<lparr>l_admin := Some False\<rparr> else L1)"
  have cf: "choose_framing L1 ?self1 = Inr (L2, ?self1)"
    using first by (simp add: choose_framing_def L2_def)
  have adm2: "l_admin L2 = Some False"
    using ls same1 by (auto simp: L2_def loop_state_def)
  have same2: "l_raw_bytes L2 = l_raw_bytes L1" "l_need_bytes L2 = l_need_bytes L1"
      "l_code L2 = l_code L1" "l_ptype L2 = l_ptype L1" "l_datalen L2 = l_datalen L1"
    by (simp_all add: L2_def)
  have hs2: "header_state p L2"
    using ls same1 same2 by (auto simp: loop_state_def header_state_def)
  have stream2: "l_raw_bytes L2 @ concat segs1 = b @ rest" using stream1 same2 by simp
  have ri: "read_iteration cid L self = frame cid L2 ?self1"
    using rm cf by (simp add: read_iteration_def)
  note fp = frame_packet [OF enc c4 nul stream2 adm2 hs2, of cid ?self1]
  \<comment> \<open>third part\<close>
  show ?thesis
  proof (cases "length b \<le> length (l_raw_bytes L2)")
    case True
    then obtain L' where f: "frame cid L2 ?self1 =
        Inl (ReturnPacket (p\<lparr>packet.connection := Some cid\<rparr>), L', ?self1)"
      and r': "l_raw_bytes L' = drop (length b) (l_raw_bytes L2)"
      and n': "l_need_bytes L' = l_need_bytes L2"
      using fp(1) by blast
    have "l_raw_bytes L' @ concat segs1 = rest"
      unfolding r' using append_eq_longer(2) [OF stream2 True] .
    then show ?thesis
      using ne1 ri f n' same2 need1
      by (intro exI [of _ L'] exI [of _ segs1]) simp
  next
    case False
    then have lt: "length (l_raw_bytes L2) < length b" by simp
    then obtain L' where f: "frame cid L2 ?self1 = Inr (L', ?self1)"
      and p': "l_admin L' = Some False" "l_need_bytes L'" "l_raw_bytes L' = l_raw_bytes L2"
        "header_state p L'"
      using fp(2) by blast
    have "loop_state p b L'" using p' lt by (simp add: loop_state_def)
    moreover have "l_raw_bytes L' @ concat segs1 = b @ rest" using p' stream2 by simp
    ultimately show ?thesis using ne1 ri f
      by (intro exI [of _ L'] exI [of _ segs1]) simp
  qed
qed


lemma readPacket_loop_packet:
  assumes enc: "toBinary p = Inr b" and c4: "length (code p) = 4"
    and nul: "slice (code p) 0 1 = [0]"
  shows "l_raw_bytes L @ concat segs = b @ rest \<Longrightarrow> [] \<notin> set segs \<Longrightarrow>
         sock_in self = map Recv segs \<Longrightarrow> loop_state p b L \<Longrightarrow>
         \<exists>raw' segs'. [] \<notin> set segs' \<and> raw' @ concat segs' = rest \<and>
           readPacket_loop cid L self =
             (ReturnPacket (p\<lparr>packet.connection := Some cid\<rparr>),
              self\<lparr>sock_in := map Recv segs', input_buffer := raw', need_bytes := False\<rparr>)"
proof (induction cid L self arbitrary: segs rule: readPacket_loop.induct)
  case (1 cid L self)
  obtain L' segs' where ne': "[] \<notin> set segs'" and
    alt: "read_iteration cid L self =
              Inl (ReturnPacket (p\<lparr>packet.connection := Some cid\<rparr>), L',
                   self\<lparr>sock_in := map Recv segs'\<rparr>) \<and>
            \<not> l_need_bytes L' \<and> l_raw_bytes L' @ concat segs' = rest
            \<or>
            read_iteration cid L self = Inr (L', self\<lparr>sock_in := map Recv segs'\<rparr>) \<and>
            loop_state p b L' \<and> l_raw_bytes L' @ concat segs' = b @ rest"
    using read_iteration_packet [OF enc c4 nul "1.prems"(1) "1.prems"(2) "1.prems"(3) "1.prems"(4), of cid]
    by blast
  from alt show ?case
  proof
    assume a: "read_iteration cid L self =
              Inl (ReturnPacket (p\<lparr>packet.connection := Some cid\<rparr>), L',
                   self\<lparr>sock_in := map Recv segs'\<rparr>) \<and>
            \<not> l_need_bytes L' \<and> l_raw_bytes L' @ concat segs' = rest"
    show ?case
      apply (intro exI [of _ "l_raw_bytes L'"] exI [of _ segs'])
      apply (subst readPacket_loop.simps)
      using a ne' by simp
  next
    assume a: "read_iteration cid L self = Inr (L', self\<lparr>sock_in := map Recv segs'\<rparr>) \<and>
            loop_state p b L' \<and> l_raw_bytes L' @ concat segs' = b @ rest"
    let ?self1 = "self\<lparr>sock_in := map Recv segs'\<rparr>"
    have "\<exists>raw' segs''. [] \<notin> set segs'' \<and> raw' @ concat segs'' = rest \<and>
           readPacket_loop cid L' ?self1 =
             (ReturnPacket (p\<lparr>packet.connection := Some cid\<rparr>),
              ?self1\<lparr>sock_in := map Recv segs'', input_buffer := raw', need_bytes := False\<rparr>)"
      using a ne' by (intro "1.IH" [of "(L', ?self1)" L' ?self1 segs']) simp_all
    then obtain raw' segs'' where r: "[] \<notin> set segs''" "raw' @ concat segs'' = rest"
      "readPacket_loop cid L' ?self1 =
             (ReturnPacket (p\<lparr>packet.connection := Some cid\<rparr>),
              ?self1\<lparr>sock_in := map Recv segs'', input_buffer := raw', need_bytes := False\<rparr>)"
      by blast
    show ?case
      apply (intro exI [of _ raw'] exI [of _ segs''])
      apply (subst readPacket_loop.simps)
      using a r by simp
  qed
qed

lemma readPacket_packet:
  assumes enc: "toBinary p = Inr b" and c4: "length (code p) = 4"
    and nul: "slice (code p) 0 1 = [0]"
    and stream: "input_buffer self @ concat segs = b @ rest"
    and ne: "[] \<notin> set segs" and sock: "sock_in self = map Recv segs"
    and need: "\<not> need_bytes self"
  shows "\<exists>raw' segs'. [] \<notin> set segs' \<and> raw' @ concat segs' = rest \<and>
           readPacket cid self =
             (ReturnPacket (p\<lparr>packet.connection := Some cid\<rparr>),
              self\<lparr>sock_in := map Recv segs', input_buffer := raw', need_bytes := False\<rparr>)"
  unfolding readPacket_def
  using stream ne sock need
  by (intro readPacket_loop_packet [OF enc c4 nul]) (simp_all add: loop_state_def)




text \<open>The two magic codes of the protocol have this form.\<close>

lemma magic_codes:
  "length REQ = 4 \<and> slice REQ 0 1 = [0] \<and> length RES = 4 \<and> slice RES 0 1 = [0]"
  by (simp add: REQ_def RES_def slice_def slice_index_def)

text \<open>
  A remark on the width of the code field.  The wire format has four bytes
  for the magic code, and \<open>toBinary\<close> pads a shorter code with NUL bytes:
  the constructor accepts \<open>Packet(b'\x00', 1, b'')\<close>, which is no packet of
  the protocol, and what is read back from its encoding has the code
  \<open>\x00\x00\x00\x00\<close>.
\<close>

lemma short_code_padded:
  "Packet [0] 1 [] None = Inr \<lparr>code = [0], ptype = 1, packet.data = [], packet.connection = None\<rparr> \<and>
   toBinary \<lparr>code = [0], ptype = 1, packet.data = [], packet.connection = None\<rparr> =
     Inr [0, 0, 0, 0, 0, 0, 0, 1, 0, 0, 0, 0] \<and>
   fst (readPacket 7 ((Connection_init [] 0)\<lparr>sock_in :=
          [Recv [0, 0, 0, 0, 0, 0, 0, 1, 0, 0, 0, 0]]\<rparr>)) =
     ReturnPacket \<lparr>code = [0, 0, 0, 0], ptype = 1, packet.data = [],
                   packet.connection = Some 7\<rparr> \<and>
   \<not> packet_eq \<lparr>code = [0, 0, 0, 0], ptype = 1, packet.data = [],
                  packet.connection = Some 7\<rparr>
                \<lparr>code = [0], ptype = 1, packet.data = [], packet.connection = None\<rparr>"
proof -
  have p: "toBinary \<lparr>code = [0, 0, 0, 0], ptype = 1, packet.data = [], packet.connection = None\<rparr> =
     Inr [0, 0, 0, 0, 0, 0, 0, 1, 0, 0, 0, 0]"
    by (simp add: toBinary_def pack_i_def pack_4s_def Let_def)
  have "\<exists>raw' segs'. [] \<notin> set segs' \<and> raw' @ concat segs' = [] \<and>
           readPacket 7 ((Connection_init [] 0)\<lparr>sock_in :=
               map Recv [[0, 0, 0, 0, 0, 0, 0, 1, 0, 0, 0, 0]]\<rparr>) =
             (ReturnPacket (\<lparr>code = [0, 0, 0, 0], ptype = 1, packet.data = [],
                   packet.connection = None\<rparr>\<lparr>packet.connection := Some 7\<rparr>),
              ((Connection_init [] 0)\<lparr>sock_in :=
               map Recv [[0, 0, 0, 0, 0, 0, 0, 1, 0, 0, 0, 0]]\<rparr>)\<lparr>sock_in := map Recv segs', input_buffer := raw', need_bytes := False\<rparr>)"
    by (rule readPacket_packet [OF p, where segs = "[[0, 0, 0, 0, 0, 0, 0, 1, 0, 0, 0, 0]]"])
       (simp_all add: slice_def slice_index_def Connection_init_def)
  then have r: "fst (readPacket 7 ((Connection_init [] 0)\<lparr>sock_in :=
          [Recv [0, 0, 0, 0, 0, 0, 0, 1, 0, 0, 0, 0]]\<rparr>)) =
     ReturnPacket \<lparr>code = [0, 0, 0, 0], ptype = 1, packet.data = [],
                   packet.connection = Some 7\<rparr>"
    by auto
  have q: "pack_4s [0] = [0, 0, 0, 0]" by (simp add: pack_4s_def eval_nat_numeral)
  show ?thesis
    using r by (simp add: Packet_def slice_def slice_index_def toBinary_def pack_i_def
                  q Let_def packet_eq_def)
qed

section \<open>Echo\<close>

lemma handleEchoRes_registry:
  "echo_conditions (snd (handleEchoRes self r)) = (echo_conditions self)(r := None)"
  by (auto simp: handleEchoRes_def split: option.splits)

lemma poll_echo_registry:
  "d \<in> dom (echo_conditions (poll_echo self rs)) \<longleftrightarrow>
     d \<in> dom (echo_conditions self) \<and> d \<notin> set rs"
  by (induction rs arbitrary: self) (auto simp: handleEchoRes_registry)

lemma echo_duplicate:
  "d \<in> dom (echo_conditions self) \<Longrightarrow>
     echo K self (Some d) u replies = (Inl InvalidDataError, self)"
  by (simp add: echo_def)

lemma sendEchoReq_registry:
  "echo_conditions (snd (sendEchoReq K self d)) = echo_conditions self"
  by (auto simp: sendEchoReq_def Connection_sendPacket_def sendRaw_def
           split: sum.splits)

text \<open>
  C1.  The outcome of \<open>echo\<close> is the reverse of what its documentation
  promises.  For a payload that no waiter is registered for, once the
  ECHO_REQ has been sent: if an ECHO_RES with the payload is handled while
  \<open>echo\<close> waits, the registry entry is removed and \<open>echo\<close> raises
  \<open>TimeoutError\<close>; if none is handled before the timeout, \<open>echo\<close> returns
  the payload and the registry still contains it.
\<close>

theorem echo_result_reversed:
  assumes "d \<notin> dom (echo_conditions self)"
    and "fst (sendEchoReq K (self\<lparr>echo_conditions := (echo_conditions self)(d \<mapsto> Condition)\<rparr>) d)
           = Inr ()"
  shows "(d \<in> set replies \<longrightarrow>
            fst (echo K self (Some d) u replies) = Inl TimeoutError \<and>
            d \<notin> dom (echo_conditions (snd (echo K self (Some d) u replies)))) \<and>
         (d \<notin> set replies \<longrightarrow>
            fst (echo K self (Some d) u replies) = Inr d \<and>
            d \<in> dom (echo_conditions (snd (echo K self (Some d) u replies))))"
proof -
  let ?self1 = "self\<lparr>echo_conditions := (echo_conditions self)(d \<mapsto> Condition)\<rparr>"
  obtain self2 where s: "sendEchoReq K ?self1 d = (Inr (), self2)"
    using assms(2) by (cases "sendEchoReq K ?self1 d") auto
  have "echo_conditions self2 = echo_conditions ?self1"
    using sendEchoReq_registry [of K ?self1 d] s by simp
  then have reg: "d \<in> dom (echo_conditions (poll_echo self2 replies)) \<longleftrightarrow> d \<notin> set replies"
    by (simp add: poll_echo_registry)
  have e: "echo K self (Some d) u replies =
          (if d \<in> dom (echo_conditions (poll_echo self2 replies))
           then (Inr d, poll_echo self2 replies)
           else (Inl TimeoutError, poll_echo self2 replies))"
    using assms(1) s by (simp add: echo_def Let_def)
  show ?thesis unfolding e using reg by simp
qed

text \<open>
  \<open>echo(b'ping', timeout=1)\<close> on a connected socket, with no reply from the
  server: the call returns \<open>b'ping'\<close> instead of raising, and \<open>ping\<close> stays
  in the registry.
\<close>

theorem echo_result_reversed_witness:
  "fst (echo gearman_constants ((Connection_init [] 4730)\<lparr>connected := True\<rparr>)
          (Some [112, 105, 110, 103]) [] []) = Inr [112, 105, 110, 103] \<and>
   [112, 105, 110, 103] \<in> dom (echo_conditions
     (snd (echo gearman_constants ((Connection_init [] 4730)\<lparr>connected := True\<rparr>)
          (Some [112, 105, 110, 103]) [] [])))"
proof -
  let ?self = "(Connection_init [] 4730)\<lparr>connected := True\<rparr>"
  let ?d = "[112, 105, 110, 103] :: bytes"
  have a: "?d \<notin> dom (echo_conditions ?self)" by (simp add: Connection_init_def)
  have b: "fst (sendEchoReq gearman_constants
                 (?self\<lparr>echo_conditions := (echo_conditions ?self)(?d \<mapsto> Condition)\<rparr>) ?d)
           = Inr ()"
    by (simp add: sendEchoReq_def Packet_def REQ_def slice_def slice_index_def
          Connection_sendPacket_def toBinary_def pack_i_def sendRaw_def Connection_init_def
          gearman_constants_def
          Let_def)
  show ?thesis
    using echo_result_reversed [OF a b, of "[]" "[]"] by simp
qed

section \<open>The client: terminal responses and data chunks\<close>

lemma getJob_connection:
  "getJob self p = Inr j \<Longrightarrow> \<exists>conn. packet.connection p = Some conn"
  by (auto simp: getJob_def split: sum.splits option.splits)







lemma del_related_job_jobs: "jobs (snd (del_related_job s p j)) = jobs s"
  by (auto simp: del_related_job_def split: option.splits)







text \<open>
  C10.  When the payload of a WORK_DATA, WORK_WARNING or WORK_COMPLETE packet
  is empty after the job handle, the handler leaves the data list of every
  job as it is: no empty chunk is appended.  WORK_DATA then changes nothing
  at all; for a known job WORK_WARNING still sets the warning flag, and
  WORK_COMPLETE still sets complete and clears failure.
\<close>

theorem empty_chunk_not_appended:
  assumes "getArgument p 1 True = Inr []"
  shows "snd (handleWorkData self p) = self \<and>
         (\<forall>j'. job.data (jobs (snd (handleWorkWarning self p)) j') = job.data (jobs self j')) \<and>
         (\<forall>j'. job.data (jobs (snd (handleWorkComplete self p)) j') = job.data (jobs self j')) \<and>
         (\<forall>j. getJob self p = Inr j \<longrightarrow>
            fst (handleWorkData self p) = Inr j \<and>
            fst (handleWorkWarning self p) = Inr j \<and>
            warning (jobs (snd (handleWorkWarning self p)) j) \<and>
            complete (jobs (snd (handleWorkComplete self p)) j) \<and>
            \<not> failure (jobs (snd (handleWorkComplete self p)) j))"
proof (intro conjI allI impI)
  show "snd (handleWorkData self p) = self"
    using assms by (simp add: handleWorkData_def split: sum.splits)
  show "job.data (jobs (snd (handleWorkWarning self p)) j') = job.data (jobs self j')" for j'
    using assms by (simp add: handleWorkWarning_def update_job_def Let_def split: sum.splits)
  show "job.data (jobs (snd (handleWorkComplete self p)) j') = job.data (jobs self j')" for j'
    using assms
    by (simp add: handleWorkComplete_def del_related_job_jobs update_job_def Let_def
             split: sum.splits)
next
  fix j assume g: "getJob self p = Inr j"
  show "fst (handleWorkData self p) = Inr j"
    using assms g by (simp add: handleWorkData_def)
  show "fst (handleWorkWarning self p) = Inr j"
    using assms g by (simp add: handleWorkWarning_def Let_def)
  show "warning (jobs (snd (handleWorkWarning self p)) j)"
    using assms g by (simp add: handleWorkWarning_def update_job_def Let_def)
  show "complete (jobs (snd (handleWorkComplete self p)) j)"
    using assms g
    by (simp add: handleWorkComplete_def del_related_job_jobs update_job_def Let_def)
  show "\<not> failure (jobs (snd (handleWorkComplete self p)) j)"
    using assms g
    by (simp add: handleWorkComplete_def del_related_job_jobs update_job_def Let_def)
qed

text \<open>
  The response WORK_WARNING \<open>H:1\x00\<close> for the job in flight, whose data list
  is empty: the list stays empty and the warning flag is set.
\<close>

theorem empty_chunk_not_appended_witness:
  "getArgument \<lparr>code = RES, ptype = 29, packet.data = [72, 58, 49, 0],
                 packet.connection = Some 0\<rparr> 1 True = Inr [] \<and>
   job.data (jobs example_client 0) = [] \<and>
   job.data (jobs (snd (handleWorkWarning example_client
      \<lparr>code = RES, ptype = 29, packet.data = [72, 58, 49, 0],
       packet.connection = Some 0\<rparr>)) 0) = [] \<and>
   warning (jobs (snd (handleWorkWarning example_client
      \<lparr>code = RES, ptype = 29, packet.data = [72, 58, 49, 0],
       packet.connection = Some 0\<rparr>)) 0)"
proof -
  let ?p = "\<lparr>code = RES, ptype = 29, packet.data = [72, 58, 49, 0],
       packet.connection = Some 0\<rparr>"
  have a: "getArgument ?p 1 True = Inr []"
    by (simp add: getArgument_def slice_from_def slice_index_def)
  have g: "getJob example_client ?p = Inr 0"
    by (simp add: getJob_def getArgument_def getitem_def example_client_def)
  have d: "job.data (jobs example_client 0) = []"
    by (simp add: example_client_def Job_init_def)
  show ?thesis
    using empty_chunk_not_appended [OF a, of example_client] a g d by simp
qed

section \<open>The worker: the sleep and grab state machine\<close>

lemma Packet_REQ:
  "Packet REQ ty d None = Inr \<lparr>code = REQ, ptype = ty, packet.data = d, packet.connection = None\<rparr>"
  by (simp add: Packet_def REQ_def slice_def slice_index_def)

lemma sendPacket_ok:
  assumes "connected (conns self conn)" and "\<not> sock_fail (conns self conn)"
    and "toBinary p = Inr b"
  shows "sendPacket self p conn =
           (Inr (), self\<lparr>conns := (conns self)(conn := (conns self conn)
                      \<lparr>sock_out := sock_out (conns self conn) @ [b]\<rparr>)\<rparr>)"
  using assms
  by (simp add: sendPacket_def on_connection_def Connection_sendPacket_def sendRaw_def)

lemma sendPacket_raises:
  assumes "sock_fail (conns self conn) \<or> \<not> connected (conns self conn) \<or> (\<exists>e. toBinary p = Inl e)"
  shows "\<exists>e. sendPacket self p conn = (Inl e, lostConnection self conn)"
proof -
  have "self\<lparr>conns := (conns self)(conn := conns self conn)\<rparr> = self" by simp
  then show ?thesis
    using assms
    by (auto simp: sendPacket_def on_connection_def Connection_sendPacket_def sendRaw_def
          split: sum.splits)
qed

lemma sendPacket_worker_fields [simp]:
  "waiting_for_jobs (snd (sendPacket self p conn)) = waiting_for_jobs self"
  "job_queue (snd (sendPacket self p conn)) = job_queue self"
  by (auto simp: sendPacket_def on_connection_def lostConnection_def Let_def
        split: prod.splits sum.splits)

lemma sendGrabJobUniq_worker_fields:
  assumes "sendGrabJobUniq K self (Some conn) = (r, self1)"
  shows "waiting_for_jobs self1 = waiting_for_jobs self \<and> job_queue self1 = job_queue self"
proof -
  let ?p = "\<lparr>code = REQ, ptype = GRAB_JOB_UNIQ K, packet.data = [], packet.connection = None\<rparr>"
  have "snd (sendPacket self ?p conn) = self1"
    using assms by (simp add: sendGrabJobUniq_def Packet_REQ)
  then show ?thesis using sendPacket_worker_fields [of self ?p conn] by simp
qed

lemma updateStateMachines_loop_worker_fields:
  "waiting_for_jobs (snd (updateStateMachines_loop K self cs)) = waiting_for_jobs self \<and>
   job_queue (snd (updateStateMachines_loop K self cs)) = job_queue self"
proof (induction cs arbitrary: self)
  case Nil
  then show ?case by simp
next
  case (Cons conn cs)
  show ?case
  proof (cases "state (conns self conn) = ''IDLE'' \<and> waiting_for_jobs self > 0")
    case True
    obtain r self1 where s: "sendGrabJobUniq K self (Some conn) = (r, self1)"
      by (cases "sendGrabJobUniq K self (Some conn)")
    note f = sendGrabJobUniq_worker_fields [OF s]
    show ?thesis
    proof (cases r)
      case (Inl e)
      then show ?thesis using True s f by simp
    next
      case (Inr u)
      then show ?thesis using True s f Cons.IH by (simp add: changeState_def)
    qed
  next
    case False
    then show ?thesis using Cons.IH by (auto simp: changeState_def)
  qed
qed

text \<open>With no waiter left, the update sends nothing and leaves every active connection idle.\<close>

lemma updateStateMachines_loop_no_waiters:
  assumes "waiting_for_jobs self < 1"
  shows "fst (updateStateMachines_loop K self cs) = Inr () \<and>
         (\<forall>c. state (conns (snd (updateStateMachines_loop K self cs)) c) =
              (if c \<in> set cs then ''IDLE'' else state (conns self c))) \<and>
         (\<forall>c. sock_out (conns (snd (updateStateMachines_loop K self cs)) c) =
              sock_out (conns self c)) \<and>
         active_connections (snd (updateStateMachines_loop K self cs)) = active_connections self"
  using assms
proof (induction cs arbitrary: self)
  case Nil
  then show ?case by simp
next
  case (Cons conn cs)
  show ?case
  proof (cases "state (conns self conn) = ''IDLE''")
    case True
    have e: "updateStateMachines_loop K self (conn # cs) = updateStateMachines_loop K self cs"
      using Cons.prems True by simp
    show ?thesis unfolding e using Cons.IH [OF Cons.prems] True by simp
  next
    case False
    let ?s = "changeState self conn ''IDLE''"
    have w: "waiting_for_jobs ?s < 1" using Cons.prems by (simp add: changeState_def)
    have e: "updateStateMachines_loop K self (conn # cs) = updateStateMachines_loop K ?s cs"
      using Cons.prems False by simp
    show ?thesis unfolding e using Cons.IH [OF w] by (simp add: changeState_def)
  qed
qed


lemma handleJobAssignment_steps:
  assumes "packet.connection p = Some conn"
  shows "handleJobAssignment K self p h n a u =
           updateStateMachines K (assigned self conn
             \<lparr>base_job.name = n, base_job.arguments = a, unique = u, handle = Some h,
              base_job.connection = Some conn\<rparr>)"
    and "waiting_for_jobs (snd (handleJobAssignment K self p h n a u)) = waiting_for_jobs self - 1"
    and "job_queue (snd (handleJobAssignment K self p h n a u)) =
           job_queue self @ [Some \<lparr>base_job.name = n, base_job.arguments = a, unique = u,
              handle = Some h, base_job.connection = Some conn\<rparr>]"
    and "waiting_for_jobs self \<le> 1 \<longrightarrow>
           fst (handleJobAssignment K self p h n a u) = Inr () \<and>
           state (conns (snd (handleJobAssignment K self p h n a u)) conn) = ''IDLE''"
proof -
  let ?job = "\<lparr>base_job.name = n, base_job.arguments = a, unique = u, handle = Some h,
              base_job.connection = Some conn\<rparr>"
  show e: "handleJobAssignment K self p h n a u = updateStateMachines K (assigned self conn ?job)"
    using assms
    by (simp add: handleJobAssignment_def assigned_def changeState_def WorkerJob_init_def Let_def)
  show "waiting_for_jobs (snd (handleJobAssignment K self p h n a u)) = waiting_for_jobs self - 1"
    unfolding e updateStateMachines_def
    using updateStateMachines_loop_worker_fields [of K "assigned self conn ?job"]
    by (simp add: assigned_def)
  show "job_queue (snd (handleJobAssignment K self p h n a u)) = job_queue self @ [Some ?job]"
    unfolding e updateStateMachines_def
    using updateStateMachines_loop_worker_fields [of K "assigned self conn ?job"]
    by (simp add: assigned_def)
  show "waiting_for_jobs self \<le> 1 \<longrightarrow>
           fst (handleJobAssignment K self p h n a u) = Inr () \<and>
           state (conns (snd (handleJobAssignment K self p h n a u)) conn) = ''IDLE''"
  proof
    assume "waiting_for_jobs self \<le> 1"
    then have w: "waiting_for_jobs (assigned self conn ?job) < 1" by (simp add: assigned_def)
    show "fst (handleJobAssignment K self p h n a u) = Inr () \<and>
           state (conns (snd (handleJobAssignment K self p h n a u)) conn) = ''IDLE''"
      unfolding e updateStateMachines_def
      using updateStateMachines_loop_no_waiters [OF w, of K "active_connections (assigned self conn ?job)"]
      by (simp add: assigned_def)
  qed
qed

text \<open>
  The update of the state machines, in full.  With a waiter left and sockets
  that accept the packet, every idle connection of the list is sent
  GRAB_JOB_UNIQ and put to \<open>GRAB_WAIT\<close>, and the others are left alone;
  with no waiter left, every connection of the list is put to \<open>IDLE\<close> and
  nothing is sent.
\<close>

lemma updateStateMachines_loop_waiters:
  assumes "waiting_for_jobs self > 0"
    and "\<forall>c\<in>set cs. connected (conns self c) \<and> \<not> sock_fail (conns self c)"
    and "toBinary \<lparr>code = REQ, ptype = GRAB_JOB_UNIQ K, packet.data = [],
                   packet.connection = None\<rparr> = Inr b"
  shows "updateStateMachines_loop K self cs =
           (Inr (), self\<lparr>conns := (\<lambda>c. if c \<in> set cs \<and> state (conns self c) = ''IDLE''
                                   then (conns self c)\<lparr>sock_out := sock_out (conns self c) @ [b],
                                                       state := ''GRAB_WAIT''\<rparr>
                                   else conns self c)\<rparr>)"
  using assms
proof (induction cs arbitrary: self)
  case Nil
  then show ?case by simp
next
  case (Cons conn cs)
  note w = Cons.prems(1) and b = Cons.prems(3)
  have ok: "connected (conns self conn)" "\<not> sock_fail (conns self conn)"
    using Cons.prems(2) by simp_all
  show ?case
  proof (cases "state (conns self conn) = ''IDLE''")
    case True
    define s1 where "s1 = self\<lparr>conns := (conns self)(conn := (conns self conn)
                      \<lparr>sock_out := sock_out (conns self conn) @ [b], state := ''GRAB_WAIT''\<rparr>)\<rparr>"
    have g: "sendGrabJobUniq K self (Some conn) =
               (Inr (), self\<lparr>conns := (conns self)(conn := (conns self conn)
                      \<lparr>sock_out := sock_out (conns self conn) @ [b]\<rparr>)\<rparr>)"
      by (simp add: sendGrabJobUniq_def Packet_REQ sendPacket_ok [OF ok b])
    have e: "updateStateMachines_loop K self (conn # cs) = updateStateMachines_loop K s1 cs"
      using True w g by (simp add: changeState_def s1_def)
    have w1: "waiting_for_jobs s1 > 0" using w by (simp add: s1_def)
    have c1: "\<forall>c\<in>set cs. connected (conns s1 c) \<and> \<not> sock_fail (conns s1 c)"
      using Cons.prems(2) by (simp add: s1_def)
    have "(\<lambda>c. if c \<in> set cs \<and> state (conns s1 c) = ''IDLE''
               then (conns s1 c)\<lparr>sock_out := sock_out (conns s1 c) @ [b], state := ''GRAB_WAIT''\<rparr>
               else conns s1 c) =
          (\<lambda>c. if c \<in> set (conn # cs) \<and> state (conns self c) = ''IDLE''
               then (conns self c)\<lparr>sock_out := sock_out (conns self c) @ [b],
                                   state := ''GRAB_WAIT''\<rparr>
               else conns self c)"
      using True by (auto simp: s1_def fun_eq_iff)
    then show ?thesis
      unfolding e Cons.IH [OF w1 c1 b] by (simp add: s1_def)
  next
    case False
    have e: "updateStateMachines_loop K self (conn # cs) = updateStateMachines_loop K self cs"
      using False w by simp
    have c1: "\<forall>c\<in>set cs. connected (conns self c) \<and> \<not> sock_fail (conns self c)"
      using Cons.prems(2) by simp
    have "(\<lambda>c. if c \<in> set cs \<and> state (conns self c) = ''IDLE''
               then (conns self c)\<lparr>sock_out := sock_out (conns self c) @ [b], state := ''GRAB_WAIT''\<rparr>
               else conns self c) =
          (\<lambda>c. if c \<in> set (conn # cs) \<and> state (conns self c) = ''IDLE''
               then (conns self c)\<lparr>sock_out := sock_out (conns self c) @ [b],
                                   state := ''GRAB_WAIT''\<rparr>
               else conns self c)"
      using False by (auto simp: fun_eq_iff)
    then show ?thesis
      unfolding e Cons.IH [OF w c1 b] by simp
  qed
qed


lemma updateStateMachines_loop_idle:
  assumes "waiting_for_jobs self < 1"
  shows "updateStateMachines_loop K self cs =
           (Inr (), self\<lparr>conns := (\<lambda>c. if c \<in> set cs then (conns self c)\<lparr>state := ''IDLE''\<rparr>
                                   else conns self c)\<rparr>)"
  using assms
proof (induction cs arbitrary: self)
  case Nil
  then show ?case by simp
next
  case (Cons conn cs)
  show ?case
  proof (cases "state (conns self conn) = ''IDLE''")
    case True
    have e: "updateStateMachines_loop K self (conn # cs) = updateStateMachines_loop K self cs"
      using Cons.prems True by simp
    have "(conns self conn)\<lparr>state := state (conns self conn)\<rparr> = conns self conn" by simp
    then have i: "(conns self conn)\<lparr>state := ''IDLE''\<rparr> = conns self conn"
      unfolding True .
    have "(\<lambda>c. if c \<in> set cs then (conns self c)\<lparr>state := ''IDLE''\<rparr> else conns self c) =
          (\<lambda>c. if c \<in> set (conn # cs) then (conns self c)\<lparr>state := ''IDLE''\<rparr>
               else conns self c)"
      using i by (auto simp: fun_eq_iff)
    then show ?thesis unfolding e Cons.IH [OF Cons.prems] by simp
  next
    case False
    define s1 where "s1 = changeState self conn ''IDLE''"
    have w: "waiting_for_jobs s1 < 1" using Cons.prems by (simp add: s1_def changeState_def)
    have e: "updateStateMachines_loop K self (conn # cs) = updateStateMachines_loop K s1 cs"
      using Cons.prems False by (simp add: s1_def)
    have "(\<lambda>c. if c \<in> set cs then (conns s1 c)\<lparr>state := ''IDLE''\<rparr> else conns s1 c) =
          (\<lambda>c. if c \<in> set (conn # cs) then (conns self c)\<lparr>state := ''IDLE''\<rparr>
               else conns self c)"
      by (auto simp: fun_eq_iff s1_def changeState_def)
    then show ?thesis unfolding e Cons.IH [OF w] by (simp add: s1_def changeState_def)
  qed
qed

lemma handleJobAssignment_update:
  assumes "packet.connection p = Some conn"
  shows "waiting_for_jobs self \<le> 1 \<longrightarrow>
           handleJobAssignment K self p h n a u =
             (Inr (), self\<lparr>conns := (\<lambda>c. if c = conn \<or> c \<in> set (active_connections self)
                                      then (conns self c)\<lparr>state := ''IDLE''\<rparr>
                                      else conns self c),
                  waiting_for_jobs := waiting_for_jobs self - 1,
                  job_queue := job_queue self @
                    [Some \<lparr>base_job.name = n, base_job.arguments = a, unique = u,
                           handle = Some h, base_job.connection = Some conn\<rparr>]\<rparr>)"
    and "waiting_for_jobs self > 1 \<and>
         (\<forall>c\<in>set (active_connections self).
            connected (conns self c) \<and> \<not> sock_fail (conns self c)) \<and>
         toBinary \<lparr>code = REQ, ptype = GRAB_JOB_UNIQ K, packet.data = [],
                   packet.connection = None\<rparr> = Inr b \<longrightarrow>
           handleJobAssignment K self p h n a u =
             (Inr (), self\<lparr>conns := (\<lambda>c. if c \<in> set (active_connections self) \<and>
                                         (c = conn \<or> state (conns self c) = ''IDLE'')
                                      then (conns self c)
                                             \<lparr>sock_out := sock_out (conns self c) @ [b],
                                              state := ''GRAB_WAIT''\<rparr>
                                      else if c = conn then (conns self c)\<lparr>state := ''IDLE''\<rparr>
                                      else conns self c),
                  waiting_for_jobs := waiting_for_jobs self - 1,
                  job_queue := job_queue self @
                    [Some \<lparr>base_job.name = n, base_job.arguments = a, unique = u,
                           handle = Some h, base_job.connection = Some conn\<rparr>]\<rparr>)"
proof -
  let ?job = "\<lparr>base_job.name = n, base_job.arguments = a, unique = u, handle = Some h,
              base_job.connection = Some conn\<rparr>"
  define s where "s = assigned self conn ?job"
  have e: "handleJobAssignment K self p h n a u = updateStateMachines_loop K s (active_connections self)"
    using assms
    by (simp add: handleJobAssignment_def assigned_def changeState_def WorkerJob_init_def Let_def
          updateStateMachines_def s_def)
  show "waiting_for_jobs self \<le> 1 \<longrightarrow>
           handleJobAssignment K self p h n a u =
             (Inr (), self\<lparr>conns := (\<lambda>c. if c = conn \<or> c \<in> set (active_connections self)
                                      then (conns self c)\<lparr>state := ''IDLE''\<rparr>
                                      else conns self c),
                  waiting_for_jobs := waiting_for_jobs self - 1,
                  job_queue := job_queue self @ [Some ?job]\<rparr>)"
  proof
    assume "waiting_for_jobs self \<le> 1"
    then have w: "waiting_for_jobs s < 1" by (simp add: s_def assigned_def)
    have "(\<lambda>c. if c \<in> set (active_connections self) then (conns s c)\<lparr>state := ''IDLE''\<rparr>
               else conns s c) =
          (\<lambda>c. if c = conn \<or> c \<in> set (active_connections self)
               then (conns self c)\<lparr>state := ''IDLE''\<rparr> else conns self c)"
      by (auto simp: fun_eq_iff s_def assigned_def)
    then show "handleJobAssignment K self p h n a u =
             (Inr (), self\<lparr>conns := (\<lambda>c. if c = conn \<or> c \<in> set (active_connections self)
                                      then (conns self c)\<lparr>state := ''IDLE''\<rparr>
                                      else conns self c),
                  waiting_for_jobs := waiting_for_jobs self - 1,
                  job_queue := job_queue self @ [Some ?job]\<rparr>)"
      unfolding e updateStateMachines_loop_idle [OF w] by (simp add: s_def assigned_def)
  qed
  show "waiting_for_jobs self > 1 \<and>
         (\<forall>c\<in>set (active_connections self).
            connected (conns self c) \<and> \<not> sock_fail (conns self c)) \<and>
         toBinary \<lparr>code = REQ, ptype = GRAB_JOB_UNIQ K, packet.data = [],
                   packet.connection = None\<rparr> = Inr b \<longrightarrow>
           handleJobAssignment K self p h n a u =
             (Inr (), self\<lparr>conns := (\<lambda>c. if c \<in> set (active_connections self) \<and>
                                         (c = conn \<or> state (conns self c) = ''IDLE'')
                                      then (conns self c)
                                             \<lparr>sock_out := sock_out (conns self c) @ [b],
                                              state := ''GRAB_WAIT''\<rparr>
                                      else if c = conn then (conns self c)\<lparr>state := ''IDLE''\<rparr>
                                      else conns self c),
                  waiting_for_jobs := waiting_for_jobs self - 1,
                  job_queue := job_queue self @ [Some ?job]\<rparr>)"
  proof
    assume h: "waiting_for_jobs self > 1 \<and>
         (\<forall>c\<in>set (active_connections self).
            connected (conns self c) \<and> \<not> sock_fail (conns self c)) \<and>
         toBinary \<lparr>code = REQ, ptype = GRAB_JOB_UNIQ K, packet.data = [],
                   packet.connection = None\<rparr> = Inr b"
    then have w: "waiting_for_jobs s > 0" by (simp add: s_def assigned_def)
    have c: "\<forall>c\<in>set (active_connections self). connected (conns s c) \<and> \<not> sock_fail (conns s c)"
      using h by (simp add: s_def assigned_def)
    have b: "toBinary \<lparr>code = REQ, ptype = GRAB_JOB_UNIQ K, packet.data = [],
                   packet.connection = None\<rparr> = Inr b" using h by simp
    have "(\<lambda>c. if c \<in> set (active_connections self) \<and> state (conns s c) = ''IDLE''
               then (conns s c)\<lparr>sock_out := sock_out (conns s c) @ [b], state := ''GRAB_WAIT''\<rparr>
               else conns s c) =
          (\<lambda>c. if c \<in> set (active_connections self) \<and>
                  (c = conn \<or> state (conns self c) = ''IDLE'')
               then (conns self c)\<lparr>sock_out := sock_out (conns self c) @ [b],
                                   state := ''GRAB_WAIT''\<rparr>
               else if c = conn then (conns self c)\<lparr>state := ''IDLE''\<rparr>
               else conns self c)"
      by (auto simp: fun_eq_iff s_def assigned_def)
    then show "handleJobAssignment K self p h n a u =
             (Inr (), self\<lparr>conns := (\<lambda>c. if c \<in> set (active_connections self) \<and>
                                         (c = conn \<or> state (conns self c) = ''IDLE'')
                                      then (conns self c)
                                             \<lparr>sock_out := sock_out (conns self c) @ [b],
                                              state := ''GRAB_WAIT''\<rparr>
                                      else if c = conn then (conns self c)\<lparr>state := ''IDLE''\<rparr>
                                      else conns self c),
                  waiting_for_jobs := waiting_for_jobs self - 1,
                  job_queue := job_queue self @ [Some ?job]\<rparr>)"
      unfolding e updateStateMachines_loop_waiters [OF w c b] by (simp add: s_def assigned_def)
  qed
qed

text \<open>
  C6.  On a connection whose socket accepts the packet: NO_JOB in state
  \<open>GRAB_WAIT\<close> sends PRE_SLEEP on that connection and moves it to \<open>SLEEP\<close>;
  NOOP in state \<open>SLEEP\<close> sends GRAB_JOB_UNIQ and moves it to \<open>GRAB_WAIT\<close>;
  nothing else changes.  In any other state the two packets change nothing,
  and when the socket refuses the packet the handler raises with the
  connection marked lost.  JOB_ASSIGN and JOB_ASSIGN_UNIQ, for a payload with
  the arguments they read, set the connection to \<open>IDLE\<close>, take one from
  \<open>waiting_for_jobs\<close>, put a job built from the handle, name, unique (absent
  when empty) and remaining arguments at the end of the queue, and then run
  the update of the state machines; the update keeps the counter and the
  queue.  With no waiter left after the decrement, the update sends nothing
  and leaves the connection of the packet and every active connection
  \<open>IDLE\<close>.  With a waiter left, and active connections whose sockets
  accept the packet, the update sends GRAB_JOB_UNIQ on the connection of the
  packet (when it is active) and on every other idle active connection, and
  moves them to \<open>GRAB_WAIT\<close>; the active connections in another state
  are left as they are.  In both cases the resulting worker is given in full.
\<close>

theorem worker_state_machine:
  "(packet.connection p = Some conn \<and> connected (conns self conn) \<and>
    \<not> sock_fail (conns self conn) \<longrightarrow>
      (state (conns self conn) = ''GRAB_WAIT'' \<and>
       toBinary \<lparr>code = REQ, ptype = PRE_SLEEP K, packet.data = [],
                  packet.connection = None\<rparr> = Inr b \<longrightarrow>
         handleNoJob K self p =
           (Inr (), self\<lparr>conns := (conns self)(conn := (conns self conn)
                      \<lparr>sock_out := sock_out (conns self conn) @ [b], state := ''SLEEP''\<rparr>)\<rparr>)) \<and>
      (state (conns self conn) = ''SLEEP'' \<and>
       toBinary \<lparr>code = REQ, ptype = GRAB_JOB_UNIQ K, packet.data = [],
                  packet.connection = None\<rparr> = Inr b \<longrightarrow>
         handleNoop K self p =
           (Inr (), self\<lparr>conns := (conns self)(conn := (conns self conn)
                      \<lparr>sock_out := sock_out (conns self conn) @ [b],
                       state := ''GRAB_WAIT''\<rparr>)\<rparr>))) \<and>
   (packet.connection p = Some conn \<longrightarrow>
      (state (conns self conn) \<noteq> ''GRAB_WAIT'' \<longrightarrow> handleNoJob K self p = (Inr (), self)) \<and>
      (state (conns self conn) \<noteq> ''SLEEP'' \<longrightarrow> handleNoop K self p = (Inr (), self)) \<and>
      (state (conns self conn) = ''GRAB_WAIT'' \<and> sock_fail (conns self conn) \<longrightarrow>
         (\<exists>e. handleNoJob K self p = (Inl e, lostConnection self conn))) \<and>
      (state (conns self conn) = ''SLEEP'' \<and> sock_fail (conns self conn) \<longrightarrow>
         (\<exists>e. handleNoop K self p = (Inl e, lostConnection self conn)))) \<and>
   (packet.connection p = Some conn \<and> getArgument p 0 False = Inr h \<and>
    getArgument p 1 False = Inr n \<longrightarrow>
      (\<forall>a. getArgument p 2 True = Inr a \<longrightarrow>
         handleJobAssign K self p =
           updateStateMachines K (assigned self conn
             \<lparr>base_job.name = n, base_job.arguments = a, unique = None, handle = Some h,
              base_job.connection = Some conn\<rparr>) \<and>
         waiting_for_jobs (snd (handleJobAssign K self p)) = waiting_for_jobs self - 1 \<and>
         job_queue (snd (handleJobAssign K self p)) =
           job_queue self @ [Some \<lparr>base_job.name = n, base_job.arguments = a, unique = None,
              handle = Some h, base_job.connection = Some conn\<rparr>] \<and>
         (waiting_for_jobs self \<le> 1 \<longrightarrow>
            fst (handleJobAssign K self p) = Inr () \<and>
            state (conns (snd (handleJobAssign K self p)) conn) = ''IDLE'') \<and>
         (waiting_for_jobs self \<le> 1 \<longrightarrow>
            handleJobAssign K self p =
              (Inr (), self\<lparr>conns := (\<lambda>c. if c = conn \<or> c \<in> set (active_connections self)
                                       then (conns self c)\<lparr>state := ''IDLE''\<rparr>
                                       else conns self c),
                   waiting_for_jobs := waiting_for_jobs self - 1,
                   job_queue := job_queue self @
                     [Some \<lparr>base_job.name = n, base_job.arguments = a, unique = None,
                            handle = Some h, base_job.connection = Some conn\<rparr>]\<rparr>)) \<and>
         (waiting_for_jobs self > 1 \<and>
          (\<forall>c\<in>set (active_connections self).
             connected (conns self c) \<and> \<not> sock_fail (conns self c)) \<and>
          toBinary \<lparr>code = REQ, ptype = GRAB_JOB_UNIQ K, packet.data = [],
                    packet.connection = None\<rparr> = Inr b \<longrightarrow>
            handleJobAssign K self p =
              (Inr (), self\<lparr>conns := (\<lambda>c. if c \<in> set (active_connections self) \<and>
                                          (c = conn \<or> state (conns self c) = ''IDLE'')
                                       then (conns self c)
                                              \<lparr>sock_out := sock_out (conns self c) @ [b],
                                               state := ''GRAB_WAIT''\<rparr>
                                       else if c = conn then (conns self c)\<lparr>state := ''IDLE''\<rparr>
                                       else conns self c),
                   waiting_for_jobs := waiting_for_jobs self - 1,
                   job_queue := job_queue self @
                     [Some \<lparr>base_job.name = n, base_job.arguments = a, unique = None,
                            handle = Some h, base_job.connection = Some conn\<rparr>]\<rparr>))) \<and>
      (\<forall>u a. getArgument p 2 False = Inr u \<and> getArgument p 3 True = Inr a \<longrightarrow>
         handleJobAssignUnique K self p =
           updateStateMachines K (assigned self conn
             \<lparr>base_job.name = n, base_job.arguments = a,
              unique = (if u = [] then None else Some u), handle = Some h,
              base_job.connection = Some conn\<rparr>) \<and>
         waiting_for_jobs (snd (handleJobAssignUnique K self p)) = waiting_for_jobs self - 1 \<and>
         job_queue (snd (handleJobAssignUnique K self p)) =
           job_queue self @ [Some \<lparr>base_job.name = n, base_job.arguments = a,
              unique = (if u = [] then None else Some u),
              handle = Some h, base_job.connection = Some conn\<rparr>] \<and>
         (waiting_for_jobs self \<le> 1 \<longrightarrow>
            fst (handleJobAssignUnique K self p) = Inr () \<and>
            state (conns (snd (handleJobAssignUnique K self p)) conn) = ''IDLE'') \<and>
         (waiting_for_jobs self \<le> 1 \<longrightarrow>
            handleJobAssignUnique K self p =
              (Inr (), self\<lparr>conns := (\<lambda>c. if c = conn \<or> c \<in> set (active_connections self)
                                       then (conns self c)\<lparr>state := ''IDLE''\<rparr>
                                       else conns self c),
                   waiting_for_jobs := waiting_for_jobs self - 1,
                   job_queue := job_queue self @
                     [Some \<lparr>base_job.name = n, base_job.arguments = a, unique = (if u = [] then None else Some u),
                            handle = Some h, base_job.connection = Some conn\<rparr>]\<rparr>)) \<and>
         (waiting_for_jobs self > 1 \<and>
          (\<forall>c\<in>set (active_connections self).
             connected (conns self c) \<and> \<not> sock_fail (conns self c)) \<and>
          toBinary \<lparr>code = REQ, ptype = GRAB_JOB_UNIQ K, packet.data = [],
                    packet.connection = None\<rparr> = Inr b \<longrightarrow>
            handleJobAssignUnique K self p =
              (Inr (), self\<lparr>conns := (\<lambda>c. if c \<in> set (active_connections self) \<and>
                                          (c = conn \<or> state (conns self c) = ''IDLE'')
                                       then (conns self c)
                                              \<lparr>sock_out := sock_out (conns self c) @ [b],
                                               state := ''GRAB_WAIT''\<rparr>
                                       else if c = conn then (conns self c)\<lparr>state := ''IDLE''\<rparr>
                                       else conns self c),
                   waiting_for_jobs := waiting_for_jobs self - 1,
                   job_queue := job_queue self @
                     [Some \<lparr>base_job.name = n, base_job.arguments = a, unique = (if u = [] then None else Some u),
                            handle = Some h, base_job.connection = Some conn\<rparr>]\<rparr>))))"
proof (intro conjI impI allI)
  assume a: "packet.connection p = Some conn \<and> connected (conns self conn) \<and>
    \<not> sock_fail (conns self conn)"
    and b: "state (conns self conn) = ''GRAB_WAIT'' \<and>
       toBinary \<lparr>code = REQ, ptype = PRE_SLEEP K, packet.data = [],
                  packet.connection = None\<rparr> = Inr b"
  show "handleNoJob K self p =
           (Inr (), self\<lparr>conns := (conns self)(conn := (conns self conn)
                      \<lparr>sock_out := sock_out (conns self conn) @ [b], state := ''SLEEP''\<rparr>)\<rparr>)"
    using a b
    by (simp add: handleNoJob_def sendPreSleep_def Packet_REQ sendPacket_ok changeState_def)
next
  assume a: "packet.connection p = Some conn \<and> connected (conns self conn) \<and>
    \<not> sock_fail (conns self conn)"
    and b: "state (conns self conn) = ''SLEEP'' \<and>
       toBinary \<lparr>code = REQ, ptype = GRAB_JOB_UNIQ K, packet.data = [],
                  packet.connection = None\<rparr> = Inr b"
  show "handleNoop K self p =
           (Inr (), self\<lparr>conns := (conns self)(conn := (conns self conn)
                      \<lparr>sock_out := sock_out (conns self conn) @ [b],
                       state := ''GRAB_WAIT''\<rparr>)\<rparr>)"
    using a b
    by (simp add: handleNoop_def sendGrabJobUniq_def Packet_REQ sendPacket_ok changeState_def)
next
  assume "packet.connection p = Some conn" and "state (conns self conn) \<noteq> ''GRAB_WAIT''"
  then show "handleNoJob K self p = (Inr (), self)" by (simp add: handleNoJob_def)
next
  assume "packet.connection p = Some conn" and "state (conns self conn) \<noteq> ''SLEEP''"
  then show "handleNoop K self p = (Inr (), self)" by (simp add: handleNoop_def)
next
  assume a: "packet.connection p = Some conn"
    and b: "state (conns self conn) = ''GRAB_WAIT'' \<and> sock_fail (conns self conn)"
  obtain e where "sendPacket self \<lparr>code = REQ, ptype = PRE_SLEEP K, packet.data = [],
                  packet.connection = None\<rparr> conn = (Inl e, lostConnection self conn)"
    using sendPacket_raises [of self conn] b by blast
  then show "\<exists>e. handleNoJob K self p = (Inl e, lostConnection self conn)"
    using a b by (simp add: handleNoJob_def sendPreSleep_def Packet_REQ)
next
  assume a: "packet.connection p = Some conn"
    and b: "state (conns self conn) = ''SLEEP'' \<and> sock_fail (conns self conn)"
  obtain e where "sendPacket self \<lparr>code = REQ, ptype = GRAB_JOB_UNIQ K, packet.data = [],
                  packet.connection = None\<rparr> conn = (Inl e, lostConnection self conn)"
    using sendPacket_raises [of self conn] b by blast
  then show "\<exists>e. handleNoop K self p = (Inl e, lostConnection self conn)"
    using a b by (simp add: handleNoop_def sendGrabJobUniq_def Packet_REQ)
next
  fix a
  assume c: "packet.connection p = Some conn \<and> getArgument p 0 False = Inr h \<and>
    getArgument p 1 False = Inr n" and d: "getArgument p 2 True = Inr a"
  have e: "handleJobAssign K self p = handleJobAssignment K self p h n a None"
    using c d by (simp add: handleJobAssign_def)
  note st = handleJobAssignment_steps [where p = p and conn = conn and K = K and self = self and h = h and n = n and a = a and u = None]
  show "handleJobAssign K self p =
           updateStateMachines K (assigned self conn
             \<lparr>base_job.name = n, base_job.arguments = a, unique = None, handle = Some h,
              base_job.connection = Some conn\<rparr>)"
    unfolding e using st(1) c by simp
  show "waiting_for_jobs (snd (handleJobAssign K self p)) = waiting_for_jobs self - 1"
    unfolding e using st(2) c by simp
  show "job_queue (snd (handleJobAssign K self p)) =
           job_queue self @ [Some \<lparr>base_job.name = n, base_job.arguments = a, unique = None,
              handle = Some h, base_job.connection = Some conn\<rparr>]"
    unfolding e using st(3) c by simp
  show "fst (handleJobAssign K self p) = Inr ()" if "waiting_for_jobs self \<le> 1"
    unfolding e using st(4) c that by simp
  show "state (conns (snd (handleJobAssign K self p)) conn) = ''IDLE''"
    if "waiting_for_jobs self \<le> 1"
    unfolding e using st(4) c that by simp
  note up = handleJobAssignment_update [where p = p and conn = conn and K = K and self = self
      and h = h and n = n and a = a and u = None]
  show "handleJobAssign K self p =
     (Inr (), self\<lparr>conns := (\<lambda>c. if c = conn \<or> c \<in> set (active_connections self)
                              then (conns self c)\<lparr>state := ''IDLE''\<rparr>
                              else conns self c),
          waiting_for_jobs := waiting_for_jobs self - 1,
          job_queue := job_queue self @
            [Some \<lparr>base_job.name = n, base_job.arguments = a, unique = None,
                   handle = Some h, base_job.connection = Some conn\<rparr>]\<rparr>)"
    if "waiting_for_jobs self \<le> 1"
    unfolding e using up(1) c that by simp
  show "handleJobAssign K self p =
     (Inr (), self\<lparr>conns := (\<lambda>c. if c \<in> set (active_connections self) \<and>
                                 (c = conn \<or> state (conns self c) = ''IDLE'')
                              then (conns self c)
                                     \<lparr>sock_out := sock_out (conns self c) @ [b],
                                      state := ''GRAB_WAIT''\<rparr>
                              else if c = conn then (conns self c)\<lparr>state := ''IDLE''\<rparr>
                              else conns self c),
          waiting_for_jobs := waiting_for_jobs self - 1,
          job_queue := job_queue self @
            [Some \<lparr>base_job.name = n, base_job.arguments = a, unique = None,
                   handle = Some h, base_job.connection = Some conn\<rparr>]\<rparr>)"
    if "waiting_for_jobs self > 1 \<and>
 (\<forall>c\<in>set (active_connections self).
    connected (conns self c) \<and> \<not> sock_fail (conns self c)) \<and>
 toBinary \<lparr>code = REQ, ptype = GRAB_JOB_UNIQ K, packet.data = [],
           packet.connection = None\<rparr> = Inr b"
    unfolding e using up(2) c that by simp
next
  fix u a
  assume c: "packet.connection p = Some conn \<and> getArgument p 0 False = Inr h \<and>
    getArgument p 1 False = Inr n"
    and d: "getArgument p 2 False = Inr u \<and> getArgument p 3 True = Inr a"
  let ?u = "if u = [] then None else Some u"
  have e: "handleJobAssignUnique K self p = handleJobAssignment K self p h n a ?u"
    using c d by (simp add: handleJobAssignUnique_def)
  note st = handleJobAssignment_steps [where p = p and conn = conn and K = K and self = self and h = h and n = n and a = a and u = ?u]
  show "handleJobAssignUnique K self p =
           updateStateMachines K (assigned self conn
             \<lparr>base_job.name = n, base_job.arguments = a,
              unique = (if u = [] then None else Some u), handle = Some h,
              base_job.connection = Some conn\<rparr>)"
    unfolding e using st(1) c by simp
  show "waiting_for_jobs (snd (handleJobAssignUnique K self p)) = waiting_for_jobs self - 1"
    unfolding e using st(2) c by simp
  show "job_queue (snd (handleJobAssignUnique K self p)) =
           job_queue self @ [Some \<lparr>base_job.name = n, base_job.arguments = a,
              unique = (if u = [] then None else Some u),
              handle = Some h, base_job.connection = Some conn\<rparr>]"
    unfolding e using st(3) c by simp
  show "fst (handleJobAssignUnique K self p) = Inr ()" if "waiting_for_jobs self \<le> 1"
    unfolding e using st(4) c that by simp
  show "state (conns (snd (handleJobAssignUnique K self p)) conn) = ''IDLE''"
    if "waiting_for_jobs self \<le> 1"
    unfolding e using st(4) c that by simp
  note up = handleJobAssignment_update [where p = p and conn = conn and K = K and self = self
      and h = h and n = n and a = a and u = "if u = [] then None else Some u"]
  show "handleJobAssignUnique K self p =
     (Inr (), self\<lparr>conns := (\<lambda>c. if c = conn \<or> c \<in> set (active_connections self)
                              then (conns self c)\<lparr>state := ''IDLE''\<rparr>
                              else conns self c),
          waiting_for_jobs := waiting_for_jobs self - 1,
          job_queue := job_queue self @
            [Some \<lparr>base_job.name = n, base_job.arguments = a, unique = (if u = [] then None else Some u),
                   handle = Some h, base_job.connection = Some conn\<rparr>]\<rparr>)"
    if "waiting_for_jobs self \<le> 1"
    unfolding e using up(1) c that by simp
  show "handleJobAssignUnique K self p =
     (Inr (), self\<lparr>conns := (\<lambda>c. if c \<in> set (active_connections self) \<and>
                                 (c = conn \<or> state (conns self c) = ''IDLE'')
                              then (conns self c)
                                     \<lparr>sock_out := sock_out (conns self c) @ [b],
                                      state := ''GRAB_WAIT''\<rparr>
                              else if c = conn then (conns self c)\<lparr>state := ''IDLE''\<rparr>
                              else conns self c),
          waiting_for_jobs := waiting_for_jobs self - 1,
          job_queue := job_queue self @
            [Some \<lparr>base_job.name = n, base_job.arguments = a, unique = (if u = [] then None else Some u),
                   handle = Some h, base_job.connection = Some conn\<rparr>]\<rparr>)"
    if "waiting_for_jobs self > 1 \<and>
 (\<forall>c\<in>set (active_connections self).
    connected (conns self c) \<and> \<not> sock_fail (conns self c)) \<and>
 toBinary \<lparr>code = REQ, ptype = GRAB_JOB_UNIQ K, packet.data = [],
           packet.connection = None\<rparr> = Inr b"
    unfolding e using up(2) c that by simp
qed


text \<open>
  On the example worker: NO_JOB sends the twelve bytes of PRE_SLEEP and puts
  the connection to \<open>SLEEP\<close>; JOB_ASSIGN_UNIQ
  \<open>H:1\x00reverse\x00u-1\x00hello\<close> queues the job for the one waiter and
  leaves the connection \<open>IDLE\<close>; with two waiters, the same packet leaves
  one waiter, and the update sends the twelve bytes of GRAB_JOB_UNIQ and puts
  the connection to \<open>GRAB_WAIT\<close>.
\<close>

theorem worker_state_machine_witness:
  "handleNoJob gearman_constants example_worker
     \<lparr>code = RES, ptype = 10, packet.data = [], packet.connection = Some 0\<rparr> =
     (Inr (), example_worker\<lparr>conns := (conns example_worker)(0 := (conns example_worker 0)
        \<lparr>sock_out := sock_out (conns example_worker 0) @
                       [[0, 82, 69, 81, 0, 0, 0, 4, 0, 0, 0, 0]],
         state := ''SLEEP''\<rparr>)\<rparr>) \<and>
   waiting_for_jobs (snd (handleJobAssignUnique gearman_constants example_worker
     \<lparr>code = RES, ptype = 31,
      packet.data = [72, 58, 49, 0, 114, 101, 118, 101, 114, 115, 101, 0, 117, 45, 49, 0,
                     104, 101, 108, 108, 111],
      packet.connection = Some 0\<rparr>)) = 0 \<and>
   job_queue (snd (handleJobAssignUnique gearman_constants example_worker
     \<lparr>code = RES, ptype = 31,
      packet.data = [72, 58, 49, 0, 114, 101, 118, 101, 114, 115, 101, 0, 117, 45, 49, 0,
                     104, 101, 108, 108, 111],
      packet.connection = Some 0\<rparr>)) =
     [Some \<lparr>base_job.name = [114, 101, 118, 101, 114, 115, 101],
            base_job.arguments = [104, 101, 108, 108, 111], unique = Some [117, 45, 49],
            handle = Some [72, 58, 49], base_job.connection = Some 0\<rparr>] \<and>
   state (conns (snd (handleJobAssignUnique gearman_constants example_worker
     \<lparr>code = RES, ptype = 31,
      packet.data = [72, 58, 49, 0, 114, 101, 118, 101, 114, 115, 101, 0, 117, 45, 49, 0,
                     104, 101, 108, 108, 111],
      packet.connection = Some 0\<rparr>)) 0) = ''IDLE'' \<and>
   fst (handleJobAssignUnique gearman_constants (example_worker\<lparr>waiting_for_jobs := 2\<rparr>)
     \<lparr>code = RES, ptype = 31,
      packet.data = [72, 58, 49, 0, 114, 101, 118, 101, 114, 115, 101, 0, 117, 45, 49, 0,
                     104, 101, 108, 108, 111],
      packet.connection = Some 0\<rparr>) = Inr () \<and>
   waiting_for_jobs (snd (handleJobAssignUnique gearman_constants
     (example_worker\<lparr>waiting_for_jobs := 2\<rparr>)
     \<lparr>code = RES, ptype = 31,
      packet.data = [72, 58, 49, 0, 114, 101, 118, 101, 114, 115, 101, 0, 117, 45, 49, 0,
                     104, 101, 108, 108, 111],
      packet.connection = Some 0\<rparr>)) = 1 \<and>
   sock_out (conns (snd (handleJobAssignUnique gearman_constants
     (example_worker\<lparr>waiting_for_jobs := 2\<rparr>)
     \<lparr>code = RES, ptype = 31,
      packet.data = [72, 58, 49, 0, 114, 101, 118, 101, 114, 115, 101, 0, 117, 45, 49, 0,
                     104, 101, 108, 108, 111],
      packet.connection = Some 0\<rparr>)) 0) = [[0, 82, 69, 81, 0, 0, 0, 30, 0, 0, 0, 0]] \<and>
   state (conns (snd (handleJobAssignUnique gearman_constants
     (example_worker\<lparr>waiting_for_jobs := 2\<rparr>)
     \<lparr>code = RES, ptype = 31,
      packet.data = [72, 58, 49, 0, 114, 101, 118, 101, 114, 115, 101, 0, 117, 45, 49, 0,
                     104, 101, 108, 108, 111],
      packet.connection = Some 0\<rparr>)) 0) = ''GRAB_WAIT''"
proof -
  let ?nj = "\<lparr>code = RES, ptype = 10, packet.data = [], packet.connection = Some 0\<rparr>"
  let ?ja = "\<lparr>code = RES, ptype = 31,
      packet.data = [72, 58, 49, 0, 114, 101, 118, 101, 114, 115, 101, 0, 117, 45, 49, 0,
                     104, 101, 108, 108, 111],
      packet.connection = Some 0\<rparr>"
  have w: "connected (conns example_worker 0)" "\<not> sock_fail (conns example_worker 0)"
      "state (conns example_worker 0) = ''GRAB_WAIT''" "waiting_for_jobs example_worker = 1"
      "job_queue example_worker = []"
    by (simp_all add: example_worker_def Connection_init_def base_client.extend_def
          BaseClientServer_init_def)
  have b: "toBinary \<lparr>code = REQ, ptype = PRE_SLEEP gearman_constants, packet.data = [],
                  packet.connection = None\<rparr> = Inr [0, 82, 69, 81, 0, 0, 0, 4, 0, 0, 0, 0]"
    by (simp add: toBinary_def pack_i_def pack_4s_def REQ_def gearman_constants_def Let_def)
  have g: "getArgument ?ja 0 False = Inr [72, 58, 49]"
      "getArgument ?ja 1 False = Inr [114, 101, 118, 101, 114, 115, 101]"
      "getArgument ?ja 2 False = Inr [117, 45, 49]"
      "getArgument ?ja 3 True = Inr [104, 101, 108, 108, 111]"
    by (simp_all add: getArgument_def getitem_def slice_from_def slice_index_def)
  note t1 = worker_state_machine [of ?nj 0 example_worker gearman_constants
              "[0, 82, 69, 81, 0, 0, 0, 4, 0, 0, 0, 0]"]
  have h: "packet.connection ?ja = Some 0 \<and> getArgument ?ja 0 False = Inr [72, 58, 49] \<and>
    getArgument ?ja 1 False = Inr [114, 101, 118, 101, 114, 115, 101]"
    using g by simp
  have g23: "getArgument ?ja 2 False = Inr [117, 45, 49] \<and>
    getArgument ?ja 3 True = Inr [104, 101, 108, 108, 111]"
    using g by simp
  note t2 = worker_state_machine [of ?ja 0 example_worker gearman_constants "[]"
              "[72, 58, 49]" "[114, 101, 118, 101, 114, 115, 101]",
              THEN conjunct2, THEN conjunct2, THEN mp, OF h, THEN conjunct2, rule_format,
              of "[117, 45, 49]" "[104, 101, 108, 108, 111]", OF g23, THEN conjunct2]
  have n: "handleNoJob gearman_constants example_worker ?nj =
     (Inr (), example_worker\<lparr>conns := (conns example_worker)(0 := (conns example_worker 0)
        \<lparr>sock_out := sock_out (conns example_worker 0) @
                       [[0, 82, 69, 81, 0, 0, 0, 4, 0, 0, 0, 0]],
         state := ''SLEEP''\<rparr>)\<rparr>)"
    using t1 w b by simp
  have j: "waiting_for_jobs (snd (handleJobAssignUnique gearman_constants example_worker ?ja)) = 0"
     "job_queue (snd (handleJobAssignUnique gearman_constants example_worker ?ja)) =
     [Some \<lparr>base_job.name = [114, 101, 118, 101, 114, 115, 101],
            base_job.arguments = [104, 101, 108, 108, 111], unique = Some [117, 45, 49],
            handle = Some [72, 58, 49], base_job.connection = Some 0\<rparr>]"
     "state (conns (snd (handleJobAssignUnique gearman_constants example_worker ?ja)) 0) = ''IDLE''"
    using t2 w g by simp_all
  let ?w2 = "example_worker\<lparr>waiting_for_jobs := 2\<rparr>"
  have w2: "waiting_for_jobs ?w2 > 1" "active_connections ?w2 = [0]"
      "connected (conns ?w2 0)" "\<not> sock_fail (conns ?w2 0)" "sock_out (conns ?w2 0) = []"
    by (simp_all add: example_worker_def Connection_init_def base_client.extend_def
          BaseClientServer_init_def)
  have gb: "toBinary \<lparr>code = REQ, ptype = GRAB_JOB_UNIQ gearman_constants, packet.data = [],
                  packet.connection = None\<rparr> = Inr [0, 82, 69, 81, 0, 0, 0, 30, 0, 0, 0, 0]"
    by (simp add: toBinary_def pack_i_def pack_4s_def REQ_def gearman_constants_def Let_def)
  have hh: "waiting_for_jobs ?w2 > 1 \<and>
      (\<forall>c\<in>set (active_connections ?w2).
         connected (conns ?w2 c) \<and> \<not> sock_fail (conns ?w2 c)) \<and>
      toBinary \<lparr>code = REQ, ptype = GRAB_JOB_UNIQ gearman_constants, packet.data = [],
                packet.connection = None\<rparr> = Inr [0, 82, 69, 81, 0, 0, 0, 30, 0, 0, 0, 0]"
    using w2 gb by simp
  note r = worker_state_machine [of ?ja 0 ?w2 gearman_constants
              "[0, 82, 69, 81, 0, 0, 0, 30, 0, 0, 0, 0]"
              "[72, 58, 49]" "[114, 101, 118, 101, 114, 115, 101]",
              THEN conjunct2, THEN conjunct2, THEN mp, OF h, THEN conjunct2, rule_format,
              of "[117, 45, 49]" "[104, 101, 108, 108, 111]", OF g23,
              THEN conjunct2, THEN conjunct2, THEN conjunct2, THEN conjunct2, THEN conjunct2,
              THEN mp, OF hh]
  have k: "fst (handleJobAssignUnique gearman_constants ?w2 ?ja) = Inr ()"
      "waiting_for_jobs (snd (handleJobAssignUnique gearman_constants ?w2 ?ja)) = 1"
      "sock_out (conns (snd (handleJobAssignUnique gearman_constants ?w2 ?ja)) 0) =
         [[0, 82, 69, 81, 0, 0, 0, 30, 0, 0, 0, 0]]"
      "state (conns (snd (handleJobAssignUnique gearman_constants ?w2 ?ja)) 0) = ''GRAB_WAIT''"
    unfolding r using w2 by simp_all
  show ?thesis using n j k by simp
qed

section \<open>Submitting a job\<close>

lemma outs_simple [simp]:
  "outs (lostConnection self c) = outs self"
  "outs (update_job self j f) = outs self"
  "outs (setComplete self t) = outs self"
  "outs (snd (new_task self k)) = outs self"
  "outs (append_pending_task self c t) = outs self"
  by (auto simp: outs_def lostConnection_def Let_def update_job_def setComplete_def
        new_task_def append_pending_task_def fun_eq_iff)

lemma outs_del_related_job [simp]: "outs (snd (del_related_job self p j)) = outs self"
  by (auto simp: outs_def del_related_job_def fun_eq_iff split: option.splits)

lemma outs_pop_pending_task:
  "pop_pending_task self p = Inr (c, t, self1) \<Longrightarrow> outs self1 = outs self"
  by (auto simp: outs_def pop_pending_task_def fun_eq_iff split: option.splits list.splits)

lemma outs_handleWorkComplete [simp]: "outs (snd (handleWorkComplete self p)) = outs self"
  by (simp add: handleWorkComplete_def Let_def split: sum.splits)

lemma outs_handleWorkFail [simp]: "outs (snd (handleWorkFail self p)) = outs self"
  by (simp add: handleWorkFail_def Let_def split: sum.splits)

lemma outs_handleWorkException [simp]: "outs (snd (handleWorkException self p)) = outs self"
  by (simp add: handleWorkException_def Let_def split: sum.splits)

lemma outs_handleWorkData [simp]: "outs (snd (handleWorkData self p)) = outs self"
  by (simp add: handleWorkData_def Let_def split: sum.splits)

lemma outs_handleWorkWarning [simp]: "outs (snd (handleWorkWarning self p)) = outs self"
  by (simp add: handleWorkWarning_def Let_def split: sum.splits)

lemma outs_conns_update:
  "sock_out c' = sock_out (conns self conn) \<Longrightarrow>
     outs (self\<lparr>conns := (conns self)(conn := c')\<rparr>) = outs self"
  by (auto simp: outs_def fun_eq_iff)

lemma outs_eq_iff: "outs a = outs b \<longleftrightarrow> (\<forall>c. sock_out (conns a c) = sock_out (conns b c))"
  by (auto simp: outs_def fun_eq_iff)

lemma outs_handleJobCreated [simp]: "outs (snd (handleJobCreated self p)) = outs self"
proof (cases "pop_pending_task self p")
  case (Inl e)
  then show ?thesis by (simp add: handleJobCreated_def)
next
  case (Inr x)
  obtain c t self1 where x: "x = (c, t, self1)" by (cases x) auto
  have o: "outs self1 = outs self" using outs_pop_pending_task Inr x by blast
  show ?thesis
    using Inr x o
    by (auto simp: handleJobCreated_def Let_def update_job_def setComplete_def
          lostConnection_def outs_eq_iff split: task_class.splits)
qed

lemma outs_handleOptionRes [simp]: "outs (snd (handleOptionRes self p)) = outs self"
proof (cases "pop_pending_task self p")
  case (Inl e)
  then show ?thesis by (simp add: handleOptionRes_def)
next
  case (Inr x)
  obtain c t self1 where x: "x = (c, t, self1)" by (cases x) auto
  have o: "outs self1 = outs self" using outs_pop_pending_task Inr x by blast
  show ?thesis
    using Inr x o
    by (auto simp: handleOptionRes_def Let_def outs_conns_update
          split: task_class.splits sum.splits)
qed

lemma outs_handleError [simp]: "outs (snd (handleError self p)) = outs self"
proof (cases "pop_pending_task self p")
  case (Inl e)
  then show ?thesis by (simp add: handleError_def split: sum.splits option.splits)
next
  case (Inr x)
  obtain c t self1 where x: "x = (c, t, self1)" by (cases x) auto
  have o: "outs self1 = outs self" using outs_pop_pending_task Inr x by blast
  show ?thesis
    using Inr x o
    by (auto simp: handleError_def split: sum.splits option.splits)
qed

lemma outs_Client_handleEchoRes [simp]: "outs (snd (Client_handleEchoRes self p)) = outs self"
  by (auto simp: Client_handleEchoRes_def on_connection_def handleEchoRes_def outs_def fun_eq_iff
        split: sum.splits option.splits)

lemma outs_client_event [simp]: "outs (client_event self ev) = outs self"
  by (cases ev) (simp_all add: client_event_def)

lemma outs_poll [simp]: "outs (poll self evs) = outs self"
  unfolding poll_def by (induction evs arbitrary: self) simp_all


lemma sent_only_outs:
  "outs a' = outs a \<Longrightarrow> outs b' = outs b \<Longrightarrow> sent_only p a b \<Longrightarrow> sent_only p a' b'"
  by (simp add: sent_only_def)

lemma sent_only_refl: "outs b = outs a \<Longrightarrow> sent_only p a b"
  by (simp add: sent_only_def)

lemma sent_only_trans:
  assumes "sent_only p a b" and "sent_only p b c"
  shows "sent_only p a c"
  unfolding sent_only_def
proof (intro allI conjI)
  fix conn
  have ab: "prefix (outs a conn) (outs b conn)"
    "list_all (\<lambda>m. toBinary p = Inr m) (drop (length (outs a conn)) (outs b conn))"
    using assms(1) by (simp_all add: sent_only_def)
  have bc: "prefix (outs b conn) (outs c conn)"
    "list_all (\<lambda>m. toBinary p = Inr m) (drop (length (outs b conn)) (outs c conn))"
    using assms(2) by (simp_all add: sent_only_def)
  obtain x where x: "outs b conn = outs a conn @ x" using ab(1) by (auto simp: prefix_def)
  obtain y where y: "outs c conn = outs b conn @ y" using bc(1) by (auto simp: prefix_def)
  show "prefix (outs a conn) (outs c conn)" using x y by simp
  show "list_all (\<lambda>m. toBinary p = Inr m) (drop (length (outs a conn)) (outs c conn))"
    using ab(2) bc(2) x y by simp
qed

lemma outs_getConnection: "outs (snd (getConnection self)) = outs self"
  by (auto simp: getConnection_def Let_def outs_def split: option.splits)

lemma sent_only_sendPacket: "sent_only p self (snd (sendPacket self p conn))"
proof (cases "toBinary p")
  case (Inl e)
  have "self\<lparr>conns := (conns self)(conn := conns self conn)\<rparr> = self" by simp
  then show ?thesis
    using Inl by (simp add: sendPacket_def on_connection_def Connection_sendPacket_def
                    sent_only_refl)
next
  case (Inr b)
  have u: "self\<lparr>conns := (conns self)(conn := conns self conn)\<rparr> = self" by simp
  show ?thesis
  proof (cases "connected (conns self conn) \<and> \<not> sock_fail (conns self conn)")
    case True
    then show ?thesis
      using Inr
      by (auto simp: sendPacket_ok sent_only_def outs_def)
  next
    case False
    then show ?thesis
      using Inr u
      by (auto simp: sendPacket_def on_connection_def Connection_sendPacket_def sendRaw_def
            sent_only_refl)
  qed
qed


lemma sent_only_attempt:
  "submitJob_attempt self p j attempted envs = Inl (r, self') \<Longrightarrow> sent_only p self self'"
  "submitJob_attempt self p j attempted envs = Inr (self', attempted', envs') \<Longrightarrow>
     sent_only p self self'"
proof -
  have main: "\<And>out. (submitJob_attempt self p j attempted envs = Inl (r, out) \<or>
                 submitJob_attempt self p j attempted envs = Inr (out, attempted', envs')) \<Longrightarrow>
                sent_only p self out"
  proof -
    fix out
    assume a: "submitJob_attempt self p j attempted envs = Inl (r, out) \<or>
                 submitJob_attempt self p j attempted envs = Inr (out, attempted', envs')"
    show "sent_only p self out"
    proof (cases "attempted = set (active_connections self)")
      case True
      then show ?thesis using a by (auto simp: submitJob_attempt_def sent_only_refl)
    next
      case False
      obtain g s1 where g: "getConnection self = (g, s1)" by (cases "getConnection self")
      have o1: "outs s1 = outs self" using outs_getConnection [of self] g by simp
      show ?thesis
      proof (cases g)
        case (Inl e)
        then show ?thesis using a False g o1 by (auto simp: submitJob_attempt_def sent_only_refl)
      next
        case (Inr conn)
        define t where "t = next_task s1"
        define s2 where "s2 = snd (new_task s1 (SubmitJobTask j))"
        have nt: "new_task s1 (SubmitJobTask j) = (t, s2)"
          by (simp add: new_task_def t_def s2_def)
        define s3 where "s3 = append_pending_task s2 conn t"
        have o3: "outs s3 = outs self" using o1 by (simp add: s3_def s2_def)
        obtain sr s4 where sp: "sendPacket s3 p conn = (sr, s4)" by (cases "sendPacket s3 p conn")
        have ss: "sent_only p s3 s4" using sent_only_sendPacket [of p s3 conn] sp by simp
        have so: "sent_only p self s4" by (rule sent_only_outs [OF o3 [symmetric] refl ss])
        have unf: "submitJob_attempt self p j attempted envs =
           (case sr of
              Inl e \<Rightarrow> Inr (s4, insert conn attempted, envs)
            | Inr u \<Rightarrow>
                (case task_wait s4 t (case envs of [] \<Rightarrow> [] | evs # _ \<Rightarrow> evs) of
                   (completed, self4) \<Rightarrow>
                     if \<not> completed
                     then Inr (lostConnection self4 conn, insert conn attempted, tl envs)
                     else if \<not> truthy (handle (jobs self4 j))
                     then Inr (self4, insert conn attempted, tl envs)
                     else Inl (Inr (),
                            update_job self4 j
                              (\<lambda>job. job\<lparr>base_job.connection := Some conn\<rparr>))))"
          using False g Inr nt sp by (simp add: submitJob_attempt_def s3_def)
        define s5 where "s5 = poll s4 (case envs of [] \<Rightarrow> [] | evs # _ \<Rightarrow> evs)"
        have tw: "task_wait s4 t (case envs of [] \<Rightarrow> [] | evs # _ \<Rightarrow> evs) =
                    (task.wait_event (tasks s5 t), s5)"
          by (simp add: task_wait_def s5_def Let_def)
        have o5: "outs s5 = outs s4" by (simp add: s5_def)
        have "outs out = outs s4"
        proof (cases sr)
          case (Inl e)
          then show ?thesis using a unf by simp
        next
          case sr: (Inr u)
          show ?thesis
          proof (cases "task.wait_event (tasks s5 t)")
            case False
            then show ?thesis using a unf sr tw o5 by auto
          next
            case True
            then show ?thesis using a unf sr tw o5 by (cases "truthy (handle (jobs s5 j))") auto
          qed
        qed
        then show ?thesis by (rule sent_only_outs [OF refl _ so])
      qed
    qed
  qed
  show "submitJob_attempt self p j attempted envs = Inl (r, self') \<Longrightarrow> sent_only p self self'"
    by (rule main) simp
  show "submitJob_attempt self p j attempted envs = Inr (self', attempted', envs') \<Longrightarrow>
     sent_only p self self'"
    by (rule main) simp
qed

lemma sent_only_loop: "sent_only p self (snd (submitJob_loop self p j attempted envs))"
proof (induction self p j attempted envs rule: submitJob_loop.induct)
  case (1 self p j attempted envs)
  show ?case
  proof (cases "submitJob_attempt self p j attempted envs")
    case (Inl x)
    obtain r out where x: "x = (r, out)" by (cases x)
    have e: "submitJob_attempt self p j attempted envs = Inl (r, out)" using Inl x by simp
    have "sent_only p self out" using e by (rule sent_only_attempt(1))
    then show ?thesis
      by (subst submitJob_loop.simps) (simp add: e)
  next
    case (Inr y)
    obtain s1 a1 e1 where y: "y = (s1, a1, e1)" by (cases y) auto
    have e: "submitJob_attempt self p j attempted envs = Inr (s1, a1, e1)" using Inr y by simp
    have st: "sent_only p self s1" using e by (rule sent_only_attempt(2))
    have ih: "sent_only p s1 (snd (submitJob_loop s1 p j a1 e1))"
      by (rule "1.IH" [OF e refl refl])
    show ?thesis
      by (subst submitJob_loop.simps) (simp add: e sent_only_trans [OF st ih])
  qed
qed


lemma conns_getConnection: "conns (snd (getConnection self)) = conns self"
  by (simp add: getConnection_def Let_def split: option.splits)

lemma submitJob_first_send:
  assumes g: "getConnection self = (Inr conn, s1)"
    and c: "connected (conns self conn)" and f: "\<not> sock_fail (conns self conn)"
    and m: "toBinary p = Inr m"
  shows "prefix (outs self conn @ [m]) (outs (snd (submitJob_loop self p j {} envs)) conn)"
proof -
  have ne: "active_connections self \<noteq> []"
    using g by (auto simp: getConnection_def)
  then have False: "{} \<noteq> set (active_connections self)" by simp
  have c1: "conns s1 = conns self" using conns_getConnection [of self] g by simp
  define t where "t = next_task s1"
  define s2 where "s2 = snd (new_task s1 (SubmitJobTask j))"
  have nt: "new_task s1 (SubmitJobTask j) = (t, s2)"
    by (simp add: new_task_def t_def s2_def)
  define s3 where "s3 = append_pending_task s2 conn t"
  have c3: "conns s3 conn = (conns self conn)
              \<lparr>pending_tasks := pending_tasks (conns self conn) @ [t]\<rparr>"
    using c1 by (simp add: s3_def s2_def new_task_def append_pending_task_def)
  define s4 where "s4 = s3\<lparr>conns := (conns s3)(conn := (conns s3 conn)
                      \<lparr>sock_out := sock_out (conns s3 conn) @ [m]\<rparr>)\<rparr>"
  have sp: "sendPacket s3 p conn = (Inr (), s4)"
    unfolding s4_def by (rule sendPacket_ok) (simp_all add: c3 c f m)
  have o4: "outs s4 conn = outs self conn @ [m]"
    by (simp add: s4_def outs_def c3)
  define s5 where "s5 = poll s4 (case envs of [] \<Rightarrow> [] | evs # _ \<Rightarrow> evs)"
  have tw: "task_wait s4 t (case envs of [] \<Rightarrow> [] | evs # _ \<Rightarrow> evs) =
              (task.wait_event (tasks s5 t), s5)"
    by (simp add: task_wait_def s5_def Let_def)
  have o5: "outs s5 = outs s4" by (simp add: s5_def)
  have unf: "submitJob_attempt self p j {} envs =
     (if \<not> task.wait_event (tasks s5 t)
      then Inr (lostConnection s5 conn, {conn}, tl envs)
      else if \<not> truthy (handle (jobs s5 j))
      then Inr (s5, {conn}, tl envs)
      else Inl (Inr (), update_job s5 j (\<lambda>job. job\<lparr>base_job.connection := Some conn\<rparr>)))"
    using False g nt sp [unfolded s3_def] tw [unfolded s3_def]
    by (simp add: submitJob_attempt_def s3_def)
  have pre: "\<And>X a e. outs X = outs s5 \<Longrightarrow>
               prefix (outs self conn @ [m]) (outs (snd (submitJob_loop X p j a e)) conn)"
  proof -
    fix X a e
    assume x: "outs X = outs s5"
    have "sent_only p X (snd (submitJob_loop X p j a e))" by (rule sent_only_loop)
    then have "prefix (outs X conn) (outs (snd (submitJob_loop X p j a e)) conn)"
      by (simp add: sent_only_def)
    then show "prefix (outs self conn @ [m]) (outs (snd (submitJob_loop X p j a e)) conn)"
      using x o5 o4 by simp
  qed
  show ?thesis
  proof (cases "task.wait_event (tasks s5 t)")
    case False
    have "outs (lostConnection s5 conn) = outs s5" by simp
    from pre [OF this] show ?thesis
      by (subst submitJob_loop.simps) (simp add: unf False)
  next
    case True
    show ?thesis
    proof (cases "truthy (handle (jobs s5 j))")
      case False
      from pre [OF refl] show ?thesis
        by (subst submitJob_loop.simps) (simp add: unf True False)
    next
      case t: True
      have "outs (update_job s5 j (\<lambda>job. job\<lparr>base_job.connection := Some conn\<rparr>)) conn =
              outs self conn @ [m]"
        using o5 o4 by simp
      then show ?thesis
        by (subst submitJob_loop.simps) (simp add: unf True t)
    qed
  qed
qed

lemma submitJob_packet_invalid:
  "precedence \<noteq> PRECEDENCE_NORMAL \<Longrightarrow> precedence \<noteq> PRECEDENCE_LOW \<Longrightarrow>
   precedence \<noteq> PRECEDENCE_HIGH \<Longrightarrow>
     submitJob_packet K job background precedence = Inl ConfigurationError"
  by (simp add: submitJob_packet_def Let_def)

lemma join3: "join [0] [a, b, c] = a @ [0] @ b @ [0] @ c"
  by simp

lemma submitJob_packet_valid:
  assumes "precedence = PRECEDENCE_NORMAL \<or> precedence = PRECEDENCE_LOW \<or>
           precedence = PRECEDENCE_HIGH"
  shows "submitJob_packet K job background precedence =
           Inr \<lparr>code = REQ,
                ptype = (if background
                         then if precedence = PRECEDENCE_NORMAL then SUBMIT_JOB_BG K
                              else if precedence = PRECEDENCE_LOW then SUBMIT_JOB_LOW_BG K
                              else SUBMIT_JOB_HIGH_BG K
                         else if precedence = PRECEDENCE_NORMAL then SUBMIT_JOB K
                              else if precedence = PRECEDENCE_LOW then SUBMIT_JOB_LOW K
                              else SUBMIT_JOB_HIGH K),
                packet.data = base_job.name job @ [0] @
                              (case unique job of None \<Rightarrow> [] | Some u \<Rightarrow> u) @ [0] @
                              base_job.arguments job,
                packet.connection = None\<rparr>"
  using assms
  by (auto simp: submitJob_packet_def Let_def Packet_REQ PRECEDENCE_NORMAL_def
        PRECEDENCE_LOW_def PRECEDENCE_HIGH_def)

text \<open>
  C3.  With a precedence other than NORMAL, LOW or HIGH, \<open>submitJob\<close> raises
  \<open>ConfigurationError\<close> and leaves the client as it was, so nothing has been
  sent.  Otherwise it builds one request packet, whose payload is the job's
  name, NUL, its unique key (empty when \<open>None\<close>), NUL, and its arguments,
  and whose type is SUBMIT_JOB, SUBMIT_JOB_LOW or SUBMIT_JOB_HIGH for a
  foreground job of precedence NORMAL, LOW or HIGH, and SUBMIT_JOB_BG,
  SUBMIT_JOB_LOW_BG or SUBMIT_JOB_HIGH_BG for a background job; and whatever
  the servers and the poll thread do, every byte string the call sends, on
  any connection, is the encoding of that packet; and when the connection
  that \<open>getConnection\<close> picks first is connected and its socket accepts the
  bytes, that encoding is the next thing written to it.
\<close>

theorem submitJob_sends_packet:
  "(precedence \<noteq> PRECEDENCE_NORMAL \<and> precedence \<noteq> PRECEDENCE_LOW \<and>
    precedence \<noteq> PRECEDENCE_HIGH \<longrightarrow>
      submitJob K self j background precedence envs = (Inl ConfigurationError, self)) \<and>
   (precedence = PRECEDENCE_NORMAL \<or> precedence = PRECEDENCE_LOW \<or>
    precedence = PRECEDENCE_HIGH \<longrightarrow>
      (\<exists>p. submitJob_packet K (jobs self j) background precedence = Inr p \<and>
         code p = REQ \<and> packet.connection p = None \<and>
         packet.data p = base_job.name (jobs self j) @ [0] @
            (case unique (jobs self j) of None \<Rightarrow> [] | Some u \<Rightarrow> u) @ [0] @
            base_job.arguments (jobs self j) \<and>
         (\<not> background \<and> precedence = PRECEDENCE_NORMAL \<longrightarrow> ptype p = SUBMIT_JOB K) \<and>
         (\<not> background \<and> precedence = PRECEDENCE_LOW \<longrightarrow> ptype p = SUBMIT_JOB_LOW K) \<and>
         (\<not> background \<and> precedence = PRECEDENCE_HIGH \<longrightarrow> ptype p = SUBMIT_JOB_HIGH K) \<and>
         (background \<and> precedence = PRECEDENCE_NORMAL \<longrightarrow> ptype p = SUBMIT_JOB_BG K) \<and>
         (background \<and> precedence = PRECEDENCE_LOW \<longrightarrow> ptype p = SUBMIT_JOB_LOW_BG K) \<and>
         (background \<and> precedence = PRECEDENCE_HIGH \<longrightarrow> ptype p = SUBMIT_JOB_HIGH_BG K) \<and>
         sent_only p self (snd (submitJob K self j background precedence envs)) \<and>
         (\<forall>conn s1 m. getConnection self = (Inr conn, s1) \<and> connected (conns self conn) \<and>
            \<not> sock_fail (conns self conn) \<and> toBinary p = Inr m \<longrightarrow>
            prefix (outs self conn @ [m])
              (outs (snd (submitJob K self j background precedence envs)) conn))))"
proof (intro conjI impI)
  assume "precedence \<noteq> PRECEDENCE_NORMAL \<and> precedence \<noteq> PRECEDENCE_LOW \<and>
    precedence \<noteq> PRECEDENCE_HIGH"
  then show "submitJob K self j background precedence envs = (Inl ConfigurationError, self)"
    by (simp add: submitJob_def submitJob_packet_invalid)
next
  assume v: "precedence = PRECEDENCE_NORMAL \<or> precedence = PRECEDENCE_LOW \<or>
    precedence = PRECEDENCE_HIGH"
  define q where "q = \<lparr>code = REQ,
                ptype = (if background
                         then if precedence = PRECEDENCE_NORMAL then SUBMIT_JOB_BG K
                              else if precedence = PRECEDENCE_LOW then SUBMIT_JOB_LOW_BG K
                              else SUBMIT_JOB_HIGH_BG K
                         else if precedence = PRECEDENCE_NORMAL then SUBMIT_JOB K
                              else if precedence = PRECEDENCE_LOW then SUBMIT_JOB_LOW K
                              else SUBMIT_JOB_HIGH K),
                packet.data = base_job.name (jobs self j) @ [0] @
                              (case unique (jobs self j) of None \<Rightarrow> [] | Some u \<Rightarrow> u) @ [0] @
                              base_job.arguments (jobs self j),
                packet.connection = None\<rparr>"
  have pk: "submitJob_packet K (jobs self j) background precedence = Inr q"
    unfolding q_def by (rule submitJob_packet_valid [OF v])
  have sj: "submitJob K self j background precedence envs = submitJob_loop self q j {} envs"
    by (simp add: submitJob_def pk)
  have so: "sent_only q self (snd (submitJob K self j background precedence envs))"
    unfolding sj by (rule sent_only_loop)
  have c: "code q = REQ" and n: "packet.connection q = None"
    and d: "packet.data q = base_job.name (jobs self j) @ [0] @
            (case unique (jobs self j) of None \<Rightarrow> [] | Some u \<Rightarrow> u) @ [0] @
            base_job.arguments (jobs self j)"
    by (simp_all add: q_def)
  have t1: "\<not> background \<and> precedence = PRECEDENCE_NORMAL \<longrightarrow> ptype q = SUBMIT_JOB K"
    and t2: "\<not> background \<and> precedence = PRECEDENCE_LOW \<longrightarrow> ptype q = SUBMIT_JOB_LOW K"
    and t3: "\<not> background \<and> precedence = PRECEDENCE_HIGH \<longrightarrow> ptype q = SUBMIT_JOB_HIGH K"
    and t4: "background \<and> precedence = PRECEDENCE_NORMAL \<longrightarrow> ptype q = SUBMIT_JOB_BG K"
    and t5: "background \<and> precedence = PRECEDENCE_LOW \<longrightarrow> ptype q = SUBMIT_JOB_LOW_BG K"
    and t6: "background \<and> precedence = PRECEDENCE_HIGH \<longrightarrow> ptype q = SUBMIT_JOB_HIGH_BG K"
    by (simp_all add: q_def PRECEDENCE_NORMAL_def PRECEDENCE_LOW_def PRECEDENCE_HIGH_def)
  have fs: "\<forall>conn s1 m. getConnection self = (Inr conn, s1) \<and> connected (conns self conn) \<and>
            \<not> sock_fail (conns self conn) \<and> toBinary q = Inr m \<longrightarrow>
            prefix (outs self conn @ [m])
              (outs (snd (submitJob K self j background precedence envs)) conn)"
  proof (intro allI impI)
    fix conn s1 m
    assume h: "getConnection self = (Inr conn, s1) \<and> connected (conns self conn) \<and>
            \<not> sock_fail (conns self conn) \<and> toBinary q = Inr m"
    show "prefix (outs self conn @ [m])
              (outs (snd (submitJob K self j background precedence envs)) conn)"
      unfolding sj
      by (rule submitJob_first_send [of self conn s1 q m]) (simp_all add: h)
  qed
  show "\<exists>p. submitJob_packet K (jobs self j) background precedence = Inr p \<and>
         code p = REQ \<and> packet.connection p = None \<and>
         packet.data p = base_job.name (jobs self j) @ [0] @
            (case unique (jobs self j) of None \<Rightarrow> [] | Some u \<Rightarrow> u) @ [0] @
            base_job.arguments (jobs self j) \<and>
         (\<not> background \<and> precedence = PRECEDENCE_NORMAL \<longrightarrow> ptype p = SUBMIT_JOB K) \<and>
         (\<not> background \<and> precedence = PRECEDENCE_LOW \<longrightarrow> ptype p = SUBMIT_JOB_LOW K) \<and>
         (\<not> background \<and> precedence = PRECEDENCE_HIGH \<longrightarrow> ptype p = SUBMIT_JOB_HIGH K) \<and>
         (background \<and> precedence = PRECEDENCE_NORMAL \<longrightarrow> ptype p = SUBMIT_JOB_BG K) \<and>
         (background \<and> precedence = PRECEDENCE_LOW \<longrightarrow> ptype p = SUBMIT_JOB_LOW_BG K) \<and>
         (background \<and> precedence = PRECEDENCE_HIGH \<longrightarrow> ptype p = SUBMIT_JOB_HIGH_BG K) \<and>
         sent_only p self (snd (submitJob K self j background precedence envs)) \<and>
         (\<forall>conn s1 m. getConnection self = (Inr conn, s1) \<and> connected (conns self conn) \<and>
            \<not> sock_fail (conns self conn) \<and> toBinary p = Inr m \<longrightarrow>
            prefix (outs self conn @ [m])
              (outs (snd (submitJob K self j background precedence envs)) conn))"
    by (rule exI [of _ q]) (intro conjI pk c n d t1 t2 t3 t4 t5 t6 so fs)
qed


theorem submitJob_sends_packet_witness:
  "submitJob gearman_constants example_client 0 False 7 [] =
     (Inl ConfigurationError, example_client) \<and>
   submitJob_packet gearman_constants (jobs example_client 0) False PRECEDENCE_NORMAL =
     Inr \<lparr>code = REQ, ptype = 7,
          packet.data = [114, 101, 118, 101, 114, 115, 101, 0, 0, 104, 101, 108, 108, 111],
          packet.connection = None\<rparr> \<and>
   fst (getConnection example_client) = Inr 0 \<and>
   outs example_client 0 = [] \<and>
   prefix [[0, 82, 69, 81, 0, 0, 0, 7, 0, 0, 0, 14,
            114, 101, 118, 101, 114, 115, 101, 0, 0, 104, 101, 108, 108, 111]]
     (outs (snd (submitJob gearman_constants example_client 0 False PRECEDENCE_NORMAL [])) 0)"
proof -
  let ?q = "\<lparr>code = REQ, ptype = 7,
          packet.data = [114, 101, 118, 101, 114, 115, 101, 0, 0, 104, 101, 108, 108, 111],
          packet.connection = None\<rparr>"
  let ?m = "[0, 82, 69, 81, 0, 0, 0, 7, 0, 0, 0, 14,
            114, 101, 118, 101, 114, 115, 101, 0, 0, 104, 101, 108, 108, 111] :: bytes"
  have a: "submitJob gearman_constants example_client 0 False 7 [] =
     (Inl ConfigurationError, example_client)"
    using submitJob_sends_packet [of 7 gearman_constants example_client 0 False "[]"]
    by (simp add: PRECEDENCE_NORMAL_def PRECEDENCE_LOW_def PRECEDENCE_HIGH_def)
  have pk: "submitJob_packet gearman_constants (jobs example_client 0) False PRECEDENCE_NORMAL =
     Inr ?q"
    by (simp add: submitJob_packet_def Let_def Packet_REQ gearman_constants_def
          example_client_def Job_init_def PRECEDENCE_NORMAL_def)
  have g: "getConnection example_client =
             (Inr 0, example_client\<lparr>connection_index := 0\<rparr>)"
    by (simp add: getConnection_def Let_def getitem_def example_client_def
          BaseClientServer_init_def)
  have c: "connected (conns example_client 0)" "\<not> sock_fail (conns example_client 0)"
      "outs example_client 0 = []"
    by (simp_all add: example_client_def Connection_init_def outs_def)
  have b: "toBinary ?q = Inr ?m"
    by (simp add: toBinary_def pack_i_def pack_4s_def REQ_def Let_def)
  from submitJob_sends_packet [of PRECEDENCE_NORMAL gearman_constants example_client 0 False "[]"]
  obtain p where p: "submitJob_packet gearman_constants (jobs example_client 0) False
                       PRECEDENCE_NORMAL = Inr p"
    and f: "\<forall>conn s1 m. getConnection example_client = (Inr conn, s1) \<and>
              connected (conns example_client conn) \<and>
              \<not> sock_fail (conns example_client conn) \<and> toBinary p = Inr m \<longrightarrow>
              prefix (outs example_client conn @ [m])
                (outs (snd (submitJob gearman_constants example_client 0 False
                   PRECEDENCE_NORMAL [])) conn)"
    by blast
  have pq: "p = ?q" using p pk by simp
  have "prefix (outs example_client 0 @ [?m])
          (outs (snd (submitJob gearman_constants example_client 0 False
                   PRECEDENCE_NORMAL [])) 0)"
    using f [rule_format, of 0 "example_client\<lparr>connection_index := 0\<rparr>" ?m] g c b pq
    by simp
  then show ?thesis using a pk g c by simp
qed

section \<open>Timeouts of the blocking operations\<close>

lemma lostConnection_inactive:
  "conn \<in> set (inactive_connections (lostConnection self conn))"
  by (simp add: lostConnection_def Let_def)

lemma lostConnection_not_active:
  "distinct (active_connections self) \<Longrightarrow>
     conn \<notin> set (active_connections (lostConnection self conn))"
  by (simp add: lostConnection_active)

lemma lostConnection_distinct:
  "distinct (active_connections self) \<Longrightarrow>
     distinct (active_connections (lostConnection self c))"
  by (simp add: lostConnection_active)

lemma active_simple [simp]:
  "active_connections (update_job self j f) = active_connections self"
  "active_connections (setComplete self t) = active_connections self"
  "active_connections (snd (new_task self k)) = active_connections self"
  "active_connections (append_pending_task self c t) = active_connections self"
  "active_connections (snd (del_related_job self p j)) = active_connections self"
  by (auto simp: update_job_def setComplete_def new_task_def append_pending_task_def
        del_related_job_def split: option.splits)

lemma active_pop_pending_task:
  "pop_pending_task self p = Inr (c, t, self1) \<Longrightarrow>
     active_connections self1 = active_connections self"
  by (auto simp: pop_pending_task_def split: option.splits list.splits)

lemma active_handleWork [simp]:
  "active_connections (snd (handleWorkComplete self p)) = active_connections self"
  "active_connections (snd (handleWorkFail self p)) = active_connections self"
  "active_connections (snd (handleWorkException self p)) = active_connections self"
  "active_connections (snd (handleWorkData self p)) = active_connections self"
  "active_connections (snd (handleWorkWarning self p)) = active_connections self"
  by (simp_all add: handleWorkComplete_def handleWorkFail_def handleWorkException_def
        handleWorkData_def handleWorkWarning_def Let_def split: sum.splits)

lemma distinct_handleJobCreated:
  assumes "distinct (active_connections self)"
  shows "distinct (active_connections (snd (handleJobCreated self p)))"
proof (cases "pop_pending_task self p")
  case (Inl e)
  then show ?thesis using assms by (simp add: handleJobCreated_def)
next
  case (Inr x)
  obtain c t self1 where x: "x = (c, t, self1)" by (cases x) auto
  have o: "active_connections self1 = active_connections self"
    using active_pop_pending_task Inr x by blast
  show ?thesis
    using Inr x o assms
    by (auto simp: handleJobCreated_def Let_def lostConnection_active setComplete_def
          update_job_def split: task_class.splits)
qed

lemma distinct_handleOptionRes:
  assumes "distinct (active_connections self)"
  shows "distinct (active_connections (snd (handleOptionRes self p)))"
proof (cases "pop_pending_task self p")
  case (Inl e)
  then show ?thesis using assms by (simp add: handleOptionRes_def)
next
  case (Inr x)
  obtain c t self1 where x: "x = (c, t, self1)" by (cases x) auto
  have o: "active_connections self1 = active_connections self"
    using active_pop_pending_task Inr x by blast
  show ?thesis
    using Inr x o assms
    by (auto simp: handleOptionRes_def Let_def lostConnection_active setComplete_def
          split: task_class.splits sum.splits)
qed

lemma distinct_handleError:
  assumes "distinct (active_connections self)"
  shows "distinct (active_connections (snd (handleError self p)))"
proof (cases "pop_pending_task self p")
  case (Inl e)
  then show ?thesis using assms
    by (simp add: handleError_def lostConnection_active split: sum.splits option.splits)
next
  case (Inr x)
  obtain c t self1 where x: "x = (c, t, self1)" by (cases x) auto
  have o: "active_connections self1 = active_connections self"
    using active_pop_pending_task Inr x by blast
  show ?thesis
    using Inr x o assms
    by (auto simp: handleError_def split: sum.splits option.splits)
qed

lemma active_on_connection [simp]:
  "active_connections (snd (on_connection conn m self)) = active_connections self"
  "inactive_connections (snd (on_connection conn m self)) = inactive_connections self"
  by (simp_all add: on_connection_def split: prod.splits)

lemma active_Client_handleEchoRes [simp]:
  "active_connections (snd (Client_handleEchoRes self p)) = active_connections self"
  by (simp add: Client_handleEchoRes_def split: sum.splits option.splits)

lemma distinct_client_event:
  "distinct (active_connections self) \<Longrightarrow>
     distinct (active_connections (client_event self ev))"
  by (cases ev)
     (simp_all add: client_event_def distinct_handleJobCreated distinct_handleOptionRes
        distinct_handleError lostConnection_distinct)

lemma distinct_poll:
  "distinct (active_connections self) \<Longrightarrow> distinct (active_connections (poll self evs))"
  unfolding poll_def
  by (induction evs arbitrary: self) (simp_all add: distinct_client_event)


lemma submitJob_attempt_timeout:
  assumes g: "getConnection self = (Inr conn, s1)"
    and nt: "new_task s1 (SubmitJobTask j) = (t, s2)"
    and sp: "sendPacket (append_pending_task s2 conn t) p conn = (Inr (), s3)"
    and tw: "task_wait s3 t (case envs of [] \<Rightarrow> [] | evs # _ \<Rightarrow> evs) = (False, s4)"
    and na: "attempted \<noteq> set (active_connections self)"
  shows "submitJob_attempt self p j attempted envs =
           Inr (lostConnection s4 conn, insert conn attempted, tl envs)"
    and "distinct (active_connections self) \<Longrightarrow>
           conn \<notin> set (active_connections (lostConnection s4 conn))"
proof -
  show "submitJob_attempt self p j attempted envs =
           Inr (lostConnection s4 conn, insert conn attempted, tl envs)"
    using g nt sp tw na by (simp add: submitJob_attempt_def)
  assume d: "distinct (active_connections self)"
  have a1: "active_connections s1 = active_connections self"
    using getConnection_active(2) [OF g] .
  have a2: "active_connections s2 = active_connections self"
    using nt a1 by (auto simp: new_task_def)
  have a3: "active_connections s3 = active_connections self"
    using sendPacket_active(2) [OF sp] a2 by (simp add: append_pending_task_def)
  have s4: "s4 = poll s3 (case envs of [] \<Rightarrow> [] | evs # _ \<Rightarrow> evs)"
    using tw by (simp add: task_wait_def Let_def)
  have "distinct (active_connections s4)"
    unfolding s4 by (rule distinct_poll) (simp add: a3 d)
  then show "conn \<notin> set (active_connections (lostConnection s4 conn))"
    by (rule lostConnection_not_active)
qed

lemma setOption_wait_timeout:
  assumes tw: "task_wait self t evs = (False, s1)"
  shows "setOption_wait self opt (t, conn) evs success = (success, lostConnection s1 conn)"
    and "distinct (active_connections self) \<Longrightarrow>
           conn \<notin> set (active_connections (lostConnection s1 conn))"
proof -
  show "setOption_wait self opt (t, conn) evs success = (success, lostConnection s1 conn)"
    using tw by (simp add: setOption_wait_def)
  assume d: "distinct (active_connections self)"
  have s1: "s1 = poll self evs" using tw by (simp add: task_wait_def Let_def)
  have "distinct (active_connections s1)"
    unfolding s1 using d by (rule distinct_poll)
  then show "conn \<notin> set (active_connections (lostConnection s1 conn))"
    by (rule lostConnection_not_active)
qed

lemma submitJob_attempt_no_events:
  "submitJob_attempt self p j attempted [] = Inl (r, out) \<Longrightarrow> \<exists>e. r = Inl e"
  "submitJob_attempt self p j attempted [] = Inr (self1, attempted1, envs1) \<Longrightarrow> envs1 = []"
proof -
  have main: "(\<forall>out r. submitJob_attempt self p j attempted [] = Inl (r, out) \<longrightarrow> (\<exists>e. r = Inl e)) \<and>
              (\<forall>self1 attempted1 envs1.
                 submitJob_attempt self p j attempted [] = Inr (self1, attempted1, envs1) \<longrightarrow>
                 envs1 = [])"
  proof (cases "attempted = set (active_connections self)")
    case True
    then show ?thesis by (simp add: submitJob_attempt_def)
  next
    case False
    obtain g s1 where g: "getConnection self = (g, s1)" by (cases "getConnection self")
    show ?thesis
    proof (cases g)
      case (Inl e)
      then show ?thesis using False g by (simp add: submitJob_attempt_def)
    next
      case (Inr conn)
      define t where "t = next_task s1"
      define s2 where "s2 = snd (new_task s1 (SubmitJobTask j))"
      have nt: "new_task s1 (SubmitJobTask j) = (t, s2)"
        by (simp add: new_task_def t_def s2_def)
      define s3 where "s3 = append_pending_task s2 conn t"
      have w3: "\<not> task.wait_event (tasks s3 t)"
        by (simp add: s3_def s2_def t_def new_task_def append_pending_task_def)
      obtain sr s4 where sp: "sendPacket s3 p conn = (sr, s4)" by (cases "sendPacket s3 p conn")
      show ?thesis
      proof (cases sr)
        case (Inl e)
        then show ?thesis
          using False g Inr nt sp by (simp add: submitJob_attempt_def s3_def)
      next
        case sr: (Inr u)
        have "tasks s4 = tasks s3" using sendPacket_active(2) [of s3 p conn u s4] sp sr by simp
        then have tw: "task_wait s4 t [] = (False, s4)"
          using w3 by (simp add: task_wait_def poll_def)
        show ?thesis
          using False g Inr nt sp sr tw by (simp add: submitJob_attempt_def s3_def)
      qed
    qed
  qed
  show "submitJob_attempt self p j attempted [] = Inl (r, out) \<Longrightarrow> \<exists>e. r = Inl e"
    using main by blast
  show "submitJob_attempt self p j attempted [] = Inr (self1, attempted1, envs1) \<Longrightarrow> envs1 = []"
    using main by blast
qed

lemma submitJob_loop_no_events_aux:
  "envs = [] \<Longrightarrow> \<exists>e. fst (submitJob_loop self p j attempted envs) = Inl e"
proof (induction self p j attempted envs rule: submitJob_loop.induct)
  case (1 self p j attempted envs)
  note e0 = \<open>envs = []\<close>
  show ?case
  proof (cases "submitJob_attempt self p j attempted envs")
    case (Inl x)
    obtain r out where x: "x = (r, out)" by (cases x)
    have e: "submitJob_attempt self p j attempted [] = Inl (r, out)" using Inl x e0 by simp
    from submitJob_attempt_no_events(1) [OF e] obtain err where "r = Inl err" by blast
    then show ?thesis
      by (subst submitJob_loop.simps) (simp add: e e0)
  next
    case (Inr y)
    obtain s1 a1 e1 where y: "y = (s1, a1, e1)" by (cases y) auto
    have e: "submitJob_attempt self p j attempted envs = Inr (s1, a1, e1)" using Inr y by simp
    have e1: "e1 = []" using submitJob_attempt_no_events(2) [of self p j attempted s1 a1 e1] e e0
      by simp
    have ih: "\<exists>e. fst (submitJob_loop s1 p j a1 e1) = Inl e"
      by (rule "1.IH" [OF e refl refl e1])
    show ?thesis
      using ih by (subst submitJob_loop.simps) (simp add: e)
  qed
qed

lemma submitJob_no_events: "\<exists>e. fst (submitJob K self j background precedence []) = Inl e"
proof (cases "submitJob_packet K (jobs self j) background precedence")
  case (Inl e)
  then show ?thesis by (simp add: submitJob_def)
next
  case (Inr q)
  then show ?thesis
    using submitJob_loop_no_events_aux [of "[]" self q j "{}"] by (simp add: submitJob_def)
qed

lemma sendAdminRequest_timeout:
  "connected c \<Longrightarrow> \<not> sock_fail c \<Longrightarrow> fst (sendAdminRequest c request False) = Inl TimeoutError"
  by (simp add: sendAdminRequest_def sendRaw_def Let_def)

lemma sendAdminRequest_raises: "\<exists>e. fst (sendAdminRequest c request False) = Inl e"
  by (simp add: sendAdminRequest_def sendRaw_def Let_def)

lemma fst_on_connection: "fst (on_connection conn m self) = fst (m (conns self conn))"
  by (simp add: on_connection_def split: prod.splits)


text \<open>
  C7, as the code has it.  In \<open>submitJob\<close> and in \<open>setOption\<close>, a wait that
  times out is followed by \<open>_lostConnection\<close> on the connection that owns
  the request: that connection is in the inactive list afterwards and, the
  active list having no duplicates, no longer in the active list; \<open>submitJob\<close>
  goes on to the next connection, and raises when no response ever arrives;
  \<open>setOption\<close> goes on to the next task with its result \<open>success\<close> as it
  was.  \<open>Connection.sendAdminRequest\<close> raises on a timeout
  (\<open>TimeoutError\<close> when the command could be sent), and neither it nor
  \<open>Connection.echo\<close> changes the active or the inactive list of the client
  that holds the connection.
\<close>

theorem timeout_loses_connection:
  "(getConnection self = (Inr conn, s1) \<and> new_task s1 (SubmitJobTask j) = (t, s2) \<and>
    sendPacket (append_pending_task s2 conn t) p conn = (Inr (), s3) \<and>
    task_wait s3 t (case envs of [] \<Rightarrow> [] | evs # _ \<Rightarrow> evs) = (False, s4) \<and>
    attempted \<noteq> set (active_connections self) \<longrightarrow>
      submitJob_attempt self p j attempted envs =
        Inr (lostConnection s4 conn, insert conn attempted, tl envs) \<and>
      conn \<in> set (inactive_connections (lostConnection s4 conn)) \<and>
      (distinct (active_connections self) \<longrightarrow>
         conn \<notin> set (active_connections (lostConnection s4 conn)))) \<and>
   (\<exists>e. fst (submitJob K self j background precedence []) = Inl e) \<and>
   (task_wait self t' evs = (False, s5) \<longrightarrow>
      setOption_wait self opt (t', conn') evs success = (success, lostConnection s5 conn') \<and>
      conn' \<in> set (inactive_connections (lostConnection s5 conn')) \<and>
      (distinct (active_connections self) \<longrightarrow>
         conn' \<notin> set (active_connections (lostConnection s5 conn')))) \<and>
   (\<exists>e. fst (on_connection c (\<lambda>x. sendAdminRequest x request False) self) = Inl e) \<and>
   (connected (conns self c) \<and> \<not> sock_fail (conns self c) \<longrightarrow>
      fst (on_connection c (\<lambda>x. sendAdminRequest x request False) self) = Inl TimeoutError) \<and>
   active_connections (snd (on_connection c (\<lambda>x. sendAdminRequest x request completed) self)) =
     active_connections self \<and>
   inactive_connections (snd (on_connection c (\<lambda>x. sendAdminRequest x request completed) self)) =
     inactive_connections self \<and>
   active_connections (snd (on_connection c (\<lambda>x. echo K x d u replies) self)) =
     active_connections self \<and>
   inactive_connections (snd (on_connection c (\<lambda>x. echo K x d u replies) self)) =
     inactive_connections self"
proof (intro conjI impI)
  assume h: "getConnection self = (Inr conn, s1) \<and> new_task s1 (SubmitJobTask j) = (t, s2) \<and>
    sendPacket (append_pending_task s2 conn t) p conn = (Inr (), s3) \<and>
    task_wait s3 t (case envs of [] \<Rightarrow> [] | evs # _ \<Rightarrow> evs) = (False, s4) \<and>
    attempted \<noteq> set (active_connections self)"
  then have g: "getConnection self = (Inr conn, s1)"
    and nt: "new_task s1 (SubmitJobTask j) = (t, s2)"
    and sp: "sendPacket (append_pending_task s2 conn t) p conn = (Inr (), s3)"
    and tw: "task_wait s3 t (case envs of [] \<Rightarrow> [] | evs # _ \<Rightarrow> evs) = (False, s4)"
    and na: "attempted \<noteq> set (active_connections self)"
    by simp_all
  show "submitJob_attempt self p j attempted envs =
        Inr (lostConnection s4 conn, insert conn attempted, tl envs)"
    by (rule submitJob_attempt_timeout(1) [OF g nt sp tw na])
  show "conn \<in> set (inactive_connections (lostConnection s4 conn))"
    by (rule lostConnection_inactive)
  assume "distinct (active_connections self)"
  then show "conn \<notin> set (active_connections (lostConnection s4 conn))"
    by (rule submitJob_attempt_timeout(2) [OF g nt sp tw na])
next
  show "\<exists>e. fst (submitJob K self j background precedence []) = Inl e"
    by (rule submitJob_no_events)
next
  assume tw: "task_wait self t' evs = (False, s5)"
  show "setOption_wait self opt (t', conn') evs success = (success, lostConnection s5 conn')"
    by (rule setOption_wait_timeout(1) [OF tw])
  show "conn' \<in> set (inactive_connections (lostConnection s5 conn'))"
    by (rule lostConnection_inactive)
  assume "distinct (active_connections self)"
  then show "conn' \<notin> set (active_connections (lostConnection s5 conn'))"
    by (rule setOption_wait_timeout(2) [OF tw])
next
  show "\<exists>e. fst (on_connection c (\<lambda>x. sendAdminRequest x request False) self) = Inl e"
    unfolding fst_on_connection by (rule sendAdminRequest_raises)
next
  assume "connected (conns self c) \<and> \<not> sock_fail (conns self c)"
  then show "fst (on_connection c (\<lambda>x. sendAdminRequest x request False) self) = Inl TimeoutError"
    unfolding fst_on_connection by (simp add: sendAdminRequest_timeout)
qed simp_all

theorem timeout_loses_connection_witness:
  "distinct (active_connections example_client) \<and>
   (\<exists>s. submitJob_attempt example_client
           \<lparr>code = REQ, ptype = 7,
            packet.data = [114, 101, 118, 101, 114, 115, 101, 0, 0, 104, 101, 108, 108, 111],
            packet.connection = None\<rparr> 0 {} [] = Inr (s, {0}, []) \<and>
        0 \<in> set (inactive_connections s) \<and> 0 \<notin> set (active_connections s)) \<and>
   (\<exists>s. setOption_wait example_client [111] (0, 0) [] True = (True, s) \<and>
        0 \<in> set (inactive_connections s) \<and> 0 \<notin> set (active_connections s))"
proof -
  let ?q = "\<lparr>code = REQ, ptype = 7,
            packet.data = [114, 101, 118, 101, 114, 115, 101, 0, 0, 104, 101, 108, 108, 111],
            packet.connection = None\<rparr>"
  let ?m = "[0, 82, 69, 81, 0, 0, 0, 7, 0, 0, 0, 14,
            114, 101, 118, 101, 114, 115, 101, 0, 0, 104, 101, 108, 108, 111] :: bytes"
  define s1 where "s1 = example_client\<lparr>connection_index := 0\<rparr>"
  define s2 where "s2 = snd (new_task s1 (SubmitJobTask 0))"
  define s3 where "s3 = snd (sendPacket (append_pending_task s2 0 0) ?q 0)"
  have d: "distinct (active_connections example_client)"
    and a: "{} \<noteq> set (active_connections example_client)"
    by (simp_all add: example_client_def)
  have g: "getConnection example_client = (Inr 0, s1)"
    by (simp add: getConnection_def Let_def getitem_def example_client_def
          BaseClientServer_init_def s1_def)
  have n0: "next_task s1 = 0"
    by (simp add: s1_def example_client_def BaseClientServer_init_def)
  have nt: "new_task s1 (SubmitJobTask 0) = (0, s2)"
    by (simp add: s2_def new_task_def n0)
  have b: "toBinary ?q = Inr ?m"
    by (simp add: toBinary_def pack_i_def pack_4s_def REQ_def Let_def)
  have c3: "connected (conns (append_pending_task s2 0 0) 0)"
      "\<not> sock_fail (conns (append_pending_task s2 0 0) 0)"
    by (simp_all add: append_pending_task_def s2_def new_task_def s1_def example_client_def
          Connection_init_def)
  have sp: "sendPacket (append_pending_task s2 0 0) ?q 0 = (Inr (), s3)"
    unfolding s3_def using sendPacket_ok [OF c3 b] by simp
  have t3: "tasks s3 = tasks s2"
    using sendPacket_active(2) [OF sp] by (simp add: append_pending_task_def)
  have tw: "task_wait s3 0 (case [] :: client_event list list of [] \<Rightarrow> [] | evs # _ \<Rightarrow> evs)
              = (False, s3)"
    by (simp add: task_wait_def poll_def t3 s2_def new_task_def n0)
  have tw': "task_wait example_client 0 [] = (False, example_client)"
    by (simp add: task_wait_def poll_def example_client_def BaseClientServer_init_def)
  note th = timeout_loses_connection [where self = example_client and conn = 0 and ?s1.0 = s1
      and j = 0 and t = 0 and ?s2.0 = s2 and p = ?q and ?s3.0 = s3 and envs = "[]" and ?s4.0 = s3
      and attempted = "{}" and t' = 0 and evs = "[]" and ?s5.0 = example_client and opt = "[111]"
      and conn' = 0 and success = True]
  have A: "submitJob_attempt example_client ?q 0 {} [] = Inr (lostConnection s3 0, {0}, [])"
      "0 \<in> set (inactive_connections (lostConnection s3 0))"
      "0 \<notin> set (active_connections (lostConnection s3 0))"
    using th g nt sp tw a d by simp_all
  have B: "setOption_wait example_client [111] (0, 0) [] True =
             (True, lostConnection example_client 0)"
      "0 \<in> set (inactive_connections (lostConnection example_client 0))"
      "0 \<notin> set (active_connections (lostConnection example_client 0))"
    using th tw' d by simp_all
  show ?thesis
    using d A B by simp
qed

text \<open>
  A status request on the connected server of \<open>example_client\<close>, with no
  response before the timeout: \<open>sendAdminRequest\<close> raises \<open>TimeoutError\<close>,
  and the connection is still in the active list and not in the inactive
  one.
\<close>

theorem sendAdminRequest_timeout_counterexample:
  "fst (on_connection 0
         (\<lambda>c. sendAdminRequest c
                 \<lparr>cls = StatusAdminRequest, admin_request.arguments = [], response = None,
                  admin_request.wait_event = False\<rparr> False)
         example_client) = Inl TimeoutError \<and>
   active_connections (snd (on_connection 0
         (\<lambda>c. sendAdminRequest c
                 \<lparr>cls = StatusAdminRequest, admin_request.arguments = [], response = None,
                  admin_request.wait_event = False\<rparr> False)
         example_client)) = [0] \<and>
   inactive_connections (snd (on_connection 0
         (\<lambda>c. sendAdminRequest c
                 \<lparr>cls = StatusAdminRequest, admin_request.arguments = [], response = None,
                  admin_request.wait_event = False\<rparr> False)
         example_client)) = []"
  by (simp add: on_connection_def sendAdminRequest_def sendRaw_def Let_def example_client_def
        Connection_init_def BaseClientServer_init_def split: prod.splits)

text \<open>
  A whole call of \<open>setOption\<close> on a client with one connected server that
  never answers: the connection is lost, and the call returns \<open>True\<close>.
\<close>

lemma setOption_timeout_returns_True:
  "fst (setOption gearman_constants example_option_client [111] []) = Inr True \<and>
   active_connections (snd (setOption gearman_constants example_option_client [111] [])) = [] \<and>
   inactive_connections (snd (setOption gearman_constants example_option_client [111] [])) = [0]"
proof -
  define s1 where "s1 = example_option_client
      \<lparr>client.options := insert [111] (client.options example_option_client)\<rparr>"
  let ?q = "\<lparr>code = REQ, ptype = 26, packet.data = [111], packet.connection = None\<rparr>"
  have b: "toBinary ?q = Inr [0, 82, 69, 81, 0, 0, 0, 26, 0, 0, 0, 1, 111]"
    by (simp add: toBinary_def pack_i_def pack_4s_def REQ_def Let_def)
  have pk: "Packet REQ (OPTION_REQ gearman_constants) [111] None = Inr ?q"
    by (simp add: Packet_REQ gearman_constants_def)
  have f: "active_connections s1 = [0]" "inactive_connections s1 = []" "next_task s1 = 0"
    by (simp_all add: s1_def example_option_client_def example_client_def
          base_client.extend_def BaseClientServer_init_def)
  define s2 where "s2 = append_pending_task (snd (new_task s1 OptionReqTask)) 0 0"
  have c: "connected (conns s2 0)" "\<not> sock_fail (conns s2 0)"
    by (simp_all add: s2_def append_pending_task_def new_task_def s1_def
          example_option_client_def example_client_def base_client.extend_def
          Connection_init_def)
  define s3 where "s3 = snd (sendPacket s2 ?q 0)"
  have sp: "sendPacket s2 ?q 0 = (Inr (), s3)"
    unfolding s3_def using sendPacket_ok [OF c b] by simp
  have a3: "active_connections s3 = [0]" "tasks s3 = tasks s2"
    using sendPacket_active(2) [OF sp] f by (simp_all add: s2_def append_pending_task_def new_task_def)
  have s3e: "s3 = s2\<lparr>conns := (conns s2)(0 := (conns s2 0)
                \<lparr>sock_out := sock_out (conns s2 0) @
                   [[0, 82, 69, 81, 0, 0, 0, 26, 0, 0, 0, 1, 111]]\<rparr>)\<rparr>"
    unfolding s3_def by (simp add: sendPacket_ok [OF c b])
  have i3: "inactive_connections s3 = []"
    by (simp add: s3e s2_def append_pending_task_def new_task_def f)
  have soc: "setOptionConnection gearman_constants s1 [111] 0 = (Inr (Some 0), s3)"
    using sp by (simp add: setOptionConnection_def pk new_task_def f s2_def)
  have w: "\<not> task.wait_event (tasks s3 0)"
    by (simp add: a3 s2_def append_pending_task_def new_task_def f)
  have "setOption gearman_constants example_option_client [111] [] =
          (Inr True, lostConnection s3 0)"
    using soc w
    by (simp add: setOption_def Let_def s1_def [symmetric] f setOption_wait_def task_wait_def
          poll_def)
  then show ?thesis
    by (simp add: lostConnection_def Let_def a3 i3)
qed

end
